(* ===== verification/Prelude.thy ===== *)
theory Prelude
  imports Main "HOL-Library.Word" "HOL-Library.Char_ord" "HOL-Library.List_Lexorder"
begin

text \<open>
  Shared layer of the cxy-sdn development. It holds
  \<^item> the outcome of a Go call (a value, a run-time panic, or a retry loop that was cut
    off by its fuel) and the state-passing composition used for every effectful
    function of the program;
  \<^item> decimal rendering and reading as \<^verbatim>\<open>strconv.Itoa\<close>, \<^verbatim>\<open>fmt.Sprint\<close> and the
    \<^verbatim>\<open>dtoi\<close> helper of Go's \<^verbatim>\<open>net\<close> package do it;
  \<^item> association lists kept in key order, the shape of Consul's KV table;
  \<^item> the named collections of rules the component proofs use.
\<close>

named_theorems go_run \<open>equations that execute a Go call in a known state\<close>
named_theorems gives_intro \<open>rules that show what a call can return\<close>
named_theorems keeps_intro \<open>rules that show that a call keeps a state property\<close>

section \<open>Bytes\<close>

type_synonym byte = "8 word"
type_synonym bytes = "byte list"

text \<open>Go's \<^verbatim>\<open>copy(dst, src)\<close>: the common prefix is overwritten, the lengths stay.\<close>

definition go_copy :: "'a list \<Rightarrow> 'a list \<Rightarrow> 'a list" where
  "go_copy dst src = take (length dst) src @ drop (length src) dst"

lemma length_go_copy [simp]: "length (go_copy dst src) = length dst"
  by (simp add: go_copy_def)

lemma go_copy_same_length [simp]: "length dst = length src \<Longrightarrow> go_copy dst src = src"
  by (simp add: go_copy_def)

section \<open>Outcomes and sequencing\<close>

text \<open>
  A Go function either returns, panics (an out-of-range index, a nil dereference), or, for
  the functions that call themselves again after a lost race, is cut off by the fuel of
  the model. The state is kept in all three cases: what was written to the cluster
  store before a panic stays written.
\<close>

datatype 'a outcome = Ret 'a | Panic string | NoFuel

type_synonym ('s, 'a) go = "'s \<Rightarrow> 'a outcome \<times> 's"

definition gret :: "'a \<Rightarrow> ('s, 'a) go" where
  "gret x s = (Ret x, s)"

definition gpanic :: "string \<Rightarrow> ('s, 'a) go" where
  "gpanic e s = (Panic e, s)"

definition gstop :: "('s, 'a) go" where
  "gstop s = (NoFuel, s)"

definition gbind :: "('s, 'a) go \<Rightarrow> ('a \<Rightarrow> ('s, 'b) go) \<Rightarrow> ('s, 'b) go" where
  "gbind m f s = (case m s of
      (Ret x, s') \<Rightarrow> f x s'
    | (Panic e, s') \<Rightarrow> (Panic e, s')
    | (NoFuel, s') \<Rightarrow> (NoFuel, s'))"

text \<open>A checked computation without effects (\<^verbatim>\<open>None\<close> is the panic) as a step.\<close>

definition gcheck :: "string \<Rightarrow> 'a option \<Rightarrow> ('s, 'a) go" where
  "gcheck e v = (case v of None \<Rightarrow> gpanic e | Some x \<Rightarrow> gret x)"

lemmas go_basic = gret_def gpanic_def gstop_def gcheck_def

lemma gret_run [go_run]: "gret x s = (Ret x, s)"
  by (simp add: gret_def)

lemma gpanic_run [go_run]: "gpanic e s = (Panic e, s)"
  by (simp add: gpanic_def)

lemma gstop_run [go_run]: "gstop s = (NoFuel, s)"
  by (simp add: gstop_def)

lemma gcheck_run [go_run]:
  "gcheck e None s = (Panic e, s)"
  "gcheck e (Some x) s = (Ret x, s)"
  by (simp_all add: go_basic)

lemma gbind_Ret [go_run]: "m s = (Ret x, s') \<Longrightarrow> gbind m f s = f x s'"
  by (simp add: gbind_def)

lemma gbind_Panic [go_run]: "m s = (Panic e, s') \<Longrightarrow> gbind m f s = (Panic e, s')"
  by (simp add: gbind_def)

lemma gbind_NoFuel [go_run]: "m s = (NoFuel, s') \<Longrightarrow> gbind m f s = (NoFuel, s')"
  by (simp add: gbind_def)

lemma gbind_gret [simp]: "gbind (gret x) f = f x"
  by (rule ext) (simp add: gbind_def gret_def)

lemma gbind_RetE:
  assumes "gbind m f s = (Ret y, t)"
  obtains x s' where "m s = (Ret x, s')" "f x s' = (Ret y, t)"
  using assms by (auto simp: gbind_def split: prod.splits outcome.splits)

text \<open>A call that keeps a state property whatever its outcome.\<close>

definition keeps :: "('s \<Rightarrow> bool) \<Rightarrow> ('s, 'a) go \<Rightarrow> bool" where
  "keeps I m \<longleftrightarrow> (\<forall>s. I s \<longrightarrow> I (snd (m s)))"

lemma keepsI: "(\<And>s. I s \<Longrightarrow> I (snd (m s))) \<Longrightarrow> keeps I m"
  by (simp add: keeps_def)

lemma keepsD: "keeps I m \<Longrightarrow> I s \<Longrightarrow> m s = (r, s') \<Longrightarrow> I s'"
  by (metis keeps_def snd_conv)

lemma keeps_basic [keeps_intro]:
  "keeps I (gret x)" "keeps I (gpanic e)" "keeps I gstop" "keeps I (gcheck e v)"
  by (auto simp: keeps_def go_basic split: option.splits)

lemma keeps_gbind [keeps_intro]:
  "keeps I m \<Longrightarrow> (\<And>x. keeps I (f x)) \<Longrightarrow> keeps I (gbind m f)"
  by (auto simp: keeps_def gbind_def split: prod.splits outcome.splits)

lemma keeps_cases [keeps_intro]:
  "keeps I a \<Longrightarrow> (\<And>x. keeps I (b x)) \<Longrightarrow> keeps I (case v of None \<Rightarrow> a | Some x \<Rightarrow> b x)"
  "(\<And>x y. keeps I (f x y)) \<Longrightarrow> keeps I (case p of (x, y) \<Rightarrow> f x y)"
  "keeps I a \<Longrightarrow> (\<And>x xs. keeps I (g x xs)) \<Longrightarrow> keeps I (case l of [] \<Rightarrow> a | x # xs \<Rightarrow> g x xs)"
  "(\<And>x. keeps I (h x)) \<Longrightarrow> (\<And>x. keeps I (k x)) \<Longrightarrow> keeps I (case q of Inl x \<Rightarrow> h x | Inr x \<Rightarrow> k x)"
  "(\<And>x. keeps I (h x)) \<Longrightarrow> keeps I (let x = y in h x)"
  by (auto split: option.split prod.split list.split sum.split)

lemma keeps_if [keeps_intro]:
  "(b \<Longrightarrow> keeps I m) \<Longrightarrow> (\<not> b \<Longrightarrow> keeps I n) \<Longrightarrow> keeps I (if b then m else n)"
  by simp

text \<open>A call that can only return values with a given property.\<close>

definition gives :: "('a \<Rightarrow> bool) \<Rightarrow> ('s, 'a) go \<Rightarrow> bool" where
  "gives P m \<longleftrightarrow> (\<forall>s x s'. m s = (Ret x, s') \<longrightarrow> P x)"

lemma givesD: "gives P m \<Longrightarrow> m s = (Ret x, s') \<Longrightarrow> P x"
  by (auto simp: gives_def)

lemma gives_basic [gives_intro]:
  "P x \<Longrightarrow> gives P (gret x)" "gives P (gpanic e)" "gives P gstop"
  by (auto simp: gives_def go_basic)

lemma gives_gbind [gives_intro]: "(\<And>x. gives P (f x)) \<Longrightarrow> gives P (gbind m f)"
  by (auto simp: gives_def gbind_def split: prod.splits outcome.splits)

lemma gives_cases [gives_intro]:
  "gives P a \<Longrightarrow> (\<And>x. gives P (b x)) \<Longrightarrow> gives P (case v of None \<Rightarrow> a | Some x \<Rightarrow> b x)"
  "(\<And>x y. gives P (f x y)) \<Longrightarrow> gives P (case p of (x, y) \<Rightarrow> f x y)"
  "(\<And>x. gives P (h x)) \<Longrightarrow> (\<And>x. gives P (k x)) \<Longrightarrow> gives P (case q of Inl x \<Rightarrow> h x | Inr x \<Rightarrow> k x)"
  "gives P (h y) \<Longrightarrow> gives P (let x = y in h x)"
  "(b' \<Longrightarrow> gives P m) \<Longrightarrow> (\<not> b' \<Longrightarrow> gives P n) \<Longrightarrow> gives P (if b' then m else n)"
  by (auto split: option.split prod.split sum.split)

section \<open>Decimal numbers\<close>

definition digit :: "nat \<Rightarrow> char" where
  "digit d = char_of (48 + d)"

definition is_digit :: "char \<Rightarrow> bool" where
  "is_digit c \<longleftrightarrow> 48 \<le> (of_char c :: nat) \<and> (of_char c :: nat) \<le> 57"

definition digit_val :: "char \<Rightarrow> nat" where
  "digit_val c = of_char c - 48"

lemma of_char_digit [simp]: "d < 10 \<Longrightarrow> (of_char (digit d) :: nat) = 48 + d"
  by (simp add: digit_def)

lemma is_digit_digit [simp]: "d < 10 \<Longrightarrow> is_digit (digit d)"
  by (simp add: is_digit_def)

lemma digit_val_digit [simp]: "d < 10 \<Longrightarrow> digit_val (digit d) = d"
  by (simp add: digit_val_def)

fun itoa :: "nat \<Rightarrow> string" where
  "itoa n = (if n < 10 then [digit n] else itoa (n div 10) @ [digit (n mod 10)])"

declare itoa.simps [simp del]

lemma itoa_small: "n < 10 \<Longrightarrow> itoa n = [digit n]"
  by (simp add: itoa.simps)

lemma itoa_large: "\<not> n < 10 \<Longrightarrow> itoa n = itoa (n div 10) @ [digit (n mod 10)]"
  by (subst itoa.simps) simp

lemma itoa_nonempty [simp]: "itoa n \<noteq> []" "[] \<noteq> itoa n"
  by (cases "n < 10"; simp add: itoa_small itoa_large)+

lemma itoa_digits: "c \<in> set (itoa n) \<Longrightarrow> is_digit c"
proof (induction n rule: itoa.induct)
  case (1 n)
  then show ?case
    by (cases "n < 10") (auto simp: itoa_small itoa_large)
qed

lemma itoa_hd_digit [simp]: "is_digit (hd (itoa n))"
  by (rule itoa_digits [of _ n]) simp

text \<open>
  \<^verbatim>\<open>dtoi\<close> of Go's \<^verbatim>\<open>net\<close> package: reads a run of digits, fails on an empty run and as
  soon as the value reaches \<^verbatim>\<open>0xFFFFFF\<close>; the unread rest is returned.
\<close>

definition big :: nat where
  "big = 16777215"

fun dtoi_loop :: "nat \<Rightarrow> string \<Rightarrow> (nat \<times> string) option" where
  "dtoi_loop n [] = Some (n, [])"
| "dtoi_loop n (c # cs) =
     (if is_digit c then
        let n' = n * 10 + digit_val c in
        if big \<le> n' then None else dtoi_loop n' cs
      else Some (n, c # cs))"

fun dtoi :: "string \<Rightarrow> (nat \<times> string) option" where
  "dtoi [] = None"
| "dtoi (c # cs) = (if is_digit c then dtoi_loop 0 (c # cs) else None)"

lemma dtoi_loop_itoa:
  "a * 10 ^ length (itoa n) + n < big \<Longrightarrow>
   dtoi_loop a (itoa n @ r) = dtoi_loop (a * 10 ^ length (itoa n) + n) r"
proof (induction n arbitrary: r rule: itoa.induct)
  case (1 n)
  show ?case
  proof (cases "n < 10")
    case True
    with "1.prems" show ?thesis
      by (simp add: itoa_small Let_def)
  next
    case False
    let ?k = "length (itoa (n div 10))"
    let ?m = "a * 10 ^ ?k + n div 10"
    have whole: "?m * 10 + n mod 10 = a * 10 ^ length (itoa n) + n"
      using False by (simp add: itoa_large algebra_simps)
    from "1.prems" have bound: "?m * 10 + n mod 10 < big"
      unfolding whole .
    have "dtoi_loop a (itoa n @ r) = dtoi_loop a (itoa (n div 10) @ digit (n mod 10) # r)"
      using False by (simp add: itoa_large)
    also have "\<dots> = dtoi_loop ?m (digit (n mod 10) # r)"
      by (rule "1.IH" [OF False], rule le_less_trans [OF _ bound]) simp
    also have "\<dots> = dtoi_loop (?m * 10 + n mod 10) r"
      using bound by (simp add: Let_def)
    finally show ?thesis unfolding whole .
  qed
qed

lemma dtoi_itoa:
  assumes "n < big" and "r = [] \<or> \<not> is_digit (hd r)"
  shows "dtoi (itoa n @ r) = Some (n, r)"
proof -
  obtain c cs where cs: "itoa n = c # cs" and c: "is_digit c"
    by (metis itoa_hd_digit itoa_nonempty list.collapse)
  have "dtoi_loop 0 (itoa n @ r) = dtoi_loop n r"
    using dtoi_loop_itoa [of 0 n r] assms(1) by simp
  also have "\<dots> = Some (n, r)"
    using assms(2) by (cases r) auto
  finally show ?thesis using cs c by simp
qed

lemma itoa_inj: "itoa m = itoa n \<Longrightarrow> m = n"
proof (induction m arbitrary: n rule: itoa.induct)
  case (1 m)
  have eq: "itoa m = itoa n" by (rule "1.prems")
  show ?case
  proof (cases "m < 10")
    case True
    with eq show ?thesis
      by (cases "n < 10") (auto simp: itoa_small itoa_large append_eq_Cons_conv
          dest!: arg_cong [where f = digit_val])
  next
    case False
    then have n: "\<not> n < 10"
      using eq by (auto simp: itoa_small itoa_large Cons_eq_append_conv append_eq_Cons_conv)
    have "itoa (m div 10) = itoa (n div 10)" and "digit (m mod 10) = digit (n mod 10)"
      using eq False n by (simp_all add: itoa_large)
    then have "m div 10 = n div 10" and "m mod 10 = n mod 10"
      using "1.IH" [OF False] by (auto dest!: arg_cong [where f = digit_val])
    then show ?thesis by (metis div_mult_mod_eq)
  qed
qed

section \<open>Tables kept in key order\<close>

fun tbl_insert :: "'k::linorder \<Rightarrow> 'v \<Rightarrow> ('k \<times> 'v) list \<Rightarrow> ('k \<times> 'v) list" where
  "tbl_insert k v [] = [(k, v)]"
| "tbl_insert k v ((k', v') # t) =
     (if k < k' then (k, v) # (k', v') # t
      else if k = k' then (k, v) # t
      else (k', v') # tbl_insert k v t)"

definition tbl_delete :: "'k \<Rightarrow> ('k \<times> 'v) list \<Rightarrow> ('k \<times> 'v) list" where
  "tbl_delete k t = filter (\<lambda>p. fst p \<noteq> k) t"

abbreviation tbl_ok :: "('k::linorder \<times> 'v) list \<Rightarrow> bool" where
  "tbl_ok t \<equiv> sorted_wrt (<) (map fst t)"

lemma map_of_tbl_insert [simp]:
  "map_of (tbl_insert k v t) = (map_of t)(k \<mapsto> v)"
  by (induction k v t rule: tbl_insert.induct) (auto simp: fun_eq_iff)

lemma map_of_tbl_delete [simp]:
  "map_of (tbl_delete k t) = (map_of t)(k := None)"
  by (induction t) (auto simp: tbl_delete_def fun_eq_iff)

lemma set_keys_tbl_insert: "fst ` set (tbl_insert k v t) = insert k (fst ` set t)"
  by (induction k v t rule: tbl_insert.induct) auto

lemma set_tbl_insert: "set (tbl_insert k v t) \<subseteq> insert (k, v) (set t)"
  by (induction k v t rule: tbl_insert.induct) auto

lemma set_tbl_delete: "set (tbl_delete k t) \<subseteq> set t"
  by (auto simp: tbl_delete_def)

lemma tbl_ok_insert: "tbl_ok t \<Longrightarrow> tbl_ok (tbl_insert k v t)"
proof (induction k v t rule: tbl_insert.induct)
  case (2 k v k' v' t)
  have "\<forall>x \<in> set (map fst (tbl_insert k v t)). x = k \<or> x \<in> fst ` set t"
    using set_keys_tbl_insert [of k v t] by auto
  with 2 show ?case by fastforce
qed simp

lemma tbl_ok_delete: "tbl_ok t \<Longrightarrow> tbl_ok (tbl_delete k t)"
  unfolding tbl_delete_def by (induction t) auto

end
