(* ===== verification/GoBase64.thy ===== *)
theory GoBase64
  imports Prelude
begin

text \<open>
  The standard base64 encoding of Go's \<^verbatim>\<open>encoding/base64\<close>. Consul renders the value of a
  KV entry with it (\<^verbatim>\<open>json.Marshal\<close> of a byte slice) and the program reads it back with
  \<^verbatim>\<open>StdEncoding.DecodeString\<close>. The decoder returns the bytes of the quanta before the first
  error together with a flag that no error occurred; the round trip is proved for every
  byte string.
\<close>

definition b64_char :: "nat \<Rightarrow> char" where
  "b64_char n = (if n < 26 then char_of (65 + n)
     else if n < 52 then char_of (71 + n)
     else if n < 62 then char_of (n - 4)
     else if n = 62 then CHR ''+'' else CHR ''/'')"

definition b64_val :: "char \<Rightarrow> nat option" where
  "b64_val c = (let n = (of_char c :: nat) in
     if 65 \<le> n \<and> n \<le> 90 then Some (n - 65)
     else if 97 \<le> n \<and> n \<le> 122 then Some (n - 71)
     else if 48 \<le> n \<and> n \<le> 57 then Some (n + 4)
     else if c = CHR ''+'' then Some 62
     else if c = CHR ''/'' then Some 63
     else None)"

fun b64_encode :: "bytes \<Rightarrow> string" where
  "b64_encode [] = []"
| "b64_encode [a] =
     [b64_char (unat a div 4), b64_char (unat a mod 4 * 16), CHR ''='', CHR ''='']"
| "b64_encode [a, b] =
     [b64_char (unat a div 4), b64_char (unat a mod 4 * 16 + unat b div 16),
      b64_char (unat b mod 16 * 4), CHR ''='']"
| "b64_encode (a # b # c # r) =
     b64_char (unat a div 4) # b64_char (unat a mod 4 * 16 + unat b div 16) #
     b64_char (unat b mod 16 * 4 + unat c div 64) # b64_char (unat c mod 64) # b64_encode r"

text \<open>The bytes of one quantum, from its sextets (byte arithmetic drops the high bits).\<close>

definition quantum :: "nat \<Rightarrow> nat \<Rightarrow> nat \<Rightarrow> nat \<Rightarrow> bytes" where
  "quantum v0 v1 v2 v3 =
     [of_nat (v0 * 4 + v1 div 16), of_nat (v1 * 16 + v2 div 4), of_nat (v2 * 64 + v3)]"

fun b64_quanta :: "string \<Rightarrow> bytes \<times> bool" where
  "b64_quanta [] = ([], True)"
| "b64_quanta (c0 # c1 # c2 # c3 # r) =
     (case (b64_val c0, b64_val c1) of
        (Some v0, Some v1) \<Rightarrow>
          if c2 = CHR ''='' then
            (if c3 = CHR ''='' then (take 1 (quantum v0 v1 0 0), r = []) else ([], False))
          else (case b64_val c2 of
              None \<Rightarrow> ([], False)
            | Some v2 \<Rightarrow>
                if c3 = CHR ''='' then (take 2 (quantum v0 v1 v2 0), r = [])
                else (case b64_val c3 of
                    None \<Rightarrow> ([], False)
                  | Some v3 \<Rightarrow> (let (bs, ok) = b64_quanta r in (quantum v0 v1 v2 v3 @ bs, ok))))
      | _ \<Rightarrow> ([], False))"
| "b64_quanta _ = ([], False)"

text \<open>\<^verbatim>\<open>DecodeString\<close> skips line breaks first.\<close>

definition DecodeString :: "string \<Rightarrow> bytes \<times> bool" where
  "DecodeString s = b64_quanta (filter (\<lambda>c. c \<noteq> CHR 0x0A \<and> c \<noteq> CHR 0x0D) s)"

section \<open>Round trip\<close>

lemma b64_val_char [simp]: "n < 64 \<Longrightarrow> b64_val (b64_char n) = Some n"
  by (auto simp: b64_val_def b64_char_def Let_def)

lemma b64_char_plain [simp]:
  "n < 64 \<Longrightarrow> b64_char n \<noteq> CHR ''=''"
  "n < 64 \<Longrightarrow> b64_char n \<noteq> CHR 0x0A"
  "n < 64 \<Longrightarrow> b64_char n \<noteq> CHR 0x0D"
  using b64_val_char [of n] by (auto simp: b64_val_def)

lemma byte_sextets [simp]:
  fixes a b :: byte
  shows "unat a div 4 < 64" "unat a mod 4 * 16 < 64" "unat a mod 4 * 16 + unat b div 16 < 64"
    "unat a mod 16 * 4 < 64" "unat a mod 16 * 4 + unat b div 64 < 64"
proof -
  have "unat a < 256" "unat b < 256"
    using unsigned_less [of a] unsigned_less [of b] by simp_all
  then have "unat a div 4 < 64" "unat b div 16 < 16" "unat b div 64 < 4" "unat a mod 4 < 4" "unat a mod 16 < 16"
    by (simp_all add: less_mult_imp_div_less)
  then show "unat a div 4 < 64" "unat a mod 4 * 16 < 64" "unat a mod 4 * 16 + unat b div 16 < 64"
    "unat a mod 16 * 4 < 64" "unat a mod 16 * 4 + unat b div 64 < 64"
    by linarith+
qed

lemma byte_of_nat_mod: "x mod 256 = unat a \<Longrightarrow> of_nat x = (a :: byte)"
  by (simp add: word_unat_eq_iff unat_of_nat take_bit_eq_mod)

lemma quantum_sextets:
  "quantum (unat a div 4) (unat a mod 4 * 16 + unat b div 16)
     (unat b mod 16 * 4 + unat c div 64) (unat c mod 64) = [a, b, c]"
proof -
  have lt: "unat a < 256" "unat b < 256" "unat c < 256"
    using unsigned_less [of a] unsigned_less [of b] unsigned_less [of c] by simp_all
  have q: "unat b div 16 < 16" "unat c div 64 < 4"
    using lt by (simp_all add: less_mult_imp_div_less)
  have "unat a div 4 * 4 + (unat a mod 4 * 16 + unat b div 16) div 16 = unat a"
    using q by simp
  moreover have "(unat a mod 4 * 16 + unat b div 16) * 16 + (unat b mod 16 * 4 + unat c div 64) div 4
      = unat a mod 4 * 256 + unat b"
    using q div_mult_mod_eq [of "unat b" 16] by (simp add: algebra_simps)
  moreover have "(unat b mod 16 * 4 + unat c div 64) * 64 + unat c mod 64 = unat b mod 16 * 256 + unat c"
    using div_mult_mod_eq [of "unat c" 64] by (simp add: algebra_simps)
  ultimately show ?thesis
    using lt by (simp only: quantum_def list.inject) (auto intro!: byte_of_nat_mod simp del: of_nat_add of_nat_mult)
qed

lemma quantum_padded:
  "take 1 (quantum (unat a div 4) (unat a mod 4 * 16) 0 0) = [a]"
  "take 2 (quantum (unat a div 4) (unat a mod 4 * 16 + unat b div 16) (unat b mod 16 * 4) 0) = [a, b]"
  using quantum_sextets [of a 0 0] quantum_sextets [of a b 0] by (simp_all add: quantum_def)

lemma b64_quanta_encode: "b64_quanta (b64_encode bs) = (bs, True)"
  by (induction bs rule: b64_encode.induct)
     (simp_all add: quantum_sextets quantum_padded del: One_nat_def)

lemma b64_encode_plain: "c \<in> set (b64_encode bs) \<Longrightarrow> c \<noteq> CHR 0x0A \<and> c \<noteq> CHR 0x0D"
  by (induction bs rule: b64_encode.induct) auto

lemma DecodeString_encode [simp]: "DecodeString (b64_encode bs) = (bs, True)"
proof -
  have "filter (\<lambda>c. c \<noteq> CHR 0x0A \<and> c \<noteq> CHR 0x0D) (b64_encode bs) = b64_encode bs"
    by (rule filter_True) (use b64_encode_plain in blast)
  then show ?thesis by (simp add: DecodeString_def b64_quanta_encode)
qed

end
