(* ===== verification/ConsulKV.thy ===== *)
theory ConsulKV
  imports GoBase64 "HOL-Library.Sublist"
begin

text \<open>
  The key/value store of the embedded Consul (vendored under
  \<^verbatim>\<open>vendor/github.com/hashicorp/consul\<close>), as far as the program uses it: the state
  store operations behind GET, GET with \<^verbatim>\<open>recurse\<close>, PUT with \<^verbatim>\<open>cas\<close> and DELETE, the
  state machine that applies a committed Raft entry, and the HTTP handlers in front of it.
  Every committed entry, of whatever kind, gets the next Raft index. ACLs and sessions
  are not configured by the program and are left out; a session or lock held by
  another client does not influence these four requests.

  The locale \<open>versioned_store\<close> states what the optimistic concurrency of the program
  rests on: a version never comes back with another value, whatever other clients do
  in between. The last section interprets it on the store.
\<close>

section \<open>State store\<close>

record DirEntry =
  de_LockIndex :: nat
  de_Key :: string
  de_Flags :: nat
  de_Value :: bytes
  de_Session :: string
  de_CreateIndex :: nat
  de_ModifyIndex :: nat

text \<open>The KV table (in key order, as its radix tree iterates) and the last applied Raft index.\<close>

record consul =
  kvs :: "(string \<times> DirEntry) list"
  raft_index :: nat

definition kvsSetTxn :: "nat \<Rightarrow> DirEntry \<Rightarrow> (string \<times> DirEntry) list \<Rightarrow> (string \<times> DirEntry) list" where
  "kvsSetTxn idx entry t =
     (let existing = map_of t (de_Key entry);
          e1 = entry\<lparr>de_CreateIndex := (case existing of Some e \<Rightarrow> de_CreateIndex e | None \<Rightarrow> idx),
                     de_ModifyIndex := idx,
                     de_Session := (case existing of Some e \<Rightarrow> de_Session e | None \<Rightarrow> [])\<rparr>
      in tbl_insert (de_Key entry) e1 t)"

definition KVSSet :: "nat \<Rightarrow> DirEntry \<Rightarrow> (string \<times> DirEntry) list \<Rightarrow> (string \<times> DirEntry) list" where
  "KVSSet idx entry t = kvsSetTxn idx entry t"

definition KVSGet :: "string \<Rightarrow> (string \<times> DirEntry) list \<Rightarrow> DirEntry option" where
  "KVSGet key t = map_of t key"

definition KVSList :: "string \<Rightarrow> (string \<times> DirEntry) list \<Rightarrow> DirEntry list" where
  "KVSList pre t = map snd (filter (\<lambda>(k, _). prefix pre k) t)"

definition KVSDelete :: "string \<Rightarrow> (string \<times> DirEntry) list \<Rightarrow> (string \<times> DirEntry) list" where
  "KVSDelete key t = (case map_of t key of None \<Rightarrow> t | Some _ \<Rightarrow> tbl_delete key t)"

definition KVSSetCAS ::
  "nat \<Rightarrow> DirEntry \<Rightarrow> (string \<times> DirEntry) list \<Rightarrow> bool \<times> (string \<times> DirEntry) list" where
  "KVSSetCAS idx entry t =
     (let existing = map_of t (de_Key entry) in
      if de_ModifyIndex entry = 0 \<and> existing \<noteq> None then (False, t)
      else if de_ModifyIndex entry \<noteq> 0 \<and> existing = None then (False, t)
      else case existing of
          Some e \<Rightarrow>
            if de_ModifyIndex entry \<noteq> 0 \<and> de_ModifyIndex entry \<noteq> de_ModifyIndex e then (False, t)
            else (True, kvsSetTxn idx entry t)
        | None \<Rightarrow> (True, kvsSetTxn idx entry t))"

section \<open>Applying a committed entry\<close>

datatype kvs_op = OpSet | OpDelete | OpCAS | OpOther

record KVSRequest =
  rq_Op :: kvs_op
  rq_DirEnt :: DirEntry

text \<open>
  The value the state machine returns is a bool for a CAS and nil otherwise. \<open>OpOther\<close>
  stands for the log entries that are not KV requests: they only advance the index.
\<close>

definition applyKVSOperation :: "KVSRequest \<Rightarrow> consul \<Rightarrow> bool option \<times> consul" where
  "applyKVSOperation req c =
     (let index = Suc (raft_index c); c1 = c\<lparr>raft_index := index\<rparr> in
      case rq_Op req of
        OpSet \<Rightarrow> (None, c1\<lparr>kvs := KVSSet index (rq_DirEnt req) (kvs c)\<rparr>)
      | OpDelete \<Rightarrow> (None, c1\<lparr>kvs := KVSDelete (de_Key (rq_DirEnt req)) (kvs c)\<rparr>)
      | OpCAS \<Rightarrow> (let (act, t) = KVSSetCAS index (rq_DirEnt req) (kvs c) in (Some act, c1\<lparr>kvs := t\<rparr>))
      | OpOther \<Rightarrow> (None, c1))"

text \<open>The RPC endpoint: an empty key is refused, the reply is \<^verbatim>\<open>false\<close> unless a bool came back.\<close>

definition KVS_Apply :: "KVSRequest \<Rightarrow> consul \<Rightarrow> (string + bool) \<times> consul" where
  "KVS_Apply args c =
     (if de_Key (rq_DirEnt args) = [] then (Inl ''Must provide key'', c)
      else let (r, c') = applyKVSOperation args c
           in (Inr (case r of Some b \<Rightarrow> b | None \<Rightarrow> False), c'))"

section \<open>HTTP handlers\<close>

text \<open>
  Responses carry a status and either text or the JSON list of entries; of an entry the client
  reads \<^verbatim>\<open>Key\<close>, \<^verbatim>\<open>Flags\<close>, the base64 \<^verbatim>\<open>Value\<close> and the two indexes.
\<close>

record KVRespBody =
  kr_CreateIndex :: nat
  kr_ModifyIndex :: nat
  kr_Key :: string
  kr_Flags :: nat
  kr_Value :: string

datatype http_body = Text string | Entries "KVRespBody list"

record http_resp =
  http_status :: nat
  http_body :: http_body

datatype http_req = HGet string | HGetRecurse string | HPutCas string nat bytes | HDelete string

definition maxKVSize :: nat where
  "maxKVSize = 512 * 1024"

definition render_entry :: "DirEntry \<Rightarrow> KVRespBody" where
  "render_entry e = \<lparr>kr_CreateIndex = de_CreateIndex e, kr_ModifyIndex = de_ModifyIndex e,
     kr_Key = de_Key e, kr_Flags = de_Flags e, kr_Value = b64_encode (de_Value e)\<rparr>"

definition text_resp :: "nat \<Rightarrow> string \<Rightarrow> http_resp" where
  "text_resp code msg = \<lparr>http_status = code, http_body = Text msg\<rparr>"

definition entries_resp :: "DirEntry list \<Rightarrow> http_resp" where
  "entries_resp es = (if es = [] then text_resp 404 []
     else \<lparr>http_status = 200, http_body = Entries (map render_entry es)\<rparr>)"

definition json_bool :: "bool \<Rightarrow> string" where
  "json_bool b = (if b then ''true'' else ''false'')"

definition new_entry :: "string \<Rightarrow> nat \<Rightarrow> bytes \<Rightarrow> DirEntry" where
  "new_entry key cas v = \<lparr>de_LockIndex = 0, de_Key = key, de_Flags = 0, de_Value = v,
     de_Session = [], de_CreateIndex = 0, de_ModifyIndex = cas\<rparr>"

definition KVSGet_handler :: "string \<Rightarrow> bool \<Rightarrow> consul \<Rightarrow> http_resp" where
  "KVSGet_handler key recurse c =
     (if recurse then entries_resp (KVSList key (kvs c))
      else if key = [] then text_resp 400 ''Missing key name''
      else entries_resp (case KVSGet key (kvs c) of None \<Rightarrow> [] | Some e \<Rightarrow> [e]))"

definition KVSPut_handler :: "string \<Rightarrow> nat \<Rightarrow> bytes \<Rightarrow> consul \<Rightarrow> http_resp \<times> consul" where
  "KVSPut_handler key cas v c =
     (if key = [] then (text_resp 400 ''Missing key name'', c)
      else if maxKVSize < length v then (text_resp 413 ''Value exceeds 524288 byte limit'', c)
      else case KVS_Apply \<lparr>rq_Op = OpCAS, rq_DirEnt = new_entry key cas v\<rparr> c of
          (Inl e, c') \<Rightarrow> (text_resp 500 e, c')
        | (Inr out, c') \<Rightarrow> (text_resp 200 (json_bool out), c'))"

definition KVSDelete_handler :: "string \<Rightarrow> consul \<Rightarrow> http_resp \<times> consul" where
  "KVSDelete_handler key c =
     (if key = [] then (text_resp 400 ''Missing key name'', c)
      else case KVS_Apply \<lparr>rq_Op = OpDelete, rq_DirEnt = new_entry key 0 []\<rparr> c of
          (Inl e, c') \<Rightarrow> (text_resp 500 e, c')
        | (Inr _, c') \<Rightarrow> (text_resp 200 (json_bool True), c'))"

definition KVSEndpoint :: "http_req \<Rightarrow> consul \<Rightarrow> http_resp \<times> consul" where
  "KVSEndpoint rq c = (case rq of
      HGet key \<Rightarrow> (KVSGet_handler key False c, c)
    | HGetRecurse key \<Rightarrow> (KVSGet_handler key True c, c)
    | HPutCas key cas v \<Rightarrow> KVSPut_handler key cas v c
    | HDelete key \<Rightarrow> KVSDelete_handler key c)"

section \<open>Store invariant\<close>

definition entry_ok :: "nat \<Rightarrow> string \<times> DirEntry \<Rightarrow> bool" where
  "entry_ok n p \<longleftrightarrow> de_Key (snd p) = fst p \<and> 0 < de_CreateIndex (snd p) \<and>
     de_CreateIndex (snd p) \<le> de_ModifyIndex (snd p) \<and> de_ModifyIndex (snd p) \<le> n"

definition consul_ok :: "consul \<Rightarrow> bool" where
  "consul_ok c \<longleftrightarrow> tbl_ok (kvs c) \<and> list_all (entry_ok (raft_index c)) (kvs c)"

abbreviation entry_at :: "consul \<Rightarrow> string \<Rightarrow> DirEntry option" where
  "entry_at c key \<equiv> map_of (kvs c) key"

lemma consul_ok_entry:
  assumes "consul_ok c" and "entry_at c key = Some e"
  shows "de_Key e = key" and "0 < de_ModifyIndex e" and "de_ModifyIndex e \<le> raft_index c"
    and "0 < de_CreateIndex e" and "de_CreateIndex e \<le> de_ModifyIndex e"
  using assms map_of_SomeD [of "kvs c" key e]
  by (auto simp: consul_ok_def list_all_iff entry_ok_def)

lemma entry_ok_mono: "entry_ok n p \<Longrightarrow> n \<le> m \<Longrightarrow> entry_ok m p"
  by (simp add: entry_ok_def)

lemma kvsSetTxn_ok:
  assumes "consul_ok c"
  shows "consul_ok (c\<lparr>raft_index := Suc (raft_index c), kvs := kvsSetTxn (Suc (raft_index c)) e (kvs c)\<rparr>)"
proof -
  let ?n = "Suc (raft_index c)"
  have old: "\<forall>p \<in> set (kvs c). entry_ok ?n p"
    using assms entry_ok_mono [of "raft_index c" _ ?n] by (auto simp: consul_ok_def list_all_iff)
  have new: "0 < de_CreateIndex x \<and> de_CreateIndex x \<le> ?n" if "map_of (kvs c) (de_Key e) = Some x" for x
    using consul_ok_entry [OF assms that] by simp
  show ?thesis
    using assms old new set_tbl_insert
    by (fastforce simp: consul_ok_def kvsSetTxn_def Let_def tbl_ok_insert list_all_iff entry_ok_def
        split: option.splits)
qed

lemma index_step_ok: "consul_ok c \<Longrightarrow> consul_ok (c\<lparr>raft_index := Suc (raft_index c)\<rparr>)"
  by (auto simp: consul_ok_def list_all_iff intro: entry_ok_mono)

lemma KVSDelete_ok:
  "consul_ok c \<Longrightarrow>
   consul_ok (c\<lparr>raft_index := Suc (raft_index c), kvs := KVSDelete key (kvs c)\<rparr>)"
  using index_step_ok [of c] set_tbl_delete [of key "kvs c"]
  by (auto simp: consul_ok_def KVSDelete_def tbl_ok_delete list_all_iff split: option.splits)

lemma applyKVSOperation_ok: "consul_ok c \<Longrightarrow> consul_ok (snd (applyKVSOperation req c))"
  using kvsSetTxn_ok index_step_ok KVSDelete_ok
  by (auto simp: applyKVSOperation_def KVSSet_def KVSSetCAS_def Let_def
      split: kvs_op.splits prod.splits option.splits if_splits)

section \<open>Evolution under other clients\<close>

definition apply_all :: "KVSRequest list \<Rightarrow> consul \<Rightarrow> consul" where
  "apply_all rqs c = foldl (\<lambda>c rq. snd (applyKVSOperation rq c)) c rqs"

lemma apply_all_simps [simp]:
  "apply_all [] c = c"
  "apply_all (rq # rqs) c = apply_all rqs (snd (applyKVSOperation rq c))"
  by (simp_all add: apply_all_def)

lemma apply_all_append: "apply_all (xs @ ys) c = apply_all ys (apply_all xs c)"
  by (simp add: apply_all_def)

lemma apply_all_ok: "consul_ok c \<Longrightarrow> consul_ok (apply_all rqs c)"
  by (induction rqs arbitrary: c) (auto intro: applyKVSOperation_ok)

text \<open>Every entry a later state holds is an old one, unchanged, or carries a newer index.\<close>

definition newer_or_same :: "consul \<Rightarrow> consul \<Rightarrow> bool" where
  "newer_or_same c c' \<longleftrightarrow> raft_index c \<le> raft_index c' \<and>
     (\<forall>key e. entry_at c' key = Some e \<longrightarrow> entry_at c key = Some e \<or> raft_index c < de_ModifyIndex e)"

lemma newer_or_same_refl: "newer_or_same c c"
  by (simp add: newer_or_same_def)

lemma newer_or_same_trans:
  assumes "newer_or_same a b" and "newer_or_same b c"
  shows "newer_or_same a c"
  using assms unfolding newer_or_same_def by (meson le_less_trans order_trans)

lemma applyKVSOperation_newer: "newer_or_same c (snd (applyKVSOperation req c))"
  by (auto simp: newer_or_same_def applyKVSOperation_def KVSSet_def KVSSetCAS_def KVSDelete_def
      kvsSetTxn_def Let_def split: kvs_op.splits prod.splits option.splits if_splits)

lemma apply_all_newer: "newer_or_same c (apply_all rqs c)"
proof (induction rqs arbitrary: c)
  case (Cons rq rqs)
  then show ?case
    by (auto intro: newer_or_same_trans [OF applyKVSOperation_newer])
qed (simp add: newer_or_same_refl)

definition evolves :: "consul \<Rightarrow> consul \<Rightarrow> bool" where
  "evolves c c' \<longleftrightarrow> (\<exists>rqs. c' = apply_all rqs c)"

section \<open>The contract of a versioned store\<close>

locale versioned_store =
  fixes ok :: "'s \<Rightarrow> bool"
    and now :: "'s \<Rightarrow> nat"
    and lookup :: "'s \<Rightarrow> 'k \<Rightarrow> ('v \<times> nat) option"
    and cas :: "'k \<Rightarrow> nat \<Rightarrow> 'v \<Rightarrow> 's \<Rightarrow> bool \<times> 's"
    and evolve :: "'s \<Rightarrow> 's \<Rightarrow> bool"
  assumes version_range: "ok s \<Longrightarrow> lookup s k = Some (v, m) \<Longrightarrow> 0 < m \<and> m \<le> now s"
    and cas_decides: "ok s \<Longrightarrow>
      fst (cas k m v s) \<longleftrightarrow> (case lookup s k of None \<Rightarrow> m = 0 | Some (_, m') \<Rightarrow> m = m')"
    and cas_writes: "ok s \<Longrightarrow> cas k m v s = (True, s') \<Longrightarrow>
      \<exists>m'. now s < m' \<and> lookup s' = (lookup s)(k \<mapsto> (v, m'))"
    and cas_refuses: "ok s \<Longrightarrow> cas k m v s = (False, s') \<Longrightarrow> lookup s' = lookup s"
    and cas_evolves: "ok s \<Longrightarrow> evolve s (snd (cas k m v s))"
    and evolve_ok: "ok s \<Longrightarrow> evolve s s' \<Longrightarrow> ok s' \<and> now s \<le> now s'"
    and evolve_old: "ok s \<Longrightarrow> evolve s s' \<Longrightarrow> lookup s' k = Some (v, m) \<Longrightarrow> m \<le> now s \<Longrightarrow>
      lookup s k = Some (v, m)"
begin

definition version :: "('v \<times> nat) option \<Rightarrow> nat" where
  "version x = (case x of None \<Rightarrow> 0 | Some (_, m) \<Rightarrow> m)"

text \<open>
  A write guarded by the version read earlier replaces exactly the value that was read, in
  spite of everything that happened in between.
\<close>

lemma guarded_write:
  assumes "ok s" and "evolve s s1" and "cas k (version (lookup s k)) v s1 = (True, s2)"
  shows "lookup s1 k = lookup s k" and "\<exists>m. lookup s2 = (lookup s1)(k \<mapsto> (v, m))"
proof -
  have s1: "ok s1" using evolve_ok assms(1,2) by blast
  have d: "case lookup s1 k of None \<Rightarrow> version (lookup s k) = 0 | Some (_, m') \<Rightarrow> version (lookup s k) = m'"
    using cas_decides [OF s1, of k "version (lookup s k)" v] assms(3) by simp
  show "lookup s1 k = lookup s k"
  proof (cases "lookup s1 k")
    case None
    then have "version (lookup s k) = 0" using d by simp
    then have "lookup s k = None"
      using version_range [OF assms(1)] by (auto simp: version_def split: option.splits)
    with None show ?thesis by simp
  next
    case (Some p)
    obtain v' m where p: "p = (v', m)" by (cases p)
    with Some d have m: "version (lookup s k) = m" by simp
    have "0 < m" using version_range [OF s1] Some p by blast
    with m obtain v'' where "lookup s k = Some (v'', m)"
      by (auto simp: version_def split: option.splits)
    then have "m \<le> now s" using version_range [OF assms(1)] by blast
    then show ?thesis using evolve_old [OF assms(1,2)] Some p by simp
  qed
  show "\<exists>m. lookup s2 = (lookup s1)(k \<mapsto> (v, m))"
    using cas_writes [OF s1 assms(3)] by blast
qed

text \<open>Of two writers that read the same entry, at most one gets its write through.\<close>

lemma one_winner:
  assumes "ok s" and "lookup s k = Some (u, m)"
    and "evolve s s1" and "cas k m v s1 = (True, s2)"
    and "evolve s2 s3"
  shows "fst (cas k m w s3) = False"
proof (rule ccontr)
  assume "fst (cas k m w s3) \<noteq> False"
  have s1: "ok s1" "now s \<le> now s1" using evolve_ok assms(1,3) by blast+
  have "evolve s1 s2" using cas_evolves [OF s1(1), of k m v] assms(4) by simp
  then have s2: "ok s2" "now s1 \<le> now s2" using evolve_ok s1(1) by blast+
  have s3: "ok s3" using evolve_ok s2(1) assms(5) by blast
  have m: "0 < m" "m \<le> now s" using version_range [OF assms(1,2)] by auto
  then obtain w' where "lookup s3 k = Some (w', m)"
    using cas_decides [OF s3, of k m w] \<open>fst (cas k m w s3) \<noteq> False\<close> by (auto split: option.splits)
  then have "lookup s2 k = Some (w', m)"
    using evolve_old [OF s2(1) assms(5)] m s1(2) s2(2) by (meson order_trans)
  moreover obtain m' where "now s1 < m'" "lookup s2 k = Some (v, m')"
    using cas_writes [OF s1(1) assms(4)] by auto
  ultimately show False using m s1(2) by simp
qed

end

text \<open>Consul's store, seen through the values and indexes of its entries.\<close>

definition kv_lookup :: "consul \<Rightarrow> string \<Rightarrow> (bytes \<times> nat) option" where
  "kv_lookup c key = map_option (\<lambda>e. (de_Value e, de_ModifyIndex e)) (entry_at c key)"

definition cas_request :: "string \<Rightarrow> nat \<Rightarrow> bytes \<Rightarrow> KVSRequest" where
  "cas_request key m v = \<lparr>rq_Op = OpCAS, rq_DirEnt = new_entry key m v\<rparr>"

definition kv_cas :: "string \<Rightarrow> nat \<Rightarrow> bytes \<Rightarrow> consul \<Rightarrow> bool \<times> consul" where
  "kv_cas key m v c = (let (r, c') = applyKVSOperation (cas_request key m v) c in (r = Some True, c'))"

lemma kv_cas_run:
  "kv_cas key m v c =
     (let c1 = c\<lparr>raft_index := Suc (raft_index c)\<rparr> in
      if (case entry_at c key of None \<Rightarrow> m = 0 | Some e \<Rightarrow> m \<noteq> 0 \<and> m = de_ModifyIndex e)
      then (True, c1\<lparr>kvs := kvsSetTxn (Suc (raft_index c)) (new_entry key m v) (kvs c)\<rparr>)
      else (False, c1))"
  by (auto simp: kv_cas_def cas_request_def applyKVSOperation_def KVSSetCAS_def new_entry_def Let_def
      split: option.splits)

lemma kv_lookup_set:
  "kv_lookup (c\<lparr>kvs := kvsSetTxn n (new_entry key m v) (kvs c)\<rparr>) = (kv_lookup c)(key \<mapsto> (v, n))"
  by (auto simp: kv_lookup_def kvsSetTxn_def new_entry_def Let_def fun_eq_iff)

interpretation kv: versioned_store consul_ok raft_index kv_lookup kv_cas evolves
proof (unfold_locales, goal_cases)
  case (1 s k v m)
  then show ?case using consul_ok_entry [OF 1(1)] by (auto simp: kv_lookup_def)
next
  case (2 s k m v)
  then show ?case using consul_ok_entry [OF 2]
    by (force simp: kv_cas_run kv_lookup_def Let_def split: option.splits)
next
  case (3 s k m v s')
  then show ?case
    by (auto simp: kv_cas_run Let_def kv_lookup_def kvsSetTxn_def new_entry_def fun_eq_iff
        split: if_splits option.splits)
next
  case (4 s k m v s')
  then show ?case by (auto simp: kv_cas_run Let_def kv_lookup_def fun_eq_iff split: if_splits)
next
  case (5 s k m v)
  have "snd (kv_cas k m v s) = apply_all [cas_request k m v] s"
    by (simp add: kv_cas_def split: prod.split)
  then show ?case unfolding evolves_def by blast
next
  case (6 s s')
  then show ?case using apply_all_ok apply_all_newer by (auto simp: evolves_def newer_or_same_def)
next
  case (7 s s' k v m)
  then obtain e where "entry_at s' k = Some e" "de_Value e = v" "de_ModifyIndex e = m"
    by (auto simp: kv_lookup_def)
  with 7 apply_all_newer show ?case
    by (fastforce simp: kv_lookup_def evolves_def newer_or_same_def)
qed

section \<open>Guarantees\<close>

text \<open>
  C16. Of two guarded writes that name the same version of a key, at most one is accepted, whatever
  requests of other clients are applied before, between and after them.
\<close>

theorem kv_cas_one_winner:
  assumes "consul_ok c" and "kv_lookup c key = Some (u, m)"
    and "evolves c c1" and "kv_cas key m v c1 = (True, c2)" and "evolves c2 c3"
  shows "fst (kv_cas key m w c3) = False"
  by (rule kv.one_winner [OF assms])

definition one_entry :: consul where
  "one_entry = \<lparr>kvs = [(''k'', (new_entry ''k'' 1 [7])\<lparr>de_CreateIndex := 1\<rparr>)], raft_index = 1\<rparr>"

lemma one_entry_ok: "consul_ok one_entry" "kv_lookup one_entry ''k'' = Some ([7], 1)"
  by (simp_all add: one_entry_def consul_ok_def entry_ok_def new_entry_def kv_lookup_def)

theorem kv_cas_one_winner_witness:
  "fst (kv_cas ''k'' 1 [8] one_entry) \<and> \<not> fst (kv_cas ''k'' 1 [9] (snd (kv_cas ''k'' 1 [8] one_entry)))"
proof -
  have won: "fst (kv_cas ''k'' 1 [8] one_entry)"
    using kv.cas_decides [OF one_entry_ok(1), of "''k''" 1 "[8]"] one_entry_ok(2) by simp
  have refl: "evolves c c" for c by (auto simp: evolves_def intro: exI [of _ "[]"])
  have "kv_cas ''k'' 1 [8] one_entry = (True, snd (kv_cas ''k'' 1 [8] one_entry))"
    using won by (metis (full_types) prod.collapse)
  from kv_cas_one_winner [OF one_entry_ok refl this refl] won show ?thesis by blast
qed

end
