(* ===== verification/GoNet.thy ===== *)
theory GoNet
  imports Prelude
begin

text \<open>
  The part of Go's \<^verbatim>\<open>net\<close> and \<^verbatim>\<open>encoding/binary\<close> packages that the program calls:
  addresses as byte slices (4 bytes, 16 bytes, or nil), masks, CIDR networks, their textual
  form and its parser, and big-endian 32-bit integers. A nil slice is the empty list.
  The lemmas show the round trips \<^verbatim>\<open>ParseIP\<close>/\<^verbatim>\<open>String\<close>, \<^verbatim>\<open>ParseCIDR\<close>/\<^verbatim>\<open>String\<close>
  and \<^verbatim>\<open>Uint32\<close>/\<^verbatim>\<open>PutUint32\<close> that the address management relies on.
\<close>

unbundle bit_operations_syntax

section \<open>Addresses and masks\<close>

definition v4InV6Prefix :: bytes where
  "v4InV6Prefix = [0, 0, 0, 0, 0, 0, 0, 0, 0, 0, 255, 255]"

definition To4 :: "bytes \<Rightarrow> bytes" where
  "To4 ip = (if length ip = 4 then ip
     else if length ip = 16 \<and> take 12 ip = v4InV6Prefix then drop 12 ip
     else [])"

definition IPv4 :: "byte \<Rightarrow> byte \<Rightarrow> byte \<Rightarrow> byte \<Rightarrow> bytes" where
  "IPv4 a b c d = v4InV6Prefix @ [a, b, c, d]"

text \<open>\<^verbatim>\<open>IP.Mask\<close>: nil when the lengths do not fit.\<close>

definition ip_Mask :: "bytes \<Rightarrow> bytes \<Rightarrow> bytes" where
  "ip_Mask ip0 m0 =
     (let m = (if length m0 = 16 \<and> length ip0 = 4 \<and> list_all ((=) 255) (take 12 m0)
               then drop 12 m0 else m0);
          ip = (if length m = 4 \<and> length ip0 = 16 \<and> take 12 ip0 = v4InV6Prefix
                then drop 12 ip0 else ip0)
      in if length ip = length m then map2 (AND) ip m else [])"

fun cidr_bytes :: "nat \<Rightarrow> nat \<Rightarrow> bytes" where
  "cidr_bytes 0 n = []"
| "cidr_bytes (Suc l) n =
     (if 8 \<le> n then 255 # cidr_bytes l (n - 8)
      else NOT (drop_bit n 255) # cidr_bytes l 0)"

definition CIDRMask :: "nat \<Rightarrow> nat \<Rightarrow> bytes" where
  "CIDRMask ones bits =
     (if bits \<noteq> 32 \<and> bits \<noteq> 128 then []
      else if bits < ones then []
      else cidr_bytes (bits div 8) ones)"

fun lead_ones :: "nat \<Rightarrow> byte \<Rightarrow> nat \<times> byte" where
  "lead_ones 0 v = (0, v)"
| "lead_ones (Suc k) v =
     (if v AND 128 \<noteq> 0
      then let (n, v') = lead_ones k (push_bit 1 v) in (Suc n, v')
      else (0, v))"

fun simpleMaskLength :: "bytes \<Rightarrow> nat option" where
  "simpleMaskLength [] = Some 0"
| "simpleMaskLength (v # vs) =
     (if v = 255 then map_option ((+) 8) (simpleMaskLength vs)
      else let (n, v') = lead_ones 8 v in
        if v' \<noteq> 0 then None
        else if list_all ((=) 0) vs then Some n else None)"

definition mask_Size :: "bytes \<Rightarrow> nat \<times> nat" where
  "mask_Size m = (case simpleMaskLength m of
      None \<Rightarrow> (0, 0)
    | Some n \<Rightarrow> (n, length m * 8))"

record IPNet =
  net_IP :: bytes
  net_Mask :: bytes

definition networkNumberAndMask :: "IPNet \<Rightarrow> bytes \<times> bytes" where
  "networkNumberAndMask n =
     (let ip4 = To4 (net_IP n);
          ip = (if ip4 = [] then net_IP n else ip4);
          m = net_Mask n
      in if ip4 = [] \<and> length ip \<noteq> 16 then ([], [])
         else if length m = 4 then (if length ip \<noteq> 4 then ([], []) else (ip, m))
         else if length m = 16 then (if length ip = 4 then (ip, drop 12 m) else (ip, m))
         else ([], []))"

definition net_Contains :: "IPNet \<Rightarrow> bytes \<Rightarrow> bool" where
  "net_Contains n ip0 =
     (let (nn, m) = networkNumberAndMask n;
          ip = (if To4 ip0 \<noteq> [] then To4 ip0 else ip0)
      in length ip = length nn \<and>
         list_all (\<lambda>((a, k), b). a AND k = b AND k) (zip (zip nn m) ip))"

section \<open>Text\<close>

definition hex_digit :: "nat \<Rightarrow> char" where
  "hex_digit d = (if d < 10 then char_of (48 + d) else char_of (87 + d))"

text \<open>\<^verbatim>\<open>appendHex\<close>: lower case, no leading zeros.\<close>

fun to_hex :: "nat \<Rightarrow> string" where
  "to_hex n = (if n < 16 then [hex_digit n] else to_hex (n div 16) @ [hex_digit (n mod 16)])"

declare to_hex.simps [simp del]

definition groups16 :: "bytes \<Rightarrow> nat list" where
  "groups16 p = map (\<lambda>i. unat (p ! (2 * i)) * 256 + unat (p ! (2 * i + 1))) [0..<length p div 2]"

text \<open>The longest run of zero groups (the first one of that length), as start and length.\<close>

fun longest_zeros :: "nat \<Rightarrow> nat list \<Rightarrow> nat \<times> nat \<Rightarrow> nat \<times> nat" where
  "longest_zeros i [] best = best"
| "longest_zeros i (g # gs) best =
     (let r = length (takeWhile ((=) 0) (g # gs))
      in longest_zeros (Suc i) gs (if snd best < r then (i, r) else best))"

definition v6_groups_string :: "nat list \<Rightarrow> string" where
  "v6_groups_string gs = concat (map2 (\<lambda>i g. (if i = 0 then [] else '':'') @ to_hex g) [0..<length gs] gs)"

definition v6_string :: "bytes \<Rightarrow> string" where
  "v6_string p =
     (let gs = groups16 p; (e0, r) = longest_zeros 0 gs (0, 0)
      in if r \<le> 1 then v6_groups_string gs
         else v6_groups_string (take e0 gs) @ ''::'' @ v6_groups_string (drop (e0 + r) gs))"

definition v4_string :: "bytes \<Rightarrow> string" where
  "v4_string p = itoa (unat (p ! 0)) @ ''.'' @ itoa (unat (p ! 1)) @ ''.'' @
                 itoa (unat (p ! 2)) @ ''.'' @ itoa (unat (p ! 3))"

definition ip_String :: "bytes \<Rightarrow> string" where
  "ip_String ip =
     (if ip = [] then ''<nil>''
      else if To4 ip \<noteq> [] then v4_string (To4 ip)
      else if length ip \<noteq> 16 then ''?''
      else v6_string ip)"

definition hex2 :: "byte \<Rightarrow> string" where
  "hex2 b = [hex_digit (unat b div 16), hex_digit (unat b mod 16)]"

definition hex_EncodeToString :: "bytes \<Rightarrow> string" where
  "hex_EncodeToString bs = concat (map hex2 bs)"

definition net_String :: "IPNet \<Rightarrow> string" where
  "net_String n =
     (let (nn, m) = networkNumberAndMask n
      in if nn = [] \<or> m = [] then ''<nil>''
         else case simpleMaskLength m of
             None \<Rightarrow> ip_String nn @ ''/'' @ hex_EncodeToString m
           | Some l \<Rightarrow> ip_String nn @ ''/'' @ itoa l)"

section \<open>Parsing\<close>

fun parse_octets :: "nat \<Rightarrow> bool \<Rightarrow> string \<Rightarrow> bytes option" where
  "parse_octets 0 dot s = (if s = [] then Some [] else None)"
| "parse_octets (Suc k) dot s =
     (if s = [] then None
      else if dot \<and> hd s \<noteq> CHR ''.'' then None
      else case dtoi (if dot then tl s else s) of
          None \<Rightarrow> None
        | Some (n, r) \<Rightarrow>
            if 255 < n then None
            else map_option (\<lambda>bs. of_nat n # bs) (parse_octets k True r))"

definition parseIPv4 :: "string \<Rightarrow> bytes" where
  "parseIPv4 s = (case parse_octets 4 False s of
      Some [a, b, c, d] \<Rightarrow> IPv4 a b c d
    | _ \<Rightarrow> [])"

definition hex_val :: "char \<Rightarrow> nat option" where
  "hex_val c = (let n = (of_char c :: nat) in
     if 48 \<le> n \<and> n \<le> 57 then Some (n - 48)
     else if 97 \<le> n \<and> n \<le> 102 then Some (n - 87)
     else if 65 \<le> n \<and> n \<le> 70 then Some (n - 55)
     else None)"

fun xtoi_loop :: "nat \<Rightarrow> string \<Rightarrow> (nat \<times> string) option" where
  "xtoi_loop n [] = Some (n, [])"
| "xtoi_loop n (c # cs) = (case hex_val c of
      None \<Rightarrow> Some (n, c # cs)
    | Some d \<Rightarrow> let n' = n * 16 + d in if big \<le> n' then None else xtoi_loop n' cs)"

definition xtoi :: "string \<Rightarrow> (nat \<times> string) option" where
  "xtoi s = (if s = [] \<or> hex_val (hd s) = None then None else xtoi_loop 0 s)"

text \<open>
  The loop of \<^verbatim>\<open>parseIPv6\<close>: bytes read so far, position of the ellipsis, rest of the text.
\<close>

function (sequential) v6_loop :: "bytes \<Rightarrow> nat option \<Rightarrow> string \<Rightarrow> (bytes \<times> nat option \<times> string) option" where
  "v6_loop p e s =
     (if 16 \<le> length p then Some (p, e, s)
      else case xtoi s of
          None \<Rightarrow> None
        | Some (n, r) \<Rightarrow>
            if 65535 < n then None
            else if r \<noteq> [] \<and> hd r = CHR ''.'' then
              (if (e = None \<and> length p \<noteq> 12) \<or> 16 < length p + 4 then None
               else let ip4 = parseIPv4 s in
                 if ip4 = [] then None else Some (p @ drop 12 ip4, e, []))
            else let p' = p @ [of_nat (n div 256), of_nat n] in
              if r = [] then Some (p', e, [])
              else if hd r \<noteq> CHR '':'' \<or> tl r = [] then None
              else if hd (tl r) = CHR '':'' then
                (if e \<noteq> None then None
                 else if tl (tl r) = [] then Some (p', Some (length p'), [])
                 else v6_loop p' (Some (length p')) (tl (tl r)))
              else v6_loop p' e (tl r))"
  by pat_completeness auto
termination
  by (relation "measure (\<lambda>(p, e, s). 16 - length p)") auto

declare v6_loop.simps [simp del]

definition parseIPv6 :: "string \<Rightarrow> bytes" where
  "parseIPv6 s0 =
     (let lead = take 2 s0 = ''::'';
          e0 = (if lead then Some 0 else None);
          s = (if lead then drop 2 s0 else s0)
      in if lead \<and> s = [] then replicate 16 0
         else case v6_loop [] e0 s of
             None \<Rightarrow> []
           | Some (p, e, r) \<Rightarrow>
               if r \<noteq> [] then []
               else if length p < 16 then
                 (case e of None \<Rightarrow> []
                  | Some k \<Rightarrow> take k p @ replicate (16 - length p) 0 @ drop k p)
               else if e \<noteq> None then [] else p)"

fun ParseIP_scan :: "string \<Rightarrow> string \<Rightarrow> bytes" where
  "ParseIP_scan s [] = []"
| "ParseIP_scan s (c # cs) =
     (if c = CHR ''.'' then parseIPv4 s
      else if c = CHR '':'' then parseIPv6 s
      else ParseIP_scan s cs)"

definition ParseIP :: "string \<Rightarrow> bytes" where
  "ParseIP s = ParseIP_scan s s"

text \<open>The result carries the address and the network; \<^verbatim>\<open>None\<close> is the parse error.\<close>

definition ParseCIDR :: "string \<Rightarrow> (bytes \<times> IPNet) option" where
  "ParseCIDR s =
     (if CHR ''/'' \<notin> set s then None
      else let addr = takeWhile (\<lambda>c. c \<noteq> CHR ''/'') s;
               mask = tl (dropWhile (\<lambda>c. c \<noteq> CHR ''/'') s);
               ip4 = parseIPv4 addr;
               iplen = (if ip4 = [] then 16 else 4);
               ip = (if ip4 = [] then parseIPv6 addr else ip4)
           in case dtoi mask of
               None \<Rightarrow> None
             | Some (n, r) \<Rightarrow>
                 if ip = [] \<or> r \<noteq> [] \<or> 8 * iplen < n then None
                 else let m = CIDRMask n (8 * iplen)
                      in Some (ip, \<lparr>net_IP = ip_Mask ip m, net_Mask = m\<rparr>))"

section \<open>Big-endian 32-bit integers\<close>

definition Uint32 :: "byte \<Rightarrow> byte \<Rightarrow> byte \<Rightarrow> byte \<Rightarrow> 32 word" where
  "Uint32 a b c d = ucast d OR push_bit 8 (ucast c) OR push_bit 16 (ucast b) OR push_bit 24 (ucast a)"

definition PutUint32 :: "32 word \<Rightarrow> bytes" where
  "PutUint32 v = [ucast (drop_bit 24 v), ucast (drop_bit 16 v), ucast (drop_bit 8 v), ucast v]"

text \<open>\<^verbatim>\<open>binary.Read\<close> into a \<^verbatim>\<open>uint32\<close>: fewer than four bytes are an error.\<close>

fun binary_Read32 :: "bytes \<Rightarrow> 32 word option" where
  "binary_Read32 (a # b # c # d # _) = Some (Uint32 a b c d)"
| "binary_Read32 _ = None"

section \<open>Lengths\<close>

lemma length_cidr_bytes [simp]: "length (cidr_bytes l n) = l"
  by (induction l n rule: cidr_bytes.induct) auto

lemma length_CIDRMask_32: "n \<le> 32 \<Longrightarrow> length (CIDRMask n 32) = 4"
  by (simp add: CIDRMask_def)

lemma To4_length: "To4 ip = [] \<or> length (To4 ip) = 4"
  by (auto simp: To4_def)

lemma To4_4 [simp]: "length ip = 4 \<Longrightarrow> To4 ip = ip"
  by (simp add: To4_def)

lemma To4_IPv4 [simp]: "To4 (IPv4 a b c d) = [a, b, c, d]"
  by (simp add: To4_def IPv4_def v4InV6Prefix_def)

lemma IPv4_not_nil [simp]: "IPv4 a b c d \<noteq> []"
  by (simp add: IPv4_def)

lemma length_4E:
  assumes "length ip = 4"
  obtains a b c d where "ip = [a, b, c, d]"
  using assms by (auto simp: numeral_eq_Suc length_Suc_conv)

section \<open>Masks\<close>

lemma byte_prefix_cases:
  assumes "n < (8 :: nat)"
  obtains "n = 0" | "n = 1" | "n = 2" | "n = 3" | "n = 4" | "n = 5" | "n = 6" | "n = 7"
  using assms by linarith

lemma lead_ones_pos:
  "0 < k \<Longrightarrow> lead_ones k v =
     (if v AND 128 \<noteq> 0 then let (n, v') = lead_ones (k - 1) (push_bit 1 v) in (Suc n, v')
      else (0, v))"
  by (cases k) auto

lemma lead_ones_prefix:
  assumes "n < 8"
  shows "lead_ones 8 (NOT (drop_bit n 255)) = (n, 0)"
  using assms by (rule byte_prefix_cases) (simp_all add: lead_ones_pos)

lemma prefix_byte_not_255:
  assumes "n < 8"
  shows "NOT (drop_bit n 255) \<noteq> (255 :: byte)"
  using assms by (rule byte_prefix_cases) simp_all

lemma cidr_bytes_0: "cidr_bytes l 0 = replicate l 0"
  by (induction l) auto

lemma simpleMaskLength_cidr_bytes:
  "n \<le> 8 * l \<Longrightarrow> simpleMaskLength (cidr_bytes l n) = Some n"
proof (induction l n rule: cidr_bytes.induct)
  case (2 l n)
  show ?case
  proof (cases "8 \<le> n")
    case True
    with 2 show ?thesis by simp
  next
    case False
    then show ?thesis
      by (simp add: lead_ones_prefix prefix_byte_not_255 cidr_bytes_0 list_all_length)
  qed
qed simp

lemma mask_Size_CIDRMask_32: "n \<le> 32 \<Longrightarrow> mask_Size (CIDRMask n 32) = (n, 32)"
  by (simp add: mask_Size_def CIDRMask_def simpleMaskLength_cidr_bytes)

section \<open>Round trips of text\<close>

lemma slash_dot_not_digit [simp]:
  "\<not> is_digit CHR ''.''" "\<not> is_digit CHR ''/''" "\<not> is_digit CHR '':''" "\<not> is_digit CHR ''-''"
  by (simp_all add: is_digit_def)

lemma itoa_not_char: "\<not> is_digit c \<Longrightarrow> c \<notin> set (itoa n)"
  using itoa_digits by blast

lemma unat_byte_less [simp]: "unat (b :: byte) < 256" "\<not> 255 < unat (b :: byte)" "unat (b :: byte) < big"
proof -
  have *: "unat b < 256"
    using unsigned_less [of b] by simp
  then show "unat b < 256" "\<not> 255 < unat b" "unat b < big"
    by (simp_all add: big_def)
qed

lemma dtoi_itoa_byte:
  fixes b :: byte
  shows "r = [] \<or> \<not> is_digit (hd r) \<Longrightarrow> dtoi (itoa (unat b) @ r) = Some (unat b, r)"
  by (rule dtoi_itoa) simp_all

lemma parse_octets_Suc_itoa:
  fixes b :: byte
  assumes "r = [] \<or> \<not> is_digit (hd r)"
  shows "parse_octets (Suc k) True (CHR ''.'' # itoa (unat b) @ r) =
           map_option (\<lambda>bs. b # bs) (parse_octets k True r)"
    and "parse_octets (Suc k) False (itoa (unat b) @ r) =
           map_option (\<lambda>bs. b # bs) (parse_octets k True r)"
  using assms by (simp_all add: dtoi_itoa_byte)

lemma parseIPv4_v4_string: "parseIPv4 (v4_string [a, b, c, d]) = IPv4 a b c d"
proof -
  have "parse_octets (Suc (Suc (Suc (Suc 0)))) False (v4_string [a, b, c, d]) = Some [a, b, c, d]"
    using parse_octets_Suc_itoa(1) [of "[]" 0 d]
    by (simp add: v4_string_def parse_octets_Suc_itoa del: parse_octets.simps(2))
  then show ?thesis by (simp add: parseIPv4_def numeral_eq_Suc del: parse_octets.simps)
qed

lemma ParseIP_scan_v4:
  "CHR ''.'' \<in> set t \<Longrightarrow> CHR '':'' \<notin> set t \<Longrightarrow> ParseIP_scan s t = parseIPv4 s"
  by (induction s t rule: ParseIP_scan.induct) auto

lemma v4_string_chars:
  "CHR ''.'' \<in> set (v4_string ip)" "CHR '':'' \<notin> set (v4_string ip)" "CHR ''/'' \<notin> set (v4_string ip)"
  by (auto simp: v4_string_def itoa_not_char)

lemma ParseIP_v4_string: "ParseIP (v4_string [a, b, c, d]) = IPv4 a b c d"
  by (simp add: ParseIP_def ParseIP_scan_v4 v4_string_chars parseIPv4_v4_string)

lemma ParseIP_ip_String:
  assumes "To4 ip = [a, b, c, d]"
  shows "ParseIP (ip_String ip) = IPv4 a b c d"
proof -
  from assms have "ip \<noteq> []" by (auto simp: To4_def)
  with assms show ?thesis by (simp add: ip_String_def ParseIP_v4_string)
qed

lemma ParseCIDR_v4:
  assumes "n \<le> 32"
  shows "ParseCIDR (v4_string [a, b, c, d] @ ''/'' @ itoa n) =
    Some (IPv4 a b c d, \<lparr>net_IP = ip_Mask [a, b, c, d] (CIDRMask n 32), net_Mask = CIDRMask n 32\<rparr>)"
proof -
  let ?ip = "v4_string [a, b, c, d]" and ?s = "v4_string [a, b, c, d] @ ''/'' @ itoa n"
  have addr: "takeWhile (\<lambda>c. c \<noteq> CHR ''/'') ?s = ?ip" "dropWhile (\<lambda>c. c \<noteq> CHR ''/'') ?s = ''/'' @ itoa n"
    using v4_string_chars(3) [of "[a, b, c, d]"] by (auto simp: takeWhile_append dropWhile_append)
  have n: "dtoi (itoa n) = Some (n, [])"
    using dtoi_itoa [of n "[]"] assms by (simp add: big_def)
  have m: "ip_Mask (IPv4 a b c d) (CIDRMask n 32) = ip_Mask [a, b, c, d] (CIDRMask n 32)"
    using length_CIDRMask_32 [OF assms] by (simp add: ip_Mask_def IPv4_def v4InV6Prefix_def)
  show ?thesis
    using assms unfolding ParseCIDR_def Let_def addr
    by (simp add: parseIPv4_v4_string n m)
qed

lemma net_String_v4:
  assumes "n \<le> 32" and "length ip = 4"
  shows "net_String \<lparr>net_IP = ip, net_Mask = CIDRMask n 32\<rparr> = v4_string ip @ ''/'' @ itoa n"
proof -
  from assms(2) have "ip \<noteq> []" by auto
  moreover have "simpleMaskLength (CIDRMask n 32) = Some n"
    using assms(1) by (simp add: CIDRMask_def simpleMaskLength_cidr_bytes)
  moreover have "CIDRMask n 32 \<noteq> []"
    using length_CIDRMask_32 [OF assms(1)] by auto
  ultimately show ?thesis using assms length_CIDRMask_32 [OF assms(1)]
    by (simp add: net_String_def networkNumberAndMask_def ip_String_def)
qed

section \<open>Integers\<close>

lemma PutUint32_Uint32 [simp]: "PutUint32 (Uint32 a b c d) = [a, b, c, d]"
  unfolding PutUint32_def Uint32_def list.inject
  by (intro conjI refl bit_word_eqI; auto simp: bit_simps dest: bit_imp_le_length)

lemma binary_Read32_PutUint32 [simp]: "binary_Read32 (PutUint32 v) = Some v"
proof -
  have "Uint32 (ucast (drop_bit 24 v)) (ucast (drop_bit 16 v)) (ucast (drop_bit 8 v)) (ucast v) = v"
    unfolding Uint32_def
  proof (rule bit_word_eqI)
    fix n assume "n < LENGTH(32)"
    then consider "n < 8" | "8 \<le> n \<and> n < 16" | "16 \<le> n \<and> n < 24" | "24 \<le> n \<and> n < 32"
      by force
    then show "bit (ucast (ucast v :: byte) OR push_bit 8 (ucast (ucast (drop_bit 8 v) :: byte))
        OR push_bit 16 (ucast (ucast (drop_bit 16 v) :: byte))
        OR push_bit 24 (ucast (ucast (drop_bit 24 v) :: byte)) :: 32 word) n = bit v n"
      by cases (auto simp: bit_simps)
  qed
  then show ?thesis by (simp add: PutUint32_def)
qed

lemma length_PutUint32 [simp]: "length (PutUint32 v) = 4"
  by (simp add: PutUint32_def)

end
