(* ===== verification/Bitmap.thy ===== *)
theory Bitmap
  imports GoNet
begin

text \<open>
  The bit-vector helpers of \<^verbatim>\<open>util/util.go\<close> (\<^verbatim>\<open>Set\<close>, \<^verbatim>\<open>Clear\<close>, \<^verbatim>\<open>test\<close>,
  \<^verbatim>\<open>TestAndSet\<close>), on which both the VNI and the IP allocation rest. An index beyond
  the slice is Go's index panic and is the value \<^term>\<open>None\<close> here; indices keep their Go
  widths (\<^verbatim>\<open>uint32\<close> for \<^verbatim>\<open>Set\<close> and \<^verbatim>\<open>test\<close>, the 64-bit \<^verbatim>\<open>uint\<close> for \<^verbatim>\<open>Clear\<close>).
  The lemmas relate the byte operations to the set of used slots, and the locale
  \<open>slot_alloc\<close> states what the allocators built on top rely on.
\<close>

section \<open>Definitions\<close>

definition Set :: "bytes \<Rightarrow> 32 word \<Rightarrow> bytes option" where
  "Set a k = (let i = unat (k div 8) in
     if i < length a then Some (a[i := a ! i OR push_bit (unat (k mod 8)) 1]) else None)"

definition Clear :: "bytes \<Rightarrow> 64 word \<Rightarrow> bytes option" where
  "Clear a k = (let i = unat (k div 8) in
     if i < length a then Some (a[i := a ! i AND NOT (push_bit (unat (k mod 8)) 1)]) else None)"

definition test :: "bytes \<Rightarrow> 32 word \<Rightarrow> bool option" where
  "test a k = (let i = unat (k div 8) in
     if i < length a then Some (a ! i AND push_bit (unat (k mod 8)) 1 \<noteq> 0) else None)"

text \<open>The loop of \<^verbatim>\<open>TestAndSet\<close>, from index \<^verbatim>\<open>i\<close> on.\<close>

function TestAndSet_from :: "bytes \<Rightarrow> 32 word \<Rightarrow> (32 word \<times> bytes) option" where
  "TestAndSet_from a i =
     (if i < of_nat (length a * 8) then
        (case test a i of
           None \<Rightarrow> None
         | Some True \<Rightarrow> TestAndSet_from a (i + 1)
         | Some False \<Rightarrow> map_option (\<lambda>a'. (i + 1, a')) (Set a i))
      else Some (i + 1, a))"
  by pat_completeness auto
termination
  by (relation "measure (\<lambda>(a, i). unat (of_nat (length a * 8) :: 32 word) - unat i)")
     (auto simp: word_less_nat_alt, unat_arith)

declare TestAndSet_from.simps [simp del]

definition TestAndSet :: "bytes \<Rightarrow> (32 word \<times> bytes) option" where
  "TestAndSet a = TestAndSet_from a 0"

section \<open>The set of used slots\<close>

definition used :: "bytes \<Rightarrow> nat set" where
  "used a = {k. k < 8 * length a \<and> bit (a ! (k div 8)) (k mod 8)}"

lemma used_bound: "used a \<subseteq> {..<8 * length a}"
  by (auto simp: used_def)

lemma finite_used [simp]: "finite (used a)"
  by (rule finite_subset [OF used_bound]) simp

lemma used_replicate_0 [simp]: "used (replicate n 0) = {}"
  by (auto simp: used_def)

lemma test_used:
  "unat k < 8 * length a \<Longrightarrow> test a k = Some (unat k \<in> used a)"
  by (auto simp: test_def used_def Let_def unat_div unat_mod bit_iff_and_push_bit_not_eq_0)

lemma used_list_update:
  assumes "i < length a"
  shows "used (a[i := v]) = {k. k < 8 * length a \<and> (if k div 8 = i then bit v (k mod 8) else k \<in> used a)}"
  using assms by (auto simp: used_def nth_list_update split: if_splits)

lemma slot_neq: "(k :: nat) \<noteq> m \<Longrightarrow> k div 8 = m div 8 \<Longrightarrow> k mod 8 \<noteq> m mod 8"
  by (metis div_mult_mod_eq)

lemma bit_byte_one: "bit ((2 :: byte) ^ j) i \<longleftrightarrow> i = j \<and> j < 8"
  by (auto simp: bit_simps)

lemma Set_used:
  assumes "unat k < 8 * length a"
  shows "\<exists>a'. Set a k = Some a' \<and> length a' = length a \<and> used a' = insert (unat k) (used a)"
proof -
  let ?i = "unat k div 8" and ?j = "unat k mod 8"
  let ?a = "a[?i := a ! ?i OR push_bit ?j 1]"
  have i: "?i < length a" using assms by auto
  have "used ?a = insert (unat k) (used a)"
    unfolding used_list_update [OF i]
    using assms
    by (auto simp: used_def bit_or_iff bit_byte_one dest: slot_neq split: if_splits)
  with i show ?thesis
    by (simp add: Set_def Let_def unat_div unat_mod)
qed

lemma Clear_used:
  assumes "unat k < 8 * length a"
  shows "\<exists>a'. Clear a k = Some a' \<and> length a' = length a \<and> used a' = used a - {unat k}"
proof -
  let ?i = "unat k div 8" and ?j = "unat k mod 8"
  let ?a = "a[?i := a ! ?i AND NOT (push_bit ?j 1)]"
  have i: "?i < length a" using assms by auto
  have "used ?a = used a - {unat k}"
    unfolding used_list_update [OF i]
    using assms
    by (auto simp: used_def bit_and_iff bit_not_iff bit_byte_one dest: slot_neq split: if_splits)
  with i show ?thesis
    by (simp add: Clear_def Let_def unat_div unat_mod)
qed

lemma Set_out_of_range: "8 * length a \<le> unat k \<Longrightarrow> Set a k = None"
  by (auto simp: Set_def Let_def unat_div)

lemma Clear_out_of_range: "8 * length a \<le> unat k \<Longrightarrow> Clear a k = None"
  by (auto simp: Clear_def Let_def unat_div)

lemma used_eqI:
  assumes "length a = length b" and "used a = used b"
  shows "a = b"
proof (rule nth_equalityI)
  show "length a = length b" by fact
  fix i assume i: "i < length a"
  show "a ! i = b ! i"
  proof (rule bit_word_eqI)
    fix n assume "n < LENGTH(8)"
    then have n: "n < 8" by simp
    have "(8 * i + n \<in> used a) = (8 * i + n \<in> used b)" using assms(2) by simp
    then show "bit (a ! i) n = bit (b ! i) n"
      using i n assms(1) by (simp add: used_def)
  qed
qed

section \<open>TestAndSet takes the least free slot\<close>

lemma of_nat_32_bound: "n < 2 ^ 32 \<Longrightarrow> unat (of_nat n :: 32 word) = n"
  by (simp add: unat_of_nat take_bit_eq_mod)

lemma TestAndSet_from_spec:
  assumes "8 * length a < 2 ^ 32" and "unat i \<le> 8 * length a" and "\<forall>k < unat i. k \<in> used a"
  shows "if used a = {..<8 * length a}
    then TestAndSet_from a i = Some (of_nat (8 * length a) + 1, a)
    else \<exists>k a'. k < 8 * length a \<and> k \<notin> used a \<and> (\<forall>j < k. j \<in> used a) \<and>
      TestAndSet_from a i = Some (of_nat k + 1, a') \<and> length a' = length a \<and>
      used a' = insert k (used a)"
  using assms
proof (induction a i rule: TestAndSet_from.induct)
  case (1 a i)
  have n: "unat (of_nat (length a * 8) :: 32 word) = 8 * length a"
    using "1.prems"(1) by (subst of_nat_32_bound) auto
  show ?case
  proof (cases "i < of_nat (length a * 8)")
    case False
    then have "unat i = 8 * length a"
      using "1.prems"(2) n by (simp add: word_less_nat_alt)
    then have full: "used a = {..<8 * length a}" and i: "i = of_nat (8 * length a)"
      using "1.prems"(3) used_bound [of a] n
      by (auto simp: word_unat_eq_iff mult.commute)
    from False have "TestAndSet_from a i = Some (i + 1, a)"
      by (simp add: TestAndSet_from.simps [of a i])
    with full i show ?thesis by simp
  next
    case True
    then have lt: "unat i < 8 * length a"
      using n by (simp add: word_less_nat_alt)
    show ?thesis
    proof (cases "unat i \<in> used a")
      case used: True
      have succ: "unat (i + 1) = unat i + 1"
        using lt "1.prems"(1) by (simp add: unat_word_ariths)
      have below: "\<forall>k < unat (i + 1). k \<in> used a"
        using "1.prems"(3) used succ by (auto simp: less_Suc_eq)
      have tst: "test a i = Some True"
        using used by (simp add: test_used [OF lt])
      have step: "TestAndSet_from a i = TestAndSet_from a (i + 1)"
        using True tst by (simp add: TestAndSet_from.simps [of a i])
      show ?thesis
        unfolding step
        by (rule "1.IH" [OF True tst refl "1.prems"(1) _ below]) (use lt succ in simp)
    next
      case free: False
      obtain a' where a': "Set a i = Some a'" "length a' = length a" "used a' = insert (unat i) (used a)"
        using Set_used [OF lt] by blast
      have "TestAndSet_from a i = Some (of_nat (unat i) + 1, a')"
        using True free a'(1) by (simp add: TestAndSet_from.simps [of a i] test_used [OF lt])
      moreover have "used a \<noteq> {..<8 * length a}" using free lt by auto
      ultimately show ?thesis
        using lt free a' "1.prems"(3) by auto
    qed
  qed
qed

lemma TestAndSet_free:
  assumes "8 * length a < 2 ^ 32" and "used a \<noteq> {..<8 * length a}"
  obtains k a' where "k < 8 * length a" "k \<notin> used a" "\<forall>j < k. j \<in> used a"
    "TestAndSet a = Some (of_nat (k + 1), a')" "length a' = length a" "used a' = insert k (used a)"
  using TestAndSet_from_spec [of a 0] assms by (auto simp: TestAndSet_def add.commute)

lemma TestAndSet_full:
  assumes "8 * length a < 2 ^ 32" and "used a = {..<8 * length a}"
  shows "TestAndSet a = Some (of_nat (8 * length a + 1), a)"
  using TestAndSet_from_spec [of a 0] assms by (simp add: TestAndSet_def add.commute)

lemma TestAndSet_total:
  assumes "8 * length a < 2 ^ 32"
  obtains p a' where "TestAndSet a = Some (p, a')" "length a' = length a" "used a \<subseteq> used a'"
proof (cases "used a = {..<8 * length a}")
  case True
  then show ?thesis using that TestAndSet_full [OF assms] by blast
next
  case False
  then show ?thesis using that by (rule TestAndSet_free [OF assms]) blast+
qed

section \<open>What the allocators rely on\<close>

text \<open>
  The contract of a slot pool: a capacity, the set of used slots, an operation that takes
  the least free slot and reports it, one that gives a slot back.
\<close>

locale slot_alloc =
  fixes ok :: "'b \<Rightarrow> bool"
    and cap :: "'b \<Rightarrow> nat"
    and taken :: "'b \<Rightarrow> nat set"
    and acquire :: "'b \<Rightarrow> (nat \<times> 'b) option"
    and free :: "'b \<Rightarrow> nat \<Rightarrow> 'b option"
  assumes taken_bound: "ok b \<Longrightarrow> taken b \<subseteq> {..<cap b}"
    and acquire_least: "ok b \<Longrightarrow> taken b \<noteq> {..<cap b} \<Longrightarrow>
      \<exists>k b'. acquire b = Some (k, b') \<and> k < cap b \<and> k \<notin> taken b \<and> (\<forall>j < k. j \<in> taken b) \<and>
        ok b' \<and> cap b' = cap b \<and> taken b' = insert k (taken b)"
    and acquire_full: "ok b \<Longrightarrow> taken b = {..<cap b} \<Longrightarrow> acquire b = Some (cap b, b)"
    and free_slot: "ok b \<Longrightarrow> k < cap b \<Longrightarrow>
      \<exists>b'. free b k = Some b' \<and> ok b' \<and> cap b' = cap b \<and> taken b' = taken b - {k}"
begin

text \<open>Taking several slots in a row; \<^term>\<open>None\<close> only if an operation fails.\<close>

fun acquire_n :: "nat \<Rightarrow> 'b \<Rightarrow> (nat list \<times> 'b) option" where
  "acquire_n 0 b = Some ([], b)"
| "acquire_n (Suc n) b = (case acquire b of
      None \<Rightarrow> None
    | Some (k, b') \<Rightarrow> map_option (\<lambda>(ks, b''). (k # ks, b'')) (acquire_n n b'))"

lemma finite_taken: "ok b \<Longrightarrow> finite (taken b)"
  using finite_subset taken_bound by blast

lemma acquire_n_distinct:
  assumes "ok b" and "n + card (taken b) \<le> cap b"
  shows "\<exists>ks b'. acquire_n n b = Some (ks, b') \<and> length ks = n \<and> distinct ks \<and>
    set ks \<inter> taken b = {} \<and> ok b' \<and> cap b' = cap b \<and> taken b' = set ks \<union> taken b"
  using assms
proof (induction n arbitrary: b)
  case 0
  then show ?case by simp
next
  case (Suc n)
  have "card (taken b) \<noteq> card {..<cap b}" using Suc.prems(2) by simp
  then have "taken b \<noteq> {..<cap b}" by metis
  then obtain k b' where k: "acquire b = Some (k, b')" "k \<notin> taken b" "ok b'" "cap b' = cap b"
      "taken b' = insert k (taken b)"
    using acquire_least [OF Suc.prems(1)] by blast
  have "n + card (taken b') \<le> cap b'"
    using Suc.prems k finite_taken [OF Suc.prems(1)] by simp
  from Suc.IH [OF k(3) this] obtain ks b'' where
    "acquire_n n b' = Some (ks, b'')" "length ks = n" "distinct ks" "set ks \<inter> taken b' = {}"
    "ok b''" "cap b'' = cap b'" "taken b'' = set ks \<union> taken b'"
    by blast
  with k show ?case by auto
qed

lemma acquire_then_free:
  assumes "ok b" and "taken b \<noteq> {..<cap b}" and "acquire b = Some (k, b')"
  shows "\<exists>b''. free b' k = Some b'' \<and> ok b'' \<and> cap b'' = cap b \<and> taken b'' = taken b"
  using acquire_least [OF assms(1,2)] assms(3) free_slot [of b' k] by force

lemma free_then_acquire:
  assumes "ok b" and "k < cap b" and "free b k = Some b'"
  shows "\<exists>j b''. acquire b' = Some (j, b'') \<and> j \<le> k \<and> j \<notin> taken b - {k}"
proof -
  have b': "ok b'" "cap b' = cap b" "taken b' = taken b - {k}"
    using free_slot [OF assms(1,2)] assms(3) by auto
  then have "taken b' \<noteq> {..<cap b'}" using assms(2) by auto
  then show ?thesis using acquire_least [OF b'(1)] b' by (metis Diff_iff insertCI not_less)
qed

end

text \<open>The byte vectors provide it, as long as the slot numbers fit 32 bits.\<close>

definition TestAndSet_slot :: "bytes \<Rightarrow> (nat \<times> bytes) option" where
  "TestAndSet_slot a = map_option (\<lambda>(p, a'). (unat p - 1, a')) (TestAndSet a)"

interpretation bm: slot_alloc "\<lambda>a. 8 * length a < 2 ^ 32 - 1" "\<lambda>a. 8 * length a" used
  TestAndSet_slot "\<lambda>a k. Clear a (of_nat k)"
proof (unfold_locales, goal_cases)
  case (1 b)
  show ?case by (rule used_bound)
next
  case (2 b)
  then obtain k a' where "k < 8 * length b" "k \<notin> used b" "\<forall>j<k. j \<in> used b"
    "TestAndSet b = Some (of_nat (k + 1), a')" "length a' = length b" "used a' = insert k (used b)"
    using TestAndSet_free [of b] by auto
  with 2 show ?case
    by (auto simp: TestAndSet_slot_def of_nat_32_bound simp del: of_nat_Suc of_nat_add)
next
  case (3 b)
  then show ?case
    using TestAndSet_full [of b]
    by (simp add: TestAndSet_slot_def of_nat_32_bound del: of_nat_Suc of_nat_add)
next
  case (4 b k)
  then have "unat (of_nat k :: 64 word) = k"
    by (simp add: unat_of_nat take_bit_eq_mod)
  with 4 Clear_used [of "of_nat k" b] show ?case by auto
qed

section \<open>Guarantees\<close>

text \<open>
  C14. \<^verbatim>\<open>TestAndSet\<close> never leaves the vector. On a vector with a free slot it takes the least one and
  returns its number counted from one; on a full one it returns one more than the number of
  slots and changes nothing.
\<close>

theorem TestAndSet_least_free:
  assumes "8 * length a < 2 ^ 32"
  shows "if used a = {..<8 * length a} then TestAndSet a = Some (of_nat (8 * length a + 1), a)
    else \<exists>a'. TestAndSet a = Some (of_nat ((LEAST k. k \<notin> used a) + 1), a') \<and> length a' = length a \<and>
      used a' = insert (LEAST k. k \<notin> used a) (used a)"
proof (cases "used a = {..<8 * length a}")
  case True
  then show ?thesis using TestAndSet_full [OF assms] by simp
next
  case False
  then obtain k a' where k: "k \<notin> used a" "\<forall>j<k. j \<in> used a"
      "TestAndSet a = Some (of_nat (k + 1), a')" "length a' = length a" "used a' = insert k (used a)"
    by (rule TestAndSet_free [OF assms])
  have "(LEAST k. k \<notin> used a) = k"
    using k(1,2) by (intro Least_equality) (auto simp: not_less [symmetric])
  with k False show ?thesis by simp
qed

theorem TestAndSet_least_free_witness:
  "\<exists>a'. TestAndSet [255, 1] = Some (of_nat ((LEAST k. k \<notin> used [255, 1]) + 1), a') \<and>
     used a' = insert (LEAST k. k \<notin> used [255, 1]) (used [255, 1])"
proof -
  have "9 \<notin> used [255, 1]" by (simp add: used_def)
  then have "used [255, 1] \<noteq> {..<8 * length [255, 1 :: byte]}" by force
  moreover have "8 * length [255, 1 :: byte] < 2 ^ 32" by simp
  ultimately show ?thesis using TestAndSet_least_free [of "[255, 1]"] by (metis (no_types, lifting))
qed

lemma unat_ucast_64 [simp]: "unat (ucast (x :: 32 word) :: 64 word) = unat x"
proof -
  have "unat x < 2 ^ 32" using unsigned_less [of x] by simp
  then have "unat x < 2 ^ 64" by (rule order_less_trans) simp
  then show ?thesis by (simp add: unsigned_ucast_eq take_bit_nat_eq_self unsigned_take_bit_eq)
qed

text \<open>
  Clearing a slot and setting it again, or setting a free one and clearing it, gives back the
  same bytes.
\<close>

theorem Set_Clear_inverse:
  assumes "unat k < 8 * length a"
  shows "\<exists>b. (if unat k \<in> used a then Clear a (ucast k) = Some b \<and> Set b k = Some a
    else Set a k = Some b \<and> Clear b (ucast k) = Some a)"
proof -
  note k = unat_ucast_64 [of k]
  show ?thesis
  proof (cases "unat k \<in> used a")
    case True
    obtain b where b: "Clear a (ucast k) = Some b" "length b = length a" "used b = used a - {unat k}"
      using Clear_used [of "ucast k" a] k assms by auto
    obtain c where "Set b k = Some c" "length c = length b" "used c = insert (unat k) (used b)"
      using Set_used [of k b] b assms by auto
    then have "Set b k = Some a" using used_eqI [of c a] b True by auto
    with True b(1) show ?thesis by auto
  next
    case False
    obtain b where b: "Set a k = Some b" "length b = length a" "used b = insert (unat k) (used a)"
      using Set_used [OF assms] by auto
    obtain c where "Clear b (ucast k) = Some c" "length c = length b" "used c = used b - {unat k}"
      using Clear_used [of "ucast k" b] k b assms by auto
    then have "Clear b (ucast k) = Some a" using used_eqI [of c a] b False by auto
    with False b(1) show ?thesis by auto
  qed
qed

theorem Set_Clear_inverse_witness:
  "\<exists>b. (if unat (3 :: 32 word) \<in> used [0] then Clear [0] (ucast (3 :: 32 word)) = Some b \<and> Set b 3 = Some [0]
    else Set [0] 3 = Some b \<and> Clear b (ucast (3 :: 32 word)) = Some [0])"
  using Set_Clear_inverse [of 3 "[0]"] by simp

end
