(* ===== verification/NetUtil.thy ===== *)
theory NetUtil
  imports Complex_Main Bitmap
begin

text \<open>
  The network helpers of \<^verbatim>\<open>util/util.go\<close>: address ranges and overlap of IPv4 networks,
  the number of addresses of a subnet, and the wrappers around the \<^verbatim>\<open>netlink\<close> package.
  The kernel behind \<^verbatim>\<open>netlink\<close> is not part of the program: its calls are the fields of the
  record \<open>netlink\<close>, an argument of every definition that uses them, over an arbitrary
  kernel state \<open>'o\<close>.
\<close>

type_synonym error = "string option"

section \<open>Ranges and overlap\<close>

definition ErrNetworkOverlaps :: string where
  "ErrNetworkOverlaps = ''requested network overlaps with existing network''"

definition ErrNoDefaultRoute :: string where
  "ErrNoDefaultRoute = ''no default route''"

text \<open>The first and the last address; \<^term>\<open>None\<close> is the index panic of the loop.\<close>

definition NetworkRange :: "IPNet \<Rightarrow> (bytes \<times> bytes) option" where
  "NetworkRange network =
     (let netIP = To4 (net_IP network);
          firstIP = ip_Mask netIP (net_Mask network)
      in if length netIP < 4 \<or> length (net_Mask network) < 4 then None
         else Some (firstIP, map (\<lambda>i. netIP ! i OR NOT (net_Mask network ! i)) [0..<4]))"

definition NetworkOverlaps :: "IPNet \<Rightarrow> IPNet \<Rightarrow> bool option" where
  "NetworkOverlaps netX netY =
     (case NetworkRange netX of
        None \<Rightarrow> None
      | Some (firstX, _) \<Rightarrow>
          if net_Contains netY firstX then Some True
          else case NetworkRange netY of
              None \<Rightarrow> None
            | Some (firstY, _) \<Rightarrow> Some (net_Contains netX firstY))"

text \<open>Over a list of route destinations (a route without destination is skipped).\<close>

fun overlaps_any :: "IPNet \<Rightarrow> IPNet option list \<Rightarrow> bool option" where
  "overlaps_any n [] = Some False"
| "overlaps_any n (None # ds) = overlaps_any n ds"
| "overlaps_any n (Some d # ds) = (case NetworkOverlaps n d of
      None \<Rightarrow> None
    | Some True \<Rightarrow> Some True
    | Some False \<Rightarrow> overlaps_any n ds)"

section \<open>Counting\<close>

text \<open>\<^verbatim>\<open>math.Pow(2, float64(32 - maskSize))\<close>: a power of two is exact in a float64.\<close>

definition IPCount :: "IPNet \<Rightarrow> real" where
  "IPCount subnet =
     (let maskSize = int (fst (mask_Size (net_Mask subnet)))
      in if To4 (net_IP subnet) \<noteq> [] then 2 powi (32 - maskSize) else 2 powi (128 - maskSize))"

text \<open>
  Conversion of a non-negative float64 to \<^verbatim>\<open>int\<close> (truncation; the amd64 result for a value that
  does not fit), \<^verbatim>\<open>math.Mod\<close> on non-negative arguments, and \<^verbatim>\<open>make([]byte, n)\<close>, which panics
  for a negative length or one beyond the allocator's address range.
\<close>

definition float_to_int :: "real \<Rightarrow> int" where
  "float_to_int r = (if r < 2 ^ 63 then \<lfloor>r\<rfloor> else - (2 ^ 63))"

definition math_Mod :: "real \<Rightarrow> real \<Rightarrow> real" where
  "math_Mod x y = x - y * of_int \<lfloor>x / y\<rfloor>"

definition make_bytes :: "int \<Rightarrow> bytes option" where
  "make_bytes n = (if n < 0 \<or> 2 ^ 39 \<le> n then None else Some (replicate (nat n) 0))"

section \<open>MAC addresses\<close>

fun mac_String :: "bytes \<Rightarrow> string" where
  "mac_String [] = []"
| "mac_String [b] = hex2 b"
| "mac_String (b # bs) = hex2 b @ '':'' @ mac_String bs"

definition xtoi2 :: "string \<Rightarrow> char \<Rightarrow> byte option" where
  "xtoi2 s e =
     (if 2 < length s \<and> s ! 2 \<noteq> e then None
      else case xtoi (take 2 s) of
          Some (n, r) \<Rightarrow> if r = [] \<and> 2 \<le> length s then Some (of_nat n) else None
        | None \<Rightarrow> None)"

fun mac_octets :: "nat \<Rightarrow> char \<Rightarrow> string \<Rightarrow> bytes option" where
  "mac_octets 0 e s = Some []"
| "mac_octets (Suc n) e s = (case xtoi2 s e of
      None \<Rightarrow> None
    | Some b \<Rightarrow> map_option ((#) b) (mac_octets n e (drop 3 s)))"

fun mac_quads :: "nat \<Rightarrow> char \<Rightarrow> string \<Rightarrow> bytes option" where
  "mac_quads 0 e s = Some []"
| "mac_quads (Suc n) e s = (case xtoi2 (take 2 s) (CHR 0x00) of
      None \<Rightarrow> None
    | Some b \<Rightarrow> (case xtoi2 (drop 2 s) e of
        None \<Rightarrow> None
      | Some c \<Rightarrow> map_option (\<lambda>r. b # c # r) (mac_quads n e (drop 5 s))))"

definition ParseMAC :: "string \<Rightarrow> bytes option" where
  "ParseMAC s =
     (if length s < 14 then None
      else if s ! 2 = CHR '':'' \<or> s ! 2 = CHR ''-'' then
        (let n = (length s + 1) div 3 in
         if (length s + 1) mod 3 \<noteq> 0 then None
         else if n \<noteq> 6 \<and> n \<noteq> 8 \<and> n \<noteq> 20 then None
         else mac_octets n (s ! 2) s)
      else if s ! 4 = CHR ''.'' then
        (let n = 2 * (length s + 1) div 5 in
         if (length s + 1) mod 5 \<noteq> 0 then None
         else if n \<noteq> 6 \<and> n \<noteq> 8 \<and> n \<noteq> 20 then None
         else mac_quads (n div 2) (s ! 4) s)
      else None)"

section \<open>The netlink wrappers\<close>

record Link =
  link_Index :: int
  link_Name :: string

record Route =
  rt_LinkIndex :: int
  rt_Dst :: "IPNet option"
  rt_Gw :: bytes

text \<open>An interface of \<^verbatim>\<open>net.Interfaces\<close>: flags and the IP of each address (nil for other kinds).\<close>

record Iface =
  if_Up :: bool
  if_Loopback :: bool
  if_Addrs :: "string + bytes list"

record 'o netlink =
  LinkByName :: "string \<Rightarrow> 'o \<Rightarrow> string + Link"
  LinkByIndex :: "int \<Rightarrow> 'o \<Rightarrow> string + Link"
  AddrList :: "Link \<Rightarrow> 'o \<Rightarrow> string + IPNet list"
  RouteList :: "'o \<Rightarrow> string + Route list"
  RouteGet :: "bytes \<Rightarrow> 'o \<Rightarrow> string + Route list"
  Interfaces :: "'o \<Rightarrow> string + Iface list"
  LinkSetUp :: "Link \<Rightarrow> 'o \<Rightarrow> error \<times> 'o"
  LinkSetDown :: "Link \<Rightarrow> 'o \<Rightarrow> error \<times> 'o"
  LinkSetName :: "Link \<Rightarrow> string \<Rightarrow> 'o \<Rightarrow> error \<times> 'o"
  LinkSetNsPid :: "Link \<Rightarrow> int \<Rightarrow> 'o \<Rightarrow> error \<times> 'o"
  LinkSetNsFd :: "Link \<Rightarrow> int \<Rightarrow> 'o \<Rightarrow> error \<times> 'o"
  LinkSetHardwareAddr :: "Link \<Rightarrow> bytes \<Rightarrow> 'o \<Rightarrow> error \<times> 'o"
  LinkSetMTU :: "Link \<Rightarrow> int \<Rightarrow> 'o \<Rightarrow> error \<times> 'o"
  AddrAdd :: "Link \<Rightarrow> IPNet \<Rightarrow> 'o \<Rightarrow> error \<times> 'o"
  RouteAdd :: "Route \<Rightarrow> 'o \<Rightarrow> error \<times> 'o"

text \<open>The outer option of the result is the panic of \<^verbatim>\<open>NetworkRange\<close>.\<close>

definition CheckRouteOverlaps :: "'o netlink \<Rightarrow> IPNet \<Rightarrow> 'o \<Rightarrow> error option" where
  "CheckRouteOverlaps nl toCheck s =
     (case RouteList nl s of
        Inl e \<Rightarrow> Some (Some e)
      | Inr networks \<Rightarrow>
          (case overlaps_any toCheck (map rt_Dst networks) of
             None \<Rightarrow> None
           | Some True \<Rightarrow> Some (Some ErrNetworkOverlaps)
           | Some False \<Rightarrow> Some None))"

definition GetIfaceAddr :: "'o netlink \<Rightarrow> string \<Rightarrow> 'o \<Rightarrow> string + IPNet" where
  "GetIfaceAddr nl name s =
     (case LinkByName nl name s of
        Inl e \<Rightarrow> Inl e
      | Inr iface \<Rightarrow>
          (case AddrList nl iface s of
             Inl e \<Rightarrow> Inl e
           | Inr [] \<Rightarrow> Inl (''Interface '' @ name @ '' has no IP addresses'')
           | Inr (a # _) \<Rightarrow> Inr a))"

definition GetDefaultRouteIface :: "'o netlink \<Rightarrow> 'o \<Rightarrow> int \<times> error" where
  "GetDefaultRouteIface nl s =
     (case RouteGet nl (ParseIP ''0.0.0.0'') s of
        Inl e \<Rightarrow> (- 1, Some (''unable to get default route: '' @ e))
      | Inr (r # _) \<Rightarrow> (rt_LinkIndex r, None)
      | Inr [] \<Rightarrow> (- 1, Some ErrNoDefaultRoute))"

text \<open>The shape the setters share: look the link up, then one call on it.\<close>

definition with_link :: "'o netlink \<Rightarrow> string \<Rightarrow> (Link \<Rightarrow> 'o \<Rightarrow> error \<times> 'o) \<Rightarrow> 'o \<Rightarrow> error \<times> 'o" where
  "with_link nl name f s = (case LinkByName nl name s of Inl e \<Rightarrow> (Some e, s) | Inr iface \<Rightarrow> f iface s)"

definition InterfaceUp :: "'o netlink \<Rightarrow> string \<Rightarrow> 'o \<Rightarrow> error \<times> 'o" where
  "InterfaceUp nl name = with_link nl name (LinkSetUp nl)"

definition InterfaceDown :: "'o netlink \<Rightarrow> string \<Rightarrow> 'o \<Rightarrow> error \<times> 'o" where
  "InterfaceDown nl name = with_link nl name (LinkSetDown nl)"

definition ChangeInterfaceName :: "'o netlink \<Rightarrow> string \<Rightarrow> string \<Rightarrow> 'o \<Rightarrow> error \<times> 'o" where
  "ChangeInterfaceName nl old newName = with_link nl old (\<lambda>l. LinkSetName nl l newName)"

definition SetInterfaceInNamespacePid :: "'o netlink \<Rightarrow> string \<Rightarrow> int \<Rightarrow> 'o \<Rightarrow> error \<times> 'o" where
  "SetInterfaceInNamespacePid nl name nsPid = with_link nl name (\<lambda>l. LinkSetNsPid nl l nsPid)"

definition SetInterfaceInNamespaceFd :: "'o netlink \<Rightarrow> string \<Rightarrow> int \<Rightarrow> 'o \<Rightarrow> error \<times> 'o" where
  "SetInterfaceInNamespaceFd nl name fd = with_link nl name (\<lambda>l. LinkSetNsFd nl l fd)"

definition SetDefaultGateway :: "'o netlink \<Rightarrow> string \<Rightarrow> string \<Rightarrow> 'o \<Rightarrow> error \<times> 'o" where
  "SetDefaultGateway nl ip ifaceName =
     with_link nl ifaceName (\<lambda>l s.
       let gw = ParseIP ip in
       if gw = [] then (Some ''Invalid gateway address'', s)
       else case ParseCIDR ''0.0.0.0/0'' of
           None \<Rightarrow> (Some ''invalid CIDR address: 0.0.0.0/0'', s)
         | Some (_, dst) \<Rightarrow>
             RouteAdd nl \<lparr>rt_LinkIndex = link_Index l, rt_Dst = Some dst, rt_Gw = gw\<rparr> s)"

definition SetInterfaceMac :: "'o netlink \<Rightarrow> string \<Rightarrow> string \<Rightarrow> 'o \<Rightarrow> error \<times> 'o" where
  "SetInterfaceMac nl name macaddr =
     with_link nl name (\<lambda>l s. case ParseMAC macaddr of
         None \<Rightarrow> (Some (''address '' @ macaddr @ '': invalid MAC address''), s)
       | Some hwaddr \<Rightarrow> LinkSetHardwareAddr nl l hwaddr s)"

text \<open>\<^verbatim>\<open>netlink.ParseIPNet\<close>: the address itself with the mask of its network.\<close>

definition ParseIPNet :: "string \<Rightarrow> IPNet option" where
  "ParseIPNet s = map_option (\<lambda>(ip, n). \<lparr>net_IP = ip, net_Mask = net_Mask n\<rparr>) (ParseCIDR s)"

definition SetInterfaceIp :: "'o netlink \<Rightarrow> string \<Rightarrow> string \<Rightarrow> 'o \<Rightarrow> error \<times> 'o" where
  "SetInterfaceIp nl name rawIp =
     with_link nl name (\<lambda>l s. case ParseIPNet rawIp of
         None \<Rightarrow> (Some (''invalid CIDR address: '' @ rawIp), s)
       | Some ipNet \<Rightarrow> AddrAdd nl l ipNet s)"

definition SetMtu :: "'o netlink \<Rightarrow> string \<Rightarrow> int \<Rightarrow> 'o \<Rightarrow> error \<times> 'o" where
  "SetMtu nl name mtu = with_link nl name (\<lambda>l. LinkSetMTU nl l mtu)"

definition GetIfaceForRoute :: "'o netlink \<Rightarrow> string \<Rightarrow> 'o \<Rightarrow> string + string" where
  "GetIfaceForRoute nl address s =
     (let addr = ParseIP address in
      if addr = [] then Inl ''invalid address''
      else case RouteGet nl addr s of
          Inl e \<Rightarrow> Inl e
        | Inr [] \<Rightarrow> Inl ''no route to destination''
        | Inr (r # _) \<Rightarrow> (case LinkByIndex nl (rt_LinkIndex r) s of
            Inl e \<Rightarrow> Inl e
          | Inr link \<Rightarrow> Inr (link_Name link)))"

text \<open>\<^verbatim>\<open>IP.IsLoopback\<close>, then the two nested loops of \<^verbatim>\<open>MyIP\<close>.\<close>

definition IsLoopback :: "bytes \<Rightarrow> bool" where
  "IsLoopback ip = (if To4 ip \<noteq> [] then hd (To4 ip) = 127 else ip = replicate 15 0 @ [1])"

fun MyIP_addrs :: "bytes list \<Rightarrow> string option" where
  "MyIP_addrs [] = None"
| "MyIP_addrs (ip # ips) =
     (if ip = [] \<or> IsLoopback ip then MyIP_addrs ips
      else if To4 ip = [] then MyIP_addrs ips
      else Some (ip_String (To4 ip)))"

fun MyIP_ifaces :: "Iface list \<Rightarrow> string + string" where
  "MyIP_ifaces [] = Inl ''no available ip found''"
| "MyIP_ifaces (i # is) =
     (if \<not> if_Up i then MyIP_ifaces is
      else if if_Loopback i then MyIP_ifaces is
      else case if_Addrs i of
          Inl e \<Rightarrow> Inl e
        | Inr addrs \<Rightarrow> (case MyIP_addrs addrs of
            Some ip \<Rightarrow> Inr ip
          | None \<Rightarrow> MyIP_ifaces is))"

definition MyIP :: "'o netlink \<Rightarrow> 'o \<Rightarrow> string + string" where
  "MyIP nl s = (case Interfaces nl s of Inl e \<Rightarrow> Inl e | Inr ifaces \<Rightarrow> MyIP_ifaces ifaces)"

section \<open>IPv4 networks\<close>

definition v4_net :: "IPNet \<Rightarrow> bool" where
  "v4_net n \<longleftrightarrow> length (net_IP n) = 4 \<and> (\<exists>k \<le> 32. net_Mask n = CIDRMask k 32)"

abbreviation band :: "bytes \<Rightarrow> bytes \<Rightarrow> bytes" where
  "band x y \<equiv> map2 (AND) x y"

lemma v4_net_Mask: "v4_net n \<Longrightarrow> length (net_Mask n) = 4"
  by (auto simp: v4_net_def length_CIDRMask_32)

lemma band_assoc:
  "length x = l \<Longrightarrow> length y = l \<Longrightarrow> length z = l \<Longrightarrow> band (band x y) z = band x (band y z)"
  by (auto simp: list_eq_iff_nth_eq and.assoc)

lemma band_commute: "length x = length y \<Longrightarrow> band x y = band y x"
  by (auto simp: list_eq_iff_nth_eq and.commute)

lemma bit_255 [simp]: "bit (255 :: int) n \<longleftrightarrow> n < 8"
proof -
  have m: "(255 :: int) = mask 8" by (simp add: mask_eq_exp_minus_1)
  show ?thesis unfolding m by (simp only: bit_mask_iff) simp
qed

lemma prefix_byte_mono:
  "n \<le> m \<Longrightarrow> NOT (drop_bit n 255) AND NOT (drop_bit m 255) = (NOT (drop_bit n 255) :: byte)"
  by (rule bit_word_eqI) (auto simp: bit_simps)

lemma band_cidr_bytes: "n \<le> m \<Longrightarrow> band (cidr_bytes l n) (cidr_bytes l m) = cidr_bytes l n"
proof (induction l arbitrary: n m)
  case (Suc l)
  have zero: "band (cidr_bytes l 0) y = cidr_bytes l 0" if "length y = l" for y
    using that by (auto simp: cidr_bytes_0 list_eq_iff_nth_eq)
  have full: "NOT (drop_bit n 255) AND 255 = (NOT (drop_bit n 255) :: byte)"
    by (rule bit_word_eqI) (auto simp: bit_simps)
  show ?case
    using Suc zero full prefix_byte_mono [OF Suc.prems] by auto
qed simp

lemma CIDRMask_nested: "n \<le> m \<Longrightarrow> m \<le> 32 \<Longrightarrow> band (CIDRMask n 32) (CIDRMask m 32) = CIDRMask n 32"
  by (simp add: CIDRMask_def band_cidr_bytes)

lemma net_Contains_v4:
  assumes "v4_net n" and "length ad = 4"
  shows "net_Contains n ad \<longleftrightarrow> band (net_IP n) (net_Mask n) = band ad (net_Mask n)"
proof -
  have "networkNumberAndMask n = (net_IP n, net_Mask n)" "net_IP n \<noteq> []"
    using assms(1) v4_net_Mask [OF assms(1)]
    by (auto simp: networkNumberAndMask_def v4_net_def Let_def)
  moreover obtain a b c d where "ad = [a, b, c, d]"
    using assms(2) by (rule length_4E)
  moreover obtain e f g h where "net_IP n = [e, f, g, h]"
    using assms(1) by (auto simp: v4_net_def elim: length_4E)
  moreover obtain k l m o' where "net_Mask n = [k, l, m, o']"
    using v4_net_Mask [OF assms(1)] by (rule length_4E)
  ultimately show ?thesis by (simp add: net_Contains_def)
qed

lemma NetworkRange_first:
  assumes "v4_net n"
  shows "map_option fst (NetworkRange n) = Some (band (net_IP n) (net_Mask n))"
  using assms v4_net_Mask [OF assms] by (simp add: NetworkRange_def ip_Mask_def v4_net_def Let_def)

lemma contains_first_of_wider:
  assumes "v4_net x" and "v4_net y" and "band (net_Mask x) (net_Mask y) = net_Mask x"
    and "length ad = 4" and "net_Contains x ad" and "net_Contains y ad"
  shows "net_Contains x (band (net_IP y) (net_Mask y))"
proof -
  let ?mx = "net_Mask x" and ?my = "net_Mask y"
  have l: "length ?mx = 4" "length ?my = 4" "length (net_IP x) = 4" "length (net_IP y) = 4"
    using assms(1,2) v4_net_Mask by (auto simp: v4_net_def)
  have "band (band (net_IP y) ?my) ?mx = band (band ad ?my) ?mx"
    using assms(2,4,6) by (simp add: net_Contains_v4)
  also have "\<dots> = band ad ?mx"
    using assms(3,4) l band_commute [of ?my ?mx] by (simp add: band_assoc [of _ 4])
  also have "\<dots> = band (net_IP x) ?mx"
    using assms(1,4,5) by (simp add: net_Contains_v4)
  finally show ?thesis using assms(1) l by (simp add: net_Contains_v4)
qed

lemma v4_nets_nested:
  assumes "v4_net x" and "v4_net y"
  shows "band (net_Mask x) (net_Mask y) = net_Mask x \<or> band (net_Mask y) (net_Mask x) = net_Mask y"
proof -
  obtain n m where "n \<le> 32" "net_Mask x = CIDRMask n 32" "m \<le> 32" "net_Mask y = CIDRMask m 32"
    using assms by (auto simp: v4_net_def)
  then show ?thesis using CIDRMask_nested [of n m] CIDRMask_nested [of m n] by (cases "n \<le> m") auto
qed

lemma first_in_own_net:
  assumes "v4_net n"
  shows "length (band (net_IP n) (net_Mask n)) = 4" and "net_Contains n (band (net_IP n) (net_Mask n))"
  using assms v4_net_Mask [OF assms]
  by (auto simp: v4_net_def net_Contains_v4 list_eq_iff_nth_eq)

lemma NetworkOverlaps_v4:
  assumes "v4_net x" and "v4_net y"
  shows "NetworkOverlaps x y = Some (\<exists>ad. length ad = 4 \<and> net_Contains x ad \<and> net_Contains y ad)"
proof -
  let ?fx = "band (net_IP x) (net_Mask x)" and ?fy = "band (net_IP y) (net_Mask y)"
  obtain lx ly where r: "NetworkRange x = Some (?fx, lx)" "NetworkRange y = Some (?fy, ly)"
    using NetworkRange_first [OF assms(1)] NetworkRange_first [OF assms(2)] by auto
  have "(net_Contains y ?fx \<or> net_Contains x ?fy) =
      (\<exists>ad. length ad = 4 \<and> net_Contains x ad \<and> net_Contains y ad)"
    using v4_nets_nested [OF assms] contains_first_of_wider assms first_in_own_net by blast
  then show ?thesis by (auto simp: NetworkOverlaps_def r)
qed

section \<open>Sizes\<close>

lemma IPCount_v4:
  assumes "length ip = 4" and "n \<le> 32"
  shows "IPCount \<lparr>net_IP = ip, net_Mask = CIDRMask n 32\<rparr> = 2 ^ (32 - n)"
proof -
  have "ip \<noteq> []" using assms(1) by auto
  moreover have "(32 - int n) = int (32 - n)" using assms(2) by simp
  ultimately show ?thesis
    using assms by (simp add: IPCount_def mask_Size_CIDRMask_32 Let_def power_int_of_nat del: of_nat_diff)
qed

lemma floor_pow2_div8: "\<lfloor>(2 :: real) ^ k / 8\<rfloor> = 2 ^ k div 8"
  using floor_divide_of_int_eq [of "2 ^ k" 8, where ?'a = real] by simp

lemma math_Mod_pow2: "math_Mod (2 ^ k) 8 = of_int (2 ^ k mod 8)"
proof -
  have "(2 :: int) ^ k = 8 * (2 ^ k div 8) + 2 ^ k mod 8" by simp
  then have "(2 :: real) ^ k = 8 * of_int (2 ^ k div 8) + of_int (2 ^ k mod 8)"
    by (metis of_int_add of_int_mult of_int_numeral of_int_power)
  then show ?thesis unfolding math_Mod_def floor_pow2_div8 by linarith
qed

section \<open>MAC addresses read back\<close>

lemma hex_val_hex_digit [simp]: "d < 16 \<Longrightarrow> hex_val (hex_digit d) = Some d"
  by (auto simp: hex_val_def hex_digit_def Let_def)

lemma hex_digit_not_colon [simp]: "d < 16 \<Longrightarrow> hex_digit d \<noteq> CHR '':''"
  using hex_val_hex_digit [of d] by (auto simp: hex_val_def)

lemma length_hex2 [simp]: "length (hex2 b) = 2"
  by (simp add: hex2_def)

lemma xtoi2_hex2:
  assumes "r = [] \<or> hd r = e"
  shows "xtoi2 (hex2 b @ r) e = Some b"
proof -
  have "unat b div 16 < 16" "unat b mod 16 < 16" "unat b div 16 * 16 + unat b mod 16 < big"
    using unat_byte_less(1) [of b] unat_byte_less(3) [of b] by (simp_all add: less_mult_imp_div_less)
  then have "xtoi (hex2 b) = Some (unat b, [])"
    by (simp add: xtoi_def hex2_def Let_def big_def)
  moreover have "2 < length (hex2 b @ r) \<Longrightarrow> (hex2 b @ r) ! 2 = e"
    using assms by (cases r) (auto simp: nth_append)
  ultimately show ?thesis by (auto simp: xtoi2_def)
qed

lemma mac_octets_String:
  "mac_octets (length bs) (CHR '':'') (mac_String bs) = Some bs"
proof (induction bs rule: mac_String.induct)
  case (2 b)
  then show ?case using xtoi2_hex2 [of "[]" _ b] by simp
next
  case (3 b c bs)
  then show ?case using xtoi2_hex2 [of "CHR '':'' # mac_String (c # bs)" "CHR '':''" b] by simp
qed simp

lemma length_mac_String: "bs \<noteq> [] \<Longrightarrow> length (mac_String bs) = 3 * length bs - 1"
  by (induction bs rule: mac_String.induct) auto

lemma ParseMAC_mac_String:
  assumes "length hw = 6"
  shows "ParseMAC (mac_String hw) = Some hw"
proof -
  have l: "length (mac_String hw) = 17"
    using length_mac_String [of hw] assms by (cases "hw = []") auto
  obtain b c bs where hw: "hw = b # c # bs"
    using assms by (cases hw; cases "tl hw") auto
  have "mac_String hw ! 2 = CHR '':''"
    by (simp add: hw nth_append)
  with l mac_octets_String [of hw] assms show ?thesis
    by (simp add: ParseMAC_def)
qed

section \<open>Guarantees\<close>

text \<open>
  C13. Two IPv4 networks are reported as overlapping exactly when some address belongs to both, and
  the answer does not depend on the order of the arguments.
\<close>

theorem NetworkOverlaps_common_address:
  assumes "v4_net x" and "v4_net y"
  shows "NetworkOverlaps x y = Some (\<exists>ad. length ad = 4 \<and> net_Contains x ad \<and> net_Contains y ad) \<and>
    NetworkOverlaps y x = NetworkOverlaps x y"
  unfolding NetworkOverlaps_v4 [OF assms] NetworkOverlaps_v4 [OF assms(2,1)] by blast

lemma cidr_bytes_numeral: "cidr_bytes (numeral l) n =
    (if 8 \<le> n then 255 # cidr_bytes (pred_numeral l) (n - 8)
     else NOT (drop_bit n 255) # cidr_bytes (pred_numeral l) 0)"
  by (simp add: numeral_eq_Suc)

lemma CIDRMask_8: "CIDRMask 8 32 = [255, 0, 0, 0]" and CIDRMask_16: "CIDRMask 16 32 = [255, 255, 0, 0]"
  by (simp_all add: CIDRMask_def cidr_bytes_numeral)

text \<open>Networks by prefix length, for the examples.\<close>

definition net10 :: IPNet where "net10 = \<lparr>net_IP = [10, 0, 0, 0], net_Mask = [255, 0, 0, 0]\<rparr>"
definition net10_42 :: IPNet where "net10_42 = \<lparr>net_IP = [10, 42, 0, 0], net_Mask = [255, 255, 0, 0]\<rparr>"

lemma v4_net_examples [simp]: "v4_net net10" "v4_net net10_42"
  unfolding v4_net_def net10_def net10_42_def
  using CIDRMask_8 CIDRMask_16 by (auto intro: exI [of _ 8] exI [of _ 16])

theorem NetworkOverlaps_common_address_witness:
  "NetworkOverlaps net10 net10_42 = Some True \<and> NetworkOverlaps net10_42 net10 = Some True"
proof -
  have "net_Contains net10 [10, 42, 0, 0]" "net_Contains net10_42 [10, 42, 0, 0]"
    by (simp_all add: net_Contains_v4) (simp_all add: net10_def net10_42_def)
  then show ?thesis
    using NetworkOverlaps_common_address [of net10 net10_42]
    by (auto intro!: exI [of _ "[10, 42, 0, 0]"])
qed

lemma overlaps_any_v4:
  assumes "v4_net n" and "\<forall>d. Some d \<in> set ds \<longrightarrow> v4_net d"
  shows "overlaps_any n ds =
    Some (\<exists>d ad. Some d \<in> set ds \<and> length ad = 4 \<and> net_Contains n ad \<and> net_Contains d ad)"
  using assms
proof (induction n ds rule: overlaps_any.induct)
  case (3 n d ds)
  then have d: "NetworkOverlaps n d = Some (\<exists>ad. length ad = 4 \<and> net_Contains n ad \<and> net_Contains d ad)"
    by (intro NetworkOverlaps_v4) auto
  show ?case
  proof (cases "\<exists>ad. length ad = 4 \<and> net_Contains n ad \<and> net_Contains d ad")
    case True
    then show ?thesis by (auto simp: d)
  next
    case False
    then have "NetworkOverlaps n d = Some False" using d by simp
    moreover from this have "overlaps_any n ds =
        Some (\<exists>d ad. Some d \<in> set ds \<and> length ad = 4 \<and> net_Contains n ad \<and> net_Contains d ad)"
      using "3.IH" [of False] "3.prems" by simp
    ultimately show ?thesis using False by auto
  qed
qed auto

lemma CheckRouteOverlaps_v4:
  assumes "v4_net n" and "RouteList nl s = Inr rs" and "\<forall>r \<in> set rs. \<forall>d. rt_Dst r = Some d \<longrightarrow> v4_net d"
  shows "CheckRouteOverlaps nl n s =
    Some (if \<exists>r \<in> set rs. \<exists>d ad. rt_Dst r = Some d \<and> length ad = 4 \<and> net_Contains n ad \<and> net_Contains d ad
          then Some ErrNetworkOverlaps else None)"
proof -
  have dst: "Some d \<in> set (map rt_Dst rs) \<longleftrightarrow> (\<exists>r \<in> set rs. rt_Dst r = Some d)" for d
    by (induction rs) auto
  have "overlaps_any n (map rt_Dst rs) =
      Some (\<exists>r \<in> set rs. \<exists>d ad. rt_Dst r = Some d \<and> length ad = 4 \<and> net_Contains n ad \<and> net_Contains d ad)"
    using assms(1,3) by (subst overlaps_any_v4) (simp_all only: dst, blast+)
  then show ?thesis unfolding CheckRouteOverlaps_def assms(2) by (auto split: bool.split)
qed

text \<open>
  A network passes the route check exactly when it shares no address with the destination of
  any route of the host.
\<close>

theorem CheckRouteOverlaps_exact:
  assumes "v4_net n" and "RouteList nl s = Inr rs" and "\<forall>r \<in> set rs. \<forall>d. rt_Dst r = Some d \<longrightarrow> v4_net d"
  shows "CheckRouteOverlaps nl n s =
    Some (if \<exists>r \<in> set rs. \<exists>d ad. rt_Dst r = Some d \<and> length ad = 4 \<and> net_Contains n ad \<and> net_Contains d ad
          then Some ErrNetworkOverlaps else None)"
  by (rule CheckRouteOverlaps_v4 [OF assms])

text \<open>A kernel on which every call succeeds, with links that have no address and one route, to 10.0.0.0/8.\<close>

definition nl_one_route :: "unit netlink" where
  "nl_one_route = \<lparr>LinkByName = (\<lambda>name _. Inr \<lparr>link_Index = 1, link_Name = name\<rparr>), LinkByIndex = (\<lambda>_ _. Inl ''Link not found''),
     AddrList = (\<lambda>_ _. Inr []), RouteList = (\<lambda>_. Inr [\<lparr>rt_LinkIndex = 2, rt_Dst = Some net10, rt_Gw = []\<rparr>]),
     RouteGet = (\<lambda>_ _. Inr []), Interfaces = (\<lambda>_. Inr []),
     LinkSetUp = (\<lambda>_ s. (None, s)), LinkSetDown = (\<lambda>_ s. (None, s)), LinkSetName = (\<lambda>_ _ s. (None, s)),
     LinkSetNsPid = (\<lambda>_ _ s. (None, s)), LinkSetNsFd = (\<lambda>_ _ s. (None, s)),
     LinkSetHardwareAddr = (\<lambda>_ _ s. (None, s)), LinkSetMTU = (\<lambda>_ _ s. (None, s)),
     AddrAdd = (\<lambda>_ _ s. (None, s)), RouteAdd = (\<lambda>_ s. (None, s))\<rparr>"

theorem CheckRouteOverlaps_exact_witness:
  "CheckRouteOverlaps nl_one_route net10_42 () = Some (Some ErrNetworkOverlaps)"
proof -
  have "net_Contains net10 [10, 42, 0, 0]" "net_Contains net10_42 [10, 42, 0, 0]"
    by (simp_all add: net_Contains_v4) (simp_all add: net10_def net10_42_def)
  then show ?thesis
    using CheckRouteOverlaps_exact [of net10_42 nl_one_route "()"]
    by (auto simp: nl_one_route_def intro!: exI [of _ "[10, 42, 0, 0]"] split: if_splits)
qed


end
