(* ===== verification/NetAgent.thy ===== *)
theory NetAgent
  imports ConsulKV NetUtil
begin

text \<open>
  \<^verbatim>\<open>netAgent/netAgent.go\<close> (K/V client, cluster membership, start of the agent) and the
  command table of \<^verbatim>\<open>netAgent/consul.go\<close>.

  The state \<open>net\<close> is what the process can reach over HTTP: the cluster's store and, for every
  request it will ever send, what the environment does around that request. Before the
  request is served, other clients' committed entries take effect (\<open>others\<close>); the request
  itself may reach the agent or not, be answered with an RPC error (status 500), or be
  carried out with the reply lost (\<open>fault\<close>). A theorem about all \<open>net\<close> states is therefore a
  theorem about every interleaving with other nodes and every pattern of failures.
  Keys are taken to reach the agent as they are (names free of URL metacharacters).
\<close>

section \<open>Requests\<close>

datatype fault = Up | NoConn | RpcError string | LostReply

record kv_env =
  others :: "KVSRequest list"
  fault :: fault

record net =
  cluster :: consul
  sched :: "nat \<Rightarrow> kv_env"
  clock :: nat

text \<open>The store at the moment the next request is served, and the state after a read.\<close>

definition served :: "net \<Rightarrow> consul" where
  "served s = apply_all (others (sched s (clock s))) (cluster s)"

definition tick :: "consul \<Rightarrow> net \<Rightarrow> net" where
  "tick c s = s\<lparr>cluster := c, clock := Suc (clock s)\<rparr>"

definition http_do :: "http_req \<Rightarrow> (net, http_resp option) go" where
  "http_do rq s =
     (let (resp, c) = KVSEndpoint rq (served s) in
      case fault (sched s (clock s)) of
        Up \<Rightarrow> (Ret (Some resp), tick c s)
      | NoConn \<Rightarrow> (Ret None, tick (served s) s)
      | RpcError e \<Rightarrow> (Ret (Some (text_resp 500 e)), tick (served s) s)
      | LostReply \<Rightarrow> (Ret None, tick c s))"

definition key_path :: "string \<Rightarrow> string \<Rightarrow> string" where
  "key_path store key = store @ ''/'' @ key"

definition success :: "http_resp \<Rightarrow> bool" where
  "success r \<longleftrightarrow> 200 \<le> http_status r \<and> http_status r < 300"

section \<open>K/V operations\<close>

datatype put_result = OK | OUTDATED | ERROR

text \<open>Value, modify index, found. An empty JSON list makes \<^verbatim>\<open>jsonBody[0]\<close> panic.\<close>

definition Get :: "string \<Rightarrow> string \<Rightarrow> (net, bytes \<times> nat \<times> bool) go" where
  "Get store key =
     gbind (http_do (HGet (key_path store key))) (\<lambda>r. case r of
         None \<Rightarrow> gret ([], 0, False)
       | Some resp \<Rightarrow>
           if success resp then
             (case http_body resp of
                Entries (b # _) \<Rightarrow>
                  (let (existingValue, ok) = DecodeString (kr_Value b) in
                   if ok then gret (existingValue, kr_ModifyIndex b, True)
                   else gret ([], kr_ModifyIndex b, False))
              | _ \<Rightarrow> gpanic ''index out of range'')
           else gret ([], 0, False))"

definition GetAll :: "string \<Rightarrow> (net, bytes list \<times> nat list \<times> bool) go" where
  "GetAll store =
     gbind (http_do (HGetRecurse store)) (\<lambda>r. case r of
         None \<Rightarrow> gret ([], [], False)
       | Some resp \<Rightarrow>
           if success resp then
             (let jsonBody = (case http_body resp of Entries bs \<Rightarrow> bs | Text _ \<Rightarrow> [])
              in gret (map (\<lambda>b. fst (DecodeString (kr_Value b))) jsonBody, map kr_ModifyIndex jsonBody, True))
           else gret ([], [], False))"

definition Put :: "string \<Rightarrow> string \<Rightarrow> bytes \<Rightarrow> bytes \<Rightarrow> (net, put_result) go" where
  "Put store key value oldVal =
     gbind (Get store key) (\<lambda>(existingVal, casIndex, ok).
       if ok \<and> oldVal \<noteq> existingVal then gret OUTDATED
       else gbind (http_do (HPutCas (key_path store key) casIndex value)) (\<lambda>r. case r of
           None \<Rightarrow> gret ERROR
         | Some resp \<Rightarrow>
             if http_body resp = Text ''false'' then gret ERROR else gret OK))"

definition Delete :: "string \<Rightarrow> string \<Rightarrow> (net, put_result) go" where
  "Delete store key =
     gbind (http_do (HDelete (key_path store key))) (\<lambda>r. case r of
         None \<Rightarrow> gret ERROR
       | Some _ \<Rightarrow> gret OK)"

section \<open>Cluster membership\<close>

text \<open>
  \<^verbatim>\<open>cli.Run\<close> on the embedded Consul command line is the parameter \<open>run\<close>: an exit code or an
  error, and its effect on the host.
\<close>

definition Execute :: "(string list \<Rightarrow> 'o \<Rightarrow> (string + int) \<times> 'o) \<Rightarrow> string list \<Rightarrow> 'o \<Rightarrow> int \<times> 'o" where
  "Execute run args s = (case run args s of
      (Inl e, s') \<Rightarrow> (1, s')
    | (Inr exitCode, s') \<Rightarrow> (exitCode, s'))"

text \<open>\<^verbatim>\<open>strings.Split(addr, " ")\<close>.\<close>

fun split_on :: "char \<Rightarrow> string \<Rightarrow> string list" where
  "split_on c [] = [[]]"
| "split_on c (x # xs) =
     (if x = c then [] # split_on c xs
      else case split_on c xs of [] \<Rightarrow> [[x]] | w # ws \<Rightarrow> (x # w) # ws)"

definition Join :: "(string list \<Rightarrow> 'o \<Rightarrow> (string + int) \<times> 'o) \<Rightarrow> string \<Rightarrow> 'o \<Rightarrow> error \<times> 'o" where
  "Join run addr s =
     (let (ret, s') = Execute run (''join'' # split_on (CHR '' '') addr) s
      in (if ret \<noteq> 0 then Some ''Error joining the cluster'' else None, s'))"

definition Leave :: "(string list \<Rightarrow> 'o \<Rightarrow> (string + int) \<times> 'o) \<Rightarrow> 'o \<Rightarrow> error \<times> 'o" where
  "Leave run s =
     (let (ret, s') = Execute run [''leave''] s
      in (if ret \<noteq> 0 then Some ''Error leaving consul cluster'' else None, s'))"

definition startConsul_args :: "bool \<Rightarrow> string \<Rightarrow> string \<Rightarrow> string \<Rightarrow> string list" where
  "startConsul_args serverMode expectServerNum bindAddress dataDir =
     [''agent'', ''-data-dir'', dataDir]
     @ (if serverMode then [''-server'', ''-bootstrap-expect='' @ expectServerNum] else [])
     @ (if bindAddress \<noteq> [] then [''-bind'', bindAddress, ''-advertise'', bindAddress] else [])"

definition startConsul ::
  "(string list \<Rightarrow> 'o \<Rightarrow> (string + int) \<times> 'o) \<Rightarrow> bool \<Rightarrow> string \<Rightarrow> string \<Rightarrow> string \<Rightarrow> 'o \<Rightarrow> int \<times> 'o" where
  "startConsul run serverMode expectServerNum bindAddress dataDir =
     Execute run (startConsul_args serverMode expectServerNum bindAddress dataDir)"

text \<open>
  The bind address: the last IPv4 address of the interface, empty if it has none or they cannot
  be read. Each address is given as the text \<^verbatim>\<open>addr.String()\<close>.
\<close>

fun bind_addr :: "string list \<Rightarrow> string \<Rightarrow> string" where
  "bind_addr [] found = found"
| "bind_addr (a # as) found = bind_addr as
     (case ParseCIDR a of
        None \<Rightarrow> found
      | Some (ip, _) \<Rightarrow> if To4 ip \<noteq> [] then ip_String (To4 ip) else found)"

record Node =
  node_Name :: string
  node_Address :: string

text \<open>
  \<^verbatim>\<open>getNodes\<close> decodes into a slice value instead of a pointer, which \<^verbatim>\<open>encoding/json\<close> always
  rejects; \<open>body\<close> is the outcome of the HTTP request.
\<close>

definition json_Decode_into_value :: "string \<Rightarrow> string + Node list" where
  "json_Decode_into_value body = Inl ''json: Unmarshal(non-pointer []netAgent.Node)''"

definition getNodes :: "string + string \<Rightarrow> string + Node list" where
  "getNodes body = (case body of
      Inl e \<Rightarrow> Inl ''Get nodes failed''
    | Inr b \<Rightarrow> (case json_Decode_into_value b of
        Inl e \<Rightarrow> Inl ''Decode error in getNodes''
      | Inr nodes \<Rightarrow> Inr nodes))"

section \<open>The command table\<close>

datatype cli_command =
    AgentCommand string string string
  | VersionCommand string string string
  | PlainCommand string
  | ShutdownCommand string

text \<open>
  \<open>PlainCommand\<close> only gets the user interface, \<open>ShutdownCommand\<close> a shutdown channel as well; the
  other two carry revision, version and pre-release.
\<close>

definition Version :: string where "Version = ''0.6''"
definition VersionPrerelease :: string where "VersionPrerelease = ''dev''"

definition version_command :: "string \<Rightarrow> string \<Rightarrow> cli_command" where
  "version_command GitCommit GitDescribe =
     (let ver = (if GitDescribe \<noteq> [] then GitDescribe else Version);
          rel = (if GitDescribe = [] \<and> VersionPrerelease = [] then ''dev'' else VersionPrerelease)
      in VersionCommand GitCommit ver rel)"

definition Commands :: "string \<Rightarrow> string \<Rightarrow> string \<rightharpoonup> cli_command" where
  "Commands GitCommit GitDescribe = map_of [
     (''agent'', AgentCommand GitCommit Version VersionPrerelease),
     (''event'', PlainCommand ''event''),
     (''exec'', ShutdownCommand ''exec''),
     (''force-leave'', PlainCommand ''force-leave''),
     (''join'', PlainCommand ''join''),
     (''keygen'', PlainCommand ''keygen''),
     (''keyring'', PlainCommand ''keyring''),
     (''leave'', PlainCommand ''leave''),
     (''lock'', ShutdownCommand ''lock''),
     (''maint'', PlainCommand ''maint''),
     (''members'', PlainCommand ''members''),
     (''monitor'', ShutdownCommand ''monitor''),
     (''info'', PlainCommand ''info''),
     (''reload'', PlainCommand ''reload''),
     (''version'', version_command GitCommit GitDescribe),
     (''watch'', ShutdownCommand ''watch'')]"

section \<open>How the operations act\<close>

definition net_ok :: "net \<Rightarrow> bool" where
  "net_ok s \<longleftrightarrow> consul_ok (cluster s)"

text \<open>The next \<open>n\<close> requests are answered.\<close>

definition up_for :: "nat \<Rightarrow> net \<Rightarrow> bool" where
  "up_for n s \<longleftrightarrow> (\<forall>i < n. fault (sched s (clock s + i)) = Up)"

lemma tick_simps [simp]:
  "cluster (tick c s) = c" "clock (tick c s) = Suc (clock s)" "sched (tick c s) = sched s"
  by (simp_all add: tick_def)

lemma key_path_not_nil [simp]: "key_path store key \<noteq> []"
  by (simp add: key_path_def)

lemma served_ok: "net_ok s \<Longrightarrow> consul_ok (served s)"
  by (simp add: net_ok_def served_def apply_all_ok)

lemma served_evolves: "evolves (cluster s) (served s)"
  by (auto simp: evolves_def served_def)

lemma up_for_tick: "up_for (Suc n) s \<Longrightarrow> up_for n (tick c s)"
  by (auto simp: up_for_def)

lemma up_for_mono: "up_for n s \<Longrightarrow> m \<le> n \<Longrightarrow> up_for m s"
  by (simp add: up_for_def)

lemma http_do_up:
  "up_for (Suc n) s \<Longrightarrow> http_do rq s =
     (Ret (Some (fst (KVSEndpoint rq (served s)))), tick (snd (KVSEndpoint rq (served s))) s)"
  by (auto simp: http_do_def up_for_def split: prod.split)

lemma KVSEndpoint_ok: "consul_ok c \<Longrightarrow> consul_ok (snd (KVSEndpoint rq c))"
  using applyKVSOperation_ok
  by (auto simp: KVSEndpoint_def KVSPut_handler_def KVSDelete_handler_def KVS_Apply_def Let_def
      split: http_req.splits prod.splits sum.splits) (metis snd_conv)+

lemma keeps_http_do [keeps_intro]: "keeps net_ok (http_do rq)"
proof (rule keepsI)
  fix s assume "net_ok s"
  then have "consul_ok (served s)" "consul_ok (snd (KVSEndpoint rq (served s)))"
    by (auto intro: KVSEndpoint_ok served_ok)
  then show "net_ok (snd (http_do rq s))"
    by (auto simp: http_do_def net_ok_def split: prod.split fault.split)
qed

lemma keeps_case_http_body [keeps_intro]:
  "(\<And>x. keeps I (f x)) \<Longrightarrow> (\<And>x. keeps I (g x)) \<Longrightarrow>
   keeps I (case b of Text x \<Rightarrow> f x | Entries x \<Rightarrow> g x)"
  by (auto split: http_body.split)

lemma keeps_Get [keeps_intro]: "keeps net_ok (Get store key)"
  unfolding Get_def by (intro keeps_intro)

lemma keeps_GetAll [keeps_intro]: "keeps net_ok (GetAll store)"
  unfolding GetAll_def by (intro keeps_intro)

lemma keeps_Put [keeps_intro]: "keeps net_ok (Put store key v old)"
  unfolding Put_def by (intro keeps_intro)

lemma keeps_Delete [keeps_intro]: "keeps net_ok (Delete store key)"
  unfolding Delete_def by (intro keeps_intro)

text \<open>What a read returns.\<close>

definition get_view :: "(bytes \<times> nat) option \<Rightarrow> bytes \<times> nat \<times> bool" where
  "get_view x = (case x of None \<Rightarrow> ([], 0, False) | Some (v, m) \<Rightarrow> (v, m, True))"

lemma Get_up:
  assumes "up_for (Suc n) s"
  shows "Get store key s =
    (Ret (get_view (kv_lookup (served s) (key_path store key))), tick (served s) s)"
  using http_do_up [OF assms, of "HGet (key_path store key)"]
  by (auto simp: Get_def gbind_def KVSEndpoint_def KVSGet_handler_def KVSGet_def entries_resp_def
      text_resp_def success_def render_entry_def get_view_def kv_lookup_def gret_def
      split: option.splits)

text \<open>A read that is not answered finds nothing.\<close>

lemma Get_down:
  assumes "fault (sched s (clock s)) \<noteq> Up"
  shows "Get store key s = (Ret ([], 0, False), tick (served s) s)"
  using assms
  by (cases "fault (sched s (clock s))"; cases "KVSEndpoint (HGet (key_path store key)) (served s)")
     (auto simp: Get_def gbind_def gret_def http_do_def success_def text_resp_def KVSEndpoint_def KVSGet_handler_def
       entries_resp_def split: option.splits if_splits)

definition seen_at :: "net \<Rightarrow> string \<Rightarrow> (bytes \<times> nat) option" where
  "seen_at s key = (if fault (sched s (clock s)) = Up then kv_lookup (served s) key else None)"

lemma Get_any: "Get store key s = (Ret (get_view (seen_at s (key_path store key))), tick (served s) s)"
proof (cases "fault (sched s (clock s)) = Up")
  case True
  then have "up_for (Suc 0) s" by (simp add: up_for_def)
  from Get_up [OF this] True show ?thesis by (simp add: seen_at_def)
next
  case False
  then show ?thesis by (simp add: Get_down seen_at_def get_view_def)
qed

lemma KVSPut_handler_cas:
  assumes "length v \<le> maxKVSize" and "key \<noteq> []"
  shows "KVSPut_handler key m v c =
    (text_resp 200 (json_bool (fst (kv_cas key m v c))), snd (kv_cas key m v c))"
proof -
  obtain b c' where r: "applyKVSOperation (cas_request key m v) c = (Some b, c')"
    by (cases "KVSSetCAS (Suc (raft_index c)) (new_entry key m v) (kvs c)")
       (auto simp: applyKVSOperation_def cas_request_def Let_def)
  with assms show ?thesis
    unfolding KVSPut_handler_def KVS_Apply_def kv_cas_def cas_request_def
    by (simp add: new_entry_def)
qed

definition stale :: "bytes \<Rightarrow> (bytes \<times> nat) option \<Rightarrow> bool" where
  "stale old x \<longleftrightarrow> (case x of None \<Rightarrow> False | Some (v, _) \<Rightarrow> old \<noteq> v)"

text \<open>\<^verbatim>\<open>Put\<close> when its write is answered, whatever became of its read.\<close>

lemma Put_answered:
  fixes s v store k
  assumes "fault (sched s (Suc (clock s))) = Up" and "length v \<le> maxKVSize"
  defines "key \<equiv> key_path store k" and "s1 \<equiv> tick (served s) s"
  defines "w \<equiv> kv_cas key (kv.version (seen_at s key)) v (served s1)"
  shows "Put store k v old s =
    (if stale old (seen_at s key) then (Ret OUTDATED, s1) else (Ret (if fst w then OK else ERROR), tick (snd w) s1))"
proof -
  have G: "Get store k s = (Ret (get_view (seen_at s key)), s1)" by (simp add: Get_any s1_def key_def)
  have up1: "up_for (Suc 0) s1" using assms(1) by (simp add: up_for_def s1_def)
  have P: "http_do (HPutCas key m v) s1 =
      (Ret (Some (text_resp 200 (json_bool (fst (kv_cas key m v (served s1)))))),
       tick (snd (kv_cas key m v (served s1))) s1)" for m
    using http_do_up [OF up1, of "HPutCas key m v"] assms(2)
    by (simp add: KVSEndpoint_def KVSPut_handler_cas key_def)
  show ?thesis
    unfolding Put_def gbind_def [of "Get store k"] G
    using P by (auto simp: get_view_def stale_def kv.version_def w_def key_def gbind_def
        json_bool_def text_resp_def gret_def split: option.splits)
qed

lemma Put_up:
  fixes s v store k
  assumes "up_for (Suc (Suc n)) s" and "length v \<le> maxKVSize"
  defines "key \<equiv> key_path store k" and "s1 \<equiv> tick (served s) s"
  defines "seen \<equiv> kv_lookup (served s) key"
  defines "w \<equiv> kv_cas key (kv.version seen) v (served s1)"
  shows "Put store k v old s =
    (if stale old seen then (Ret OUTDATED, s1) else (Ret (if fst w then OK else ERROR), tick (snd w) s1))"
proof -
  have "fault (sched s (clock s)) = Up" "fault (sched s (Suc (clock s))) = Up"
    using assms(1) [unfolded up_for_def, rule_format, of 0] assms(1) [unfolded up_for_def, rule_format, of 1] by simp_all
  with Put_answered [OF _ assms(2), of s store k old] show ?thesis
    unfolding w_def seen_def s1_def key_def seen_at_def by simp
qed

section \<open>Requests without interference\<close>

definition quiet_env :: kv_env where
  "quiet_env = \<lparr>others = [], fault = Up\<rparr>"

definition quiet_for :: "nat \<Rightarrow> net \<Rightarrow> bool" where
  "quiet_for n s \<longleftrightarrow> (\<forall>i < n. sched s (clock s + i) = quiet_env)"

definition value_at :: "consul \<Rightarrow> string \<Rightarrow> bytes option" where
  "value_at c key = map_option fst (kv_lookup c key)"

lemma quiet_up: "quiet_for n s \<Longrightarrow> up_for n s"
  by (simp add: quiet_for_def up_for_def quiet_env_def)

lemma quiet_served: "quiet_for (Suc n) s \<Longrightarrow> served s = cluster s"
  by (auto simp: quiet_for_def served_def quiet_env_def)

lemma quiet_for_mono: "quiet_for n s \<Longrightarrow> m \<le> n \<Longrightarrow> quiet_for m s"
  by (simp add: quiet_for_def)

lemma quiet_for_later:
  "quiet_for n s \<Longrightarrow> sched t = sched s \<Longrightarrow> clock t = clock s + k \<Longrightarrow> quiet_for (n - k) t"
  by (auto simp: quiet_for_def add.assoc)

lemma Get_quiet:
  assumes "quiet_for (Suc n) s"
  shows "Get store key s =
    (Ret (get_view (kv_lookup (cluster s) (key_path store key))), tick (cluster s) s)"
  using Get_up [OF quiet_up [OF assms]] quiet_served [OF assms] by simp

lemma kv_cas_current:
  assumes "consul_ok c"
  shows "\<exists>c'. kv_cas key (kv.version (kv_lookup c key)) v c = (True, c') \<and> consul_ok c' \<and>
    value_at c' = (value_at c)(key \<mapsto> v)"
proof -
  obtain b c' where w: "kv_cas key (kv.version (kv_lookup c key)) v c = (b, c')" by fastforce
  have b: "b = True"
    using kv.cas_decides [OF assms, of key "kv.version (kv_lookup c key)" v] w
    by (auto simp: kv.version_def split: option.splits)
  have "consul_ok c'"
    using kv.evolve_ok [OF assms kv.cas_evolves [OF assms]] w by (metis snd_conv)
  moreover have "value_at c' = (value_at c)(key \<mapsto> v)"
    using kv.cas_writes [OF assms w [unfolded b]] by (auto simp: value_at_def fun_eq_iff)
  ultimately show ?thesis using w b by blast
qed

lemma Put_quiet:
  assumes "net_ok s" and "quiet_for 2 s" and "length v \<le> maxKVSize"
    and "\<not> stale old (kv_lookup (cluster s) (key_path store k))"
  obtains s' where "Put store k v old s = (Ret OK, s')" "net_ok s'" "sched s' = sched s"
    "clock s' = clock s + 2" "value_at (cluster s') = (value_at (cluster s))(key_path store k \<mapsto> v)"
proof -
  let ?key = "key_path store k" and ?s1 = "tick (cluster s) s"
  have q: "quiet_for (Suc (Suc 0)) s" using assms(2) by (simp add: numeral_2_eq_2)
  have c: "served s = cluster s" by (rule quiet_served [OF q])
  have "quiet_for (Suc 0) ?s1" using quiet_for_later [OF q, of ?s1 1] by simp
  then have c1: "served ?s1 = cluster s" using quiet_served by fastforce
  obtain c' where "kv_cas ?key (kv.version (kv_lookup (cluster s) ?key)) v (cluster s) = (True, c')"
      "consul_ok c'" "value_at c' = (value_at (cluster s))(?key \<mapsto> v)"
    using kv_cas_current assms(1) unfolding net_ok_def by blast
  moreover from this Put_up [OF quiet_up [OF q] assms(3), of store k old]
  have "Put store k v old s = (Ret OK, tick c' ?s1)"
    using assms(4) by (simp add: c c1)
  ultimately show ?thesis using that [of "tick c' ?s1"] by (simp add: net_ok_def)
qed

text \<open>The value does not fit: the agent answers 413, which \<^verbatim>\<open>Put\<close> takes for success.\<close>

lemma Put_oversize:
  assumes "up_for 2 s" and "maxKVSize < length v"
    and "\<not> stale old (kv_lookup (served s) (key_path store k))"
  shows "Put store k v old s = (Ret OK, tick (served (tick (served s) s)) (tick (served s) s))"
proof -
  have up: "up_for (Suc (Suc 0)) s" using assms(1) by (simp add: numeral_2_eq_2)
  have up1: "up_for (Suc 0) (tick (served s) s)" by (rule up_for_tick [OF up])
  show ?thesis
    using Get_up [OF up, of store k] http_do_up [OF up1, of "HPutCas _ _ v"] assms(2,3)
    by (auto simp: Put_def gbind_def get_view_def stale_def KVSEndpoint_def KVSPut_handler_def
        text_resp_def gret_def split: option.splits)
qed

section \<open>A concrete start\<close>

text \<open>An empty store nobody else uses.\<close>

definition idle :: net where
  "idle = \<lparr>cluster = \<lparr>kvs = [], raft_index = 1\<rparr>, sched = (\<lambda>_. quiet_env), clock = 0\<rparr>"

lemma idle_simps [simp]:
  "net_ok idle" "quiet_for n idle" "value_at (cluster idle) k = None" "clock idle = 0"
  "kv_lookup (cluster idle) k = None"
  by (simp_all add: idle_def net_ok_def consul_ok_def quiet_for_def value_at_def kv_lookup_def)

text \<open>The same store holding one key.\<close>

definition holding :: "string \<Rightarrow> bytes \<Rightarrow> net" where
  "holding path v = idle\<lparr>cluster := \<lparr>kvs = [(path, (new_entry path 1 v)\<lparr>de_CreateIndex := 1\<rparr>)],
     raft_index = 1\<rparr>\<rparr>"

lemma holding_simps [simp]:
  "net_ok (holding path v)" "quiet_for n (holding path v)"
  "value_at (cluster (holding path v)) k = (if k = path then Some v else None)"
  "kv_lookup (cluster (holding path v)) k = (if k = path then Some (v, 1) else None)"
  by (simp_all add: holding_def net_ok_def consul_ok_def quiet_for_def value_at_def kv_lookup_def
      idle_def new_entry_def entry_ok_def)

section \<open>Optimistic writes\<close>

text \<open>
  C1. Let \<open>c\<close> be the store that serves the read of \<^verbatim>\<open>Put\<close> and \<open>c'\<close> the store that serves its write; what other
  clients committed in between is arbitrary. When the write is answered and the value fits an entry:
  an \<open>OK\<close> means that \<open>c'\<close> held the value the caller named as old or nothing, and that this call
  replaced it and touched no other key; \<open>OUTDATED\<close> means that \<open>c\<close> held another value, and it and \<open>ERROR\<close>
  mean that this call wrote nothing. When the read was answered too, found the old value or nothing,
  and the entry is still the same at the write, the result is \<open>OK\<close>.
\<close>

theorem Put_atomic:
  assumes "net_ok s" and "fault (sched s (Suc (clock s))) = Up" and "length v \<le> maxKVSize"
    and "Put store k v old s = (r, s')"
  shows "let key = key_path store k; c = served s; c' = served (tick c s) in
    r \<in> {Ret OK, Ret OUTDATED, Ret ERROR} \<and>
    (r = Ret OK \<longrightarrow> value_at c' key \<in> {None, Some old} \<and> value_at (cluster s') = (value_at c')(key \<mapsto> v)) \<and>
    (r = Ret OUTDATED \<longrightarrow> value_at c key \<notin> {None, Some old} \<and> cluster s' = c) \<and>
    (r = Ret ERROR \<longrightarrow> kv_lookup (cluster s') = kv_lookup c') \<and>
    (fault (sched s (clock s)) = Up \<and> value_at c key \<in> {None, Some old} \<and> kv_lookup c' key = kv_lookup c key \<longrightarrow> r = Ret OK)"
proof -
  define key where "key = key_path store k"
  define c where "c = served s"
  define c' where "c' = served (tick c s)"
  define w where "w = kv_cas key (kv.version (seen_at s key)) v c'"
  have P: "Put store k v old s = (if stale old (seen_at s key) then (Ret OUTDATED, tick c s)
       else (Ret (if fst w then OK else ERROR), tick (snd w) (tick c s)))"
    unfolding w_def c'_def c_def key_def by (rule Put_answered [OF assms(2,3)])
  have ev: "evolves c c'" using served_evolves [of "tick c s"] by (simp add: c'_def)
  have ok: "consul_ok c" using served_ok [OF assms(1)] by (simp add: c_def)
  have ok': "consul_ok c'" using kv.evolve_ok [OF ok ev] by blast
  have accepted: "kv_lookup c' key = seen_at s key" if "fst w"
  proof (cases "fault (sched s (clock s)) = Up")
    case True
    then have W: "kv_cas key (kv.version (kv_lookup c key)) v c' = (True, snd w)"
      using that unfolding w_def seen_at_def c_def by (metis prod.collapse)
    from kv.guarded_write(1) [OF ok ev W] True show ?thesis by (simp add: seen_at_def c_def)
  next
    case False
    then show ?thesis using that kv.cas_decides [OF ok', of key 0 v] kv.version_range [OF ok', of key]
      by (force simp: w_def seen_at_def kv.version_def split: option.splits)
  qed
  have written: "value_at (snd w) = (value_at c')(key \<mapsto> v)" if "fst w"
  proof -
    have "kv_cas key (kv.version (seen_at s key)) v c' = (True, snd w)" using that by (simp add: w_def prod_eq_iff)
    from kv.cas_writes [OF ok' this] show ?thesis by (auto simp: value_at_def fun_eq_iff)
  qed
  have refused: "kv_lookup (snd w) = kv_lookup c'" if "\<not> fst w"
    using kv.cas_refuses [OF ok', of key "kv.version (seen_at s key)" v "snd w"] that by (simp add: w_def prod_eq_iff)
  have current: "fst w" if "kv_lookup c' key = seen_at s key"
    using kv.cas_decides [OF ok', of key "kv.version (seen_at s key)" v] that
    by (auto simp: w_def kv.version_def split: option.splits)
  show ?thesis
    using P assms(4) accepted written refused current unfolding key_def [symmetric] c_def [symmetric] c'_def [symmetric] Let_def
    by (auto simp: stale_def value_at_def seen_at_def c_def split: if_splits option.splits)
qed

theorem Put_atomic_witness:
  "\<exists>s'. Put ''a'' ''b'' [1] [3] (holding (key_path ''a'' ''b'') [3]) = (Ret OK, s') \<and>
    value_at (cluster s') (key_path ''a'' ''b'') = Some [1]"
proof -
  let ?s = "holding (key_path ''a'' ''b'') [3]"
  obtain s' where P: "Put ''a'' ''b'' [1] [3] ?s = (Ret OK, s')"
    by (rule Put_quiet [of ?s "[1]" "[3]" "''a''" "''b''"]) (auto simp: maxKVSize_def stale_def)
  have "fault (sched ?s (Suc (clock ?s))) = Up" by (simp add: holding_def idle_def quiet_env_def)
  from Put_atomic [OF _ this _ P] P show ?thesis by (auto simp: maxKVSize_def Let_def)
qed

section \<open>Reading back\<close>

lemma Delete_quiet:
  assumes "net_ok s" and "quiet_for 1 s"
  obtains s' where "Delete store k s = (Ret OK, s')" "net_ok s'" "sched s' = sched s" "clock s' = clock s + 1"
    "value_at (cluster s') = (value_at (cluster s))(key_path store k := None)"
proof -
  let ?key = "key_path store k"
  let ?rq = "\<lparr>rq_Op = OpDelete, rq_DirEnt = new_entry ?key 0 []\<rparr>"
  let ?c = "snd (applyKVSOperation ?rq (cluster s))"
  have q: "quiet_for (Suc 0) s" using assms(2) by simp
  have "KVSEndpoint (HDelete ?key) (cluster s) = (text_resp 200 (json_bool True), ?c)"
    by (auto simp: KVSEndpoint_def KVSDelete_handler_def KVS_Apply_def new_entry_def split: prod.split)
  then have "Delete store k s = (Ret OK, tick ?c s)"
    using http_do_up [OF quiet_up [OF q], of "HDelete ?key"] quiet_served [OF q]
    by (simp add: Delete_def gbind_def gret_def)
  moreover have "consul_ok ?c" using assms(1) by (simp add: net_ok_def applyKVSOperation_ok)
  moreover have "value_at ?c = (value_at (cluster s))(?key := None)"
    by (auto simp: value_at_def kv_lookup_def applyKVSOperation_def KVSDelete_def new_entry_def Let_def
        fun_eq_iff split: option.splits)
  ultimately show ?thesis using that [of "tick ?c s"] by (simp add: net_ok_def)
qed

text \<open>
  C27. What was written is what is read back, byte for byte through the base64 text of the reply,
  until the key is deleted; then it is absent. Other keys keep their values throughout.
\<close>

theorem Put_Get_Delete_Get:
  assumes "net_ok s" and "quiet_for 5 s" and "length v \<le> maxKVSize"
    and "value_at (cluster s) (key_path store k) \<in> {None, Some old}"
  shows "\<exists>s1 s2 s3 m. Put store k v old s = (Ret OK, s1) \<and> Get store k s1 = (Ret (v, m, True), s2) \<and>
    Delete store k s2 = (Ret OK, s3) \<and> fst (Get store k s3) = Ret ([], 0, False) \<and>
    (\<forall>p. p \<noteq> key_path store k \<longrightarrow> value_at (cluster s3) p = value_at (cluster s) p)"
proof -
  let ?key = "key_path store k"
  have ns: "\<not> stale old (kv_lookup (cluster s) ?key)"
    using assms(4) by (auto simp: stale_def value_at_def split: option.splits)
  have q: "quiet_for 2 s" using assms(2) by (rule quiet_for_mono) simp
  obtain s1 where s1: "Put store k v old s = (Ret OK, s1)" "net_ok s1" "sched s1 = sched s" "clock s1 = clock s + 2"
      "value_at (cluster s1) = (value_at (cluster s))(?key \<mapsto> v)"
    by (rule Put_quiet [OF assms(1) q assms(3) ns])
  define s2 where "s2 = tick (cluster s1) s1"
  have q1: "quiet_for (Suc 2) s1" using quiet_for_later [OF assms(2) s1(3,4)] by (simp add: numeral_3_eq_3 numeral_2_eq_2)
  obtain m where m: "kv_lookup (cluster s1) ?key = Some (v, m)"
    using fun_cong [OF s1(5), of ?key] by (auto simp: value_at_def)
  then have g: "Get store k s1 = (Ret (v, m, True), s2)"
    using Get_quiet [OF q1, of store k] by (simp add: get_view_def s2_def)
  have q2: "quiet_for 2 s2" using quiet_for_later [OF q1, of s2 1] by (simp add: s2_def)
  have ok2: "net_ok s2" using s1(2) by (simp add: net_ok_def s2_def)
  obtain s3 where s3: "Delete store k s2 = (Ret OK, s3)" "sched s3 = sched s2" "clock s3 = clock s2 + 1"
      "value_at (cluster s3) = (value_at (cluster s2))(?key := None)"
    using Delete_quiet [OF ok2, of store k] quiet_for_mono [OF q2, of 1] by auto
  have q3: "quiet_for (Suc 0) s3" using quiet_for_later [OF q2 s3(2,3)] by simp
  have "kv_lookup (cluster s3) ?key = None"
    using fun_cong [OF s3(4), of ?key] by (simp add: value_at_def)
  then have "fst (Get store k s3) = Ret ([], 0, False)"
    using Get_quiet [OF q3, of store k] by (simp add: get_view_def)
  moreover have "value_at (cluster s3) p = value_at (cluster s) p" if "p \<noteq> ?key" for p
    using that s3(4) s1(5) by (simp add: s2_def)
  ultimately show ?thesis using s1(1) g s3(1) by blast
qed

theorem Put_Get_Delete_Get_witness:
  "\<exists>s1 s2 s3 m. Put ''st'' ''k'' [1, 2, 255] [] idle = (Ret OK, s1) \<and> Get ''st'' ''k'' s1 = (Ret ([1, 2, 255], m, True), s2) \<and>
    Delete ''st'' ''k'' s2 = (Ret OK, s3) \<and> fst (Get ''st'' ''k'' s3) = Ret ([], 0, False)"
  using Put_Get_Delete_Get [of idle "[1, 2, 255]" "''st''" "''k''" "[]"]
  by (simp add: maxKVSize_def) blast

end
