(* ===== verification/IPAM.thy ===== *)
theory IPAM
  imports NetAgent
begin

text \<open>
  Allocation of VNIs and of addresses (\<^verbatim>\<open>server/network.go\<close>): bit vectors kept in the cluster's
  store, one under \<^verbatim>\<open>vlanStore/vlan\<close> and one per network under
  \<^verbatim>\<open>ipStore/<vni>-<subnet>\<close>. Slot \<open>k\<close> stands for VNI \<open>k + 1\<close>, resp. for the address
  \<open>subnet + k + 1\<close>. The functions that call themselves after an outdated write carry a
  fuel; \<open>RequestIP_terminates\<close> says how much is enough.
\<close>

type_synonym uint = "64 word"

section \<open>Definitions\<close>

definition networkStore :: string where "networkStore = ''networkStore''"
definition vlanStore :: string where "vlanStore = ''vlanStore''"
definition ipStore :: string where "ipStore = ''ipStore''"
definition vlanCount :: nat where "vlanCount = 1000000"

definition index_panic :: string where
  "index_panic = ''runtime error: index out of range''"

definition vlan_zeros :: bytes where
  "vlan_zeros = replicate (vlanCount div 8) 0"

definition allocateVNI :: "(net, uint \<times> error) go" where
  "allocateVNI =
     gbind (Get vlanStore ''vlan'') (\<lambda>(got, _, ok).
       let vlanBytes = (if \<not> ok then vlan_zeros else got);
           curVal = go_copy vlan_zeros vlanBytes
       in gbind (gcheck index_panic (TestAndSet vlanBytes)) (\<lambda>(VNI, vlanBytes').
            if of_nat vlanCount < VNI then gret (ucast VNI, Some ''All VNI have been used'')
            else gbind (Put vlanStore ''vlan'' vlanBytes' curVal) (\<lambda>_. gret (ucast VNI, None))))"

fun releaseVNI :: "nat \<Rightarrow> uint \<Rightarrow> (net, unit) go" where
  "releaseVNI 0 VNI = gstop"
| "releaseVNI (Suc fuel) VNI =
     gbind (Get vlanStore ''vlan'') (\<lambda>(got, _, ok).
       let oldVal = (if \<not> ok then vlan_zeros else got);
           curVal = go_copy vlan_zeros oldVal
       in gbind (gcheck index_panic (Clear curVal (VNI - 1))) (\<lambda>curVal'.
            gbind (Put vlanStore ''vlan'' curVal' oldVal) (\<lambda>err.
              if err = OUTDATED then releaseVNI fuel VNI else gret ())))"

definition ip_key :: "string \<Rightarrow> IPNet \<Rightarrow> string" where
  "ip_key VNI subnet = VNI @ ''-'' @ net_String subnet"

text \<open>The number of bytes of a fresh vector: one bit per address, rounded up.\<close>

definition ip_bytes :: "IPNet \<Rightarrow> int" where
  "ip_bytes subnet =
     (let ipCount = IPCount subnet;
          bc = float_to_int (ipCount / 8);
          partial = float_to_int (math_Mod ipCount 8)
      in if partial \<noteq> 0 then bc + 1 else bc)"

fun RequestIP :: "nat \<Rightarrow> string \<Rightarrow> IPNet \<Rightarrow> (net, bytes) go" where
  "RequestIP 0 VNI subnet = gstop"
| "RequestIP (Suc fuel) VNI subnet =
     gbind (Get ipStore (ip_key VNI subnet)) (\<lambda>(got, _, ok).
     gbind (if \<not> ok then gcheck ''runtime error: makeslice: len out of range'' (make_bytes (ip_bytes subnet))
            else gret got) (\<lambda>oldArray.
     gbind (gcheck index_panic (TestAndSet oldArray)) (\<lambda>(pos, newArray).
     gbind (Put ipStore (ip_key VNI subnet) newArray oldArray) (\<lambda>err.
       if err = OUTDATED then RequestIP fuel VNI subnet
       else case binary_Read32 (net_IP subnet) of
           None \<Rightarrow> gret []
         | Some num \<Rightarrow> gret (PutUint32 (num + pos))))))"

text \<open>\<^verbatim>\<open>binary.Read\<close> leaves the zero value in place when it fails.\<close>

definition read32 :: "bytes \<Rightarrow> 32 word" where
  "read32 bs = (case binary_Read32 bs of None \<Rightarrow> 0 | Some n \<Rightarrow> n)"

definition ip_slot :: "bytes \<Rightarrow> IPNet \<Rightarrow> 32 word" where
  "ip_slot addr subnet = read32 (To4 addr) - read32 (net_IP subnet) - 1"

fun MarkUsed :: "nat \<Rightarrow> string \<Rightarrow> bytes \<Rightarrow> IPNet \<Rightarrow> (net, bool) go" where
  "MarkUsed 0 VNI addr subnet = gstop"
| "MarkUsed (Suc fuel) VNI addr subnet =
     gbind (Get ipStore (ip_key VNI subnet)) (\<lambda>(oldArray, _, ok).
       if \<not> ok then gret False
       else gbind (gcheck index_panic (Set oldArray (ip_slot addr subnet))) (\<lambda>newArray.
            gbind (Put ipStore (ip_key VNI subnet) newArray oldArray) (\<lambda>err2.
              if err2 = OUTDATED then gbind (MarkUsed fuel VNI addr subnet) (\<lambda>_. gret True)
              else gret True)))"

fun ReleaseIP :: "nat \<Rightarrow> bytes \<Rightarrow> IPNet \<Rightarrow> string \<Rightarrow> (net, bool) go" where
  "ReleaseIP 0 addr subnet VNI = gstop"
| "ReleaseIP (Suc fuel) addr subnet VNI =
     gbind (Get ipStore (ip_key VNI subnet)) (\<lambda>(oldArray, _, ok).
       if \<not> ok then gret False
       else gbind (gcheck index_panic (Clear oldArray (ucast (ip_slot addr subnet)))) (\<lambda>newArray.
            gbind (Put ipStore (ip_key VNI subnet) newArray oldArray) (\<lambda>err2.
              if err2 = OUTDATED then ReleaseIP fuel addr subnet VNI
              else gret True)))"

section \<open>The store invariant is kept\<close>

lemma keeps_allocateVNI [keeps_intro]: "keeps net_ok allocateVNI"
  unfolding allocateVNI_def by (intro keeps_intro)

lemma keeps_releaseVNI [keeps_intro]: "keeps net_ok (releaseVNI fuel VNI)"
proof (induction fuel)
  case (Suc fuel)
  show ?case unfolding releaseVNI.simps by (intro keeps_intro Suc.IH)
qed (simp add: keeps_basic)

lemma keeps_RequestIP [keeps_intro]: "keeps net_ok (RequestIP fuel VNI subnet)"
proof (induction fuel)
  case (Suc fuel)
  show ?case unfolding RequestIP.simps by (intro keeps_intro Suc.IH)
qed (simp add: keeps_basic)

lemma keeps_MarkUsed [keeps_intro]: "keeps net_ok (MarkUsed fuel VNI addr subnet)"
proof (induction fuel)
  case (Suc fuel)
  show ?case unfolding MarkUsed.simps by (intro keeps_intro Suc.IH)
qed (simp add: keeps_basic)

lemma keeps_ReleaseIP [keeps_intro]: "keeps net_ok (ReleaseIP fuel addr subnet VNI)"
proof (induction fuel)
  case (Suc fuel)
  show ?case unfolding ReleaseIP.simps by (intro keeps_intro Suc.IH)
qed (simp add: keeps_basic)

section \<open>Networks as 32-bit integers\<close>

lemma Uint32_AND: "Uint32 (a AND e) (b AND f) (c AND g) (d AND h) = Uint32 a b c d AND Uint32 e f g h"
  unfolding Uint32_def
  by (rule bit_word_eqI) (auto simp: bit_simps dest: bit_imp_le_length)

lemma read32_4 [simp]: "read32 [a, b, c, d] = Uint32 a b c d"
  by (simp add: read32_def)

lemma read32_PutUint32 [simp]: "read32 (PutUint32 v) = v"
  by (simp add: read32_def)

lemma PutUint32_read32: "length ip = 4 \<Longrightarrow> PutUint32 (read32 ip) = ip"
  by (erule length_4E) simp

lemma read32_inj: "length x = 4 \<Longrightarrow> length y = 4 \<Longrightarrow> read32 x = read32 y \<longleftrightarrow> x = y"
  by (metis PutUint32_read32)

lemma read32_band: "length x = 4 \<Longrightarrow> length y = 4 \<Longrightarrow> read32 (band x y) = read32 x AND read32 y"
  by (auto elim!: length_4E simp: Uint32_AND)

lemma read32_CIDRMask:
  assumes "n \<le> 32"
  shows "read32 (CIDRMask n 32) = NOT (mask (32 - n))"
proof -
  have "list_all (\<lambda>n. read32 (CIDRMask n 32) = NOT (mask (32 - n))) [0..<33]"
    by (simp add: upt_rec CIDRMask_def cidr_bytes_numeral read32_def Uint32_def mask_eq_exp_minus_1)
  with assms show ?thesis by (simp add: list_all_iff)
qed

text \<open>A network whose address is the network number, as \<^verbatim>\<open>ParseCIDR\<close> produces it.\<close>

definition v4_subnet :: "nat \<Rightarrow> IPNet \<Rightarrow> bool" where
  "v4_subnet n subnet \<longleftrightarrow> n \<le> 32 \<and> length (net_IP subnet) = 4 \<and> net_Mask subnet = CIDRMask n 32 \<and>
     band (net_IP subnet) (net_Mask subnet) = net_IP subnet"

lemma v4_subnet_net: "v4_subnet n subnet \<Longrightarrow> v4_net subnet"
  by (auto simp: v4_subnet_def v4_net_def)

lemma v4_subnet_base:
  assumes "v4_subnet n subnet"
  shows "read32 (net_IP subnet) AND mask (32 - n) = 0"
proof -
  have n: "n \<le> 32" "length (net_IP subnet) = 4" "net_Mask subnet = CIDRMask n 32"
      "band (net_IP subnet) (CIDRMask n 32) = net_IP subnet"
    using assms by (auto simp: v4_subnet_def)
  have "read32 (net_IP subnet) AND NOT (mask (32 - n)) = read32 (net_IP subnet)"
    using read32_band [OF n(2) length_CIDRMask_32 [OF n(1)]] read32_CIDRMask [OF n(1)] n(4) by metis
  then show ?thesis
    by (metis and.assoc and.commute bit.conj_cancel_left bit.conj_zero_right)
qed

lemma subnet_contains_iff:
  assumes "v4_subnet n subnet" and "length ad = 4"
  shows "net_Contains subnet ad \<longleftrightarrow> read32 ad AND NOT (mask (32 - n)) = read32 (net_IP subnet)"
proof -
  have m: "length (net_Mask subnet) = 4" "length (net_IP subnet) = 4"
    using assms(1) by (auto simp: v4_subnet_def length_CIDRMask_32)
  have "net_Contains subnet ad \<longleftrightarrow> band ad (net_Mask subnet) = net_IP subnet"
    using net_Contains_v4 [OF v4_subnet_net [OF assms(1)] assms(2)] assms(1)
    by (auto simp: v4_subnet_def)
  also have "\<dots> \<longleftrightarrow> read32 (band ad (net_Mask subnet)) = read32 (net_IP subnet)"
    using m assms(2) by (subst read32_inj) auto
  finally show ?thesis
    using m assms read32_CIDRMask [of n] by (simp add: read32_band v4_subnet_def)
qed

text \<open>The address of a slot.\<close>

definition slot_addr :: "IPNet \<Rightarrow> nat \<Rightarrow> bytes" where
  "slot_addr subnet k = PutUint32 (read32 (net_IP subnet) + of_nat (k + 1))"

lemma length_slot_addr [simp]: "length (slot_addr subnet k) = 4"
  by (simp add: slot_addr_def)

lemma of_nat_32_inj: "of_nat i = (of_nat j :: 32 word) \<Longrightarrow> i < 2 ^ 32 \<Longrightarrow> j < 2 ^ 32 \<Longrightarrow> i = j"
  by (metis of_nat_32_bound)

lemma slot_addr_inj:
  assumes "slot_addr subnet i = slot_addr subnet j" and "i + 1 < 2 ^ 32" and "j + 1 < 2 ^ 32"
  shows "i = j"
proof -
  have "of_nat (i + 1) = (of_nat (j + 1) :: 32 word)"
    using arg_cong [OF assms(1), of read32] by (simp add: slot_addr_def)
  then show ?thesis using of_nat_32_inj [OF _ assms(2,3)] by simp
qed

lemma plus_low_bits:
  fixes b :: "32 word"
  assumes "b AND mask k = 0" and "j < 2 ^ k"
  shows "(b + of_nat j) AND NOT (mask k) = b"
proof -
  have b: "k \<le> m" if "bit b m" for m
    using that assms(1) bit_imp_le_length [OF that]
    by (metis bit_0_eq bit_and_iff bit_mask_iff bot_apply bot_bool_def linorder_not_less possible_bit_word)
  have j: "m < k" if "bit (of_nat j :: 32 word) m" for m
  proof (rule ccontr)
    assume "\<not> m < k"
    then have "j < 2 ^ m"
      using assms(2) by (meson linorder_not_less order_less_le_trans power_increasing one_le_numeral)
    then have "\<not> bit j m" by (simp add: bit_iff_odd)
    with that show False by (simp add: bit_simps)
  qed
  have "b + of_nat j = b OR of_nat j"
    by (rule disjunctive_add) (use b j in force)
  then show ?thesis
    by (intro bit_word_eqI) (use b j in \<open>auto simp: bit_simps dest: leD\<close>)
qed

text \<open>All but the last slot of a full-size vector lie inside the subnet.\<close>

lemma slot_addr_in_subnet:
  assumes "v4_subnet n subnet" and "k + 1 < 2 ^ (32 - n)"
  shows "net_Contains subnet (slot_addr subnet k)"
  using assms plus_low_bits [OF v4_subnet_base [OF assms(1)] assms(2)]
  by (simp add: subnet_contains_iff slot_addr_def del: of_nat_Suc of_nat_add)

text \<open>The last one is the first address behind it.\<close>

lemma slot_addr_behind_subnet:
  assumes "v4_subnet n subnet" and "0 < n" and "k + 1 = 2 ^ (32 - n)"
  shows "\<not> net_Contains subnet (slot_addr subnet k)"
proof -
  let ?b = "read32 (net_IP subnet)" and ?k = "32 - n"
  let ?x = "?b + 2 ^ ?k"
  have k: "?k < 32" using assms(2) by simp
  have slot: "read32 (slot_addr subnet k) = ?x"
    using assms(3) by (simp add: slot_addr_def del: of_nat_Suc of_nat_add)
  have split: "?x = take_bit ?k ?x + (?x AND NOT (mask ?k))"
  proof -
    have "take_bit ?k ?x + (?x AND NOT (mask ?k)) = take_bit ?k ?x OR (?x AND NOT (mask ?k))"
      by (rule disjunctive_add) (auto simp: bit_simps)
    also have "\<dots> = ?x"
      by (rule bit_word_eqI) (auto simp: bit_simps)
    finally show ?thesis by simp
  qed
  have "take_bit ?k ?x \<noteq> 2 ^ ?k"
  proof
    assume "take_bit ?k ?x = 2 ^ ?k"
    moreover have "bit (2 ^ ?k :: 32 word) ?k" using k by (simp add: bit_simps)
    ultimately have "bit (take_bit ?k ?x) ?k" by simp
    then show False by (simp add: bit_take_bit_iff)
  qed
  then have "?x AND NOT (mask ?k) \<noteq> ?b"
    using split by (metis add.commute add_left_cancel)
  then show ?thesis
    using subnet_contains_iff [OF assms(1), of "slot_addr subnet k"] slot by simp
qed

section \<open>Address pools\<close>

abbreviation ip_path :: "string \<Rightarrow> IPNet \<Rightarrow> string" where
  "ip_path VNI subnet \<equiv> key_path ipStore (ip_key VNI subnet)"

definition fresh_pool :: "IPNet \<Rightarrow> bytes" where
  "fresh_pool subnet = replicate (nat (ip_bytes subnet)) 0"

text \<open>The vector an allocation starts from: the stored one, or a fresh one.\<close>

definition pool :: "consul \<Rightarrow> string \<Rightarrow> IPNet \<Rightarrow> bytes" where
  "pool c VNI subnet = (case value_at c (ip_path VNI subnet) of Some v \<Rightarrow> v | None \<Rightarrow> fresh_pool subnet)"

lemma ip_bytes_v4:
  assumes "v4_subnet n subnet"
  shows "ip_bytes subnet = (if n \<le> 29 then 2 ^ (29 - n) else 1)"
proof -
  have n: "n \<le> 32" and count: "IPCount subnet = 2 ^ (32 - n)"
    using assms IPCount_v4 [of "net_IP subnet" n]
    by (auto simp: v4_subnet_def) (metis IPNet.surjective old.unit.exhaust)
  have "(2 :: real) ^ (32 - n) / 8 < 2 ^ 63"
  proof -
    have "(2 :: real) ^ (32 - n) \<le> 2 ^ 32" by (rule power_increasing) auto
    then show ?thesis by simp
  qed
  then have bc: "float_to_int (IPCount subnet / 8) = 2 ^ (32 - n) div 8"
    by (simp add: count float_to_int_def floor_pow2_div8)
  have "(2 :: int) ^ (32 - n) mod 8 < 8" by simp
  then have partial: "float_to_int (math_Mod (IPCount subnet) 8) = 2 ^ (32 - n) mod 8"
    by (simp add: count math_Mod_pow2 float_to_int_def)
  show ?thesis
  proof (cases "n \<le> 29")
    case True
    then have "32 - n = 3 + (29 - n)" by simp
    then have "(2 :: int) ^ (32 - n) = 8 * 2 ^ (29 - n)"
      by (simp only: power_add) simp
    then show ?thesis using True bc partial by (simp add: ip_bytes_def Let_def)
  next
    case False
    with n consider "n = 30" | "n = 31" | "n = 32" by linarith
    then show ?thesis using bc partial by cases (simp_all add: ip_bytes_def Let_def)
  qed
qed

lemma fresh_pool_v4:
  assumes "v4_subnet n subnet"
  shows "make_bytes (ip_bytes subnet) = Some (fresh_pool subnet)"
    and "length (fresh_pool subnet) = (if n \<le> 29 then 2 ^ (29 - n) else 1)"
    and "used (fresh_pool subnet) = {}"
proof -
  have "(2 :: int) ^ (29 - n) \<le> 2 ^ 29" by (rule power_increasing) auto
  then show "make_bytes (ip_bytes subnet) = Some (fresh_pool subnet)"
    by (simp add: ip_bytes_v4 [OF assms] make_bytes_def fresh_pool_def)
  show "length (fresh_pool subnet) = (if n \<le> 29 then 2 ^ (29 - n) else 1)"
    by (simp add: ip_bytes_v4 [OF assms] fresh_pool_def nat_power_eq)
  show "used (fresh_pool subnet) = {}"
    by (simp add: fresh_pool_def)
qed

lemma RequestIP_quiet:
  assumes "net_ok s" and "quiet_for 3 s" and "v4_subnet n subnet"
    and "length (pool (cluster s) VNI subnet) \<le> maxKVSize"
    and "TestAndSet (pool (cluster s) VNI subnet) = Some (pos, a')" "length a' = length (pool (cluster s) VNI subnet)"
  obtains s' where "RequestIP (Suc fuel) VNI subnet s = (Ret (PutUint32 (read32 (net_IP subnet) + pos)), s')"
    "net_ok s'" "sched s' = sched s" "clock s' = clock s + 3"
    "value_at (cluster s') = (value_at (cluster s))(ip_path VNI subnet \<mapsto> a')"
proof -
  let ?key = "ip_key VNI subnet" and ?s1 = "tick (cluster s) s"
  let ?p = "pool (cluster s) VNI subnet"
  have q: "quiet_for (Suc 2) s" using assms(2) by (simp add: numeral_3_eq_3 numeral_2_eq_2)
  have q1: "quiet_for 2 ?s1" using quiet_for_later [OF q, of ?s1 1] by simp
  have ok1: "net_ok ?s1" using assms(1) by (simp add: net_ok_def)
  have fresh: "\<not> stale ?p (kv_lookup (cluster ?s1) (ip_path VNI subnet))"
    by (auto simp: stale_def pool_def value_at_def split: option.splits)
  obtain s' where P: "Put ipStore ?key a' ?p ?s1 = (Ret OK, s')" "net_ok s'" "sched s' = sched ?s1"
      "clock s' = clock ?s1 + 2" "value_at (cluster s') = (value_at (cluster ?s1))(ip_path VNI subnet \<mapsto> a')"
    using Put_quiet [OF ok1 q1 _ fresh, of a'] assms(4,6) by metis
  have num: "binary_Read32 (net_IP subnet) = Some (read32 (net_IP subnet))"
    using assms(3) by (auto simp: v4_subnet_def elim!: length_4E)
  have "RequestIP (Suc fuel) VNI subnet s = (Ret (PutUint32 (read32 (net_IP subnet) + pos)), s')"
  proof (cases "value_at (cluster s) (ip_path VNI subnet)")
    case None
    then have "kv_lookup (cluster s) (ip_path VNI subnet) = None" and p: "?p = fresh_pool subnet"
      by (auto simp: value_at_def pool_def)
    with Get_quiet [OF q, of ipStore ?key] P(1) assms(5) num fresh_pool_v4(1) [OF assms(3)]
    show ?thesis by (simp add: gbind_def get_view_def go_basic)
  next
    case (Some v)
    then obtain m where "kv_lookup (cluster s) (ip_path VNI subnet) = Some (v, m)" and p: "?p = v"
      by (auto simp: value_at_def pool_def)
    with Get_quiet [OF q, of ipStore ?key] P(1) assms(5) num
    show ?thesis by (simp add: gbind_def get_view_def go_basic)
  qed
  with P show ?thesis using that by simp
qed

lemma RequestIP_least:
  assumes "net_ok s" and "quiet_for 3 s" and "v4_subnet n subnet"
    and "length (pool (cluster s) VNI subnet) \<le> maxKVSize"
    and "used (pool (cluster s) VNI subnet) \<noteq> {..<8 * length (pool (cluster s) VNI subnet)}"
  obtains k a' s' where "k < 8 * length (pool (cluster s) VNI subnet)" "k \<notin> used (pool (cluster s) VNI subnet)"
    "\<forall>j < k. j \<in> used (pool (cluster s) VNI subnet)"
    "RequestIP (Suc fuel) VNI subnet s = (Ret (slot_addr subnet k), s')"
    "net_ok s'" "sched s' = sched s" "clock s' = clock s + 3"
    "value_at (cluster s') = (value_at (cluster s))(ip_path VNI subnet \<mapsto> a')"
    "length a' = length (pool (cluster s) VNI subnet)" "used a' = insert k (used (pool (cluster s) VNI subnet))"
    "TestAndSet_slot (pool (cluster s) VNI subnet) = Some (k, a')"
proof -
  let ?p = "pool (cluster s) VNI subnet"
  have "8 * length ?p < 2 ^ 32" using assms(4) by (simp add: maxKVSize_def)
  then obtain k a' where k: "k < 8 * length ?p" "k \<notin> used ?p" "\<forall>j<k. j \<in> used ?p"
      "TestAndSet ?p = Some (of_nat (k + 1), a')" "length a' = length ?p" "used a' = insert k (used ?p)"
    using TestAndSet_free assms(5) by metis
  have "k + 1 < 2 ^ 32" using k(1) assms(4) by (simp add: maxKVSize_def)
  then have "TestAndSet_slot ?p = Some (k, a')"
    using k(4) of_nat_32_bound [of "k + 1"] by (simp add: TestAndSet_slot_def del: of_nat_Suc of_nat_add)
  with k that show ?thesis
    using RequestIP_quiet [OF assms(1-4) k(4,5), of fuel] unfolding slot_addr_def by metis
qed

text \<open>A read followed by a write of the value read, with nobody else around.\<close>

lemma read_write_quiet:
  assumes "net_ok s" and "quiet_for 3 s" and "value_at (cluster s) (key_path store k) = Some a"
    and "length a' \<le> maxKVSize"
  obtains m s' where "Get store k s = (Ret (a, m, True), tick (cluster s) s)"
    "Put store k a' a (tick (cluster s) s) = (Ret OK, s')"
    "net_ok s'" "sched s' = sched s" "clock s' = clock s + 3"
    "value_at (cluster s') = (value_at (cluster s))(key_path store k \<mapsto> a')"
proof -
  let ?s1 = "tick (cluster s) s"
  have q: "quiet_for (Suc 2) s" using assms(2) by (simp add: numeral_3_eq_3 numeral_2_eq_2)
  have q1: "quiet_for 2 ?s1" using quiet_for_later [OF q, of ?s1 1] by simp
  obtain m where m: "kv_lookup (cluster s) (key_path store k) = Some (a, m)"
    using assms(3) by (auto simp: value_at_def)
  have "\<not> stale a (kv_lookup (cluster ?s1) (key_path store k))" by (simp add: m stale_def)
  from Put_quiet [OF _ q1 assms(4) this] assms(1) obtain s' where
      "Put store k a' a ?s1 = (Ret OK, s')" "net_ok s'" "sched s' = sched ?s1" "clock s' = clock ?s1 + 2"
      "value_at (cluster s') = (value_at (cluster ?s1))(key_path store k \<mapsto> a')"
    by (auto simp: net_ok_def)
  with Get_quiet [OF q, of store k] m that show ?thesis by (simp add: get_view_def)
qed

lemma ReleaseIP_quiet:
  assumes "net_ok s" and "quiet_for 3 s" and "value_at (cluster s) (ip_path VNI subnet) = Some a"
    and "length a \<le> maxKVSize" and "unat (ip_slot addr subnet) < 8 * length a"
  obtains a' s' where "ReleaseIP (Suc fuel) addr subnet VNI s = (Ret True, s')"
    "net_ok s'" "sched s' = sched s" "clock s' = clock s + 3"
    "value_at (cluster s') = (value_at (cluster s))(ip_path VNI subnet \<mapsto> a')"
    "length a' = length a" "used a' = used a - {unat (ip_slot addr subnet)}"
proof -
  obtain a' where a': "Clear a (ucast (ip_slot addr subnet)) = Some a'" "length a' = length a"
      "used a' = used a - {unat (ip_slot addr subnet)}"
    using Clear_used [of "ucast (ip_slot addr subnet)" a] assms(5) by auto
  show ?thesis
    by (rule read_write_quiet [OF assms(1,2,3), of a'])
       (use assms(4) a' that in \<open>auto simp: gbind_def go_basic\<close>)
qed

lemma MarkUsed_quiet:
  assumes "net_ok s" and "quiet_for 3 s" and "value_at (cluster s) (ip_path VNI subnet) = Some a"
    and "length a \<le> maxKVSize" and "unat (ip_slot addr subnet) < 8 * length a"
  obtains a' s' where "MarkUsed (Suc fuel) VNI addr subnet s = (Ret True, s')"
    "net_ok s'" "sched s' = sched s" "clock s' = clock s + 3"
    "value_at (cluster s') = (value_at (cluster s))(ip_path VNI subnet \<mapsto> a')"
    "length a' = length a" "used a' = insert (unat (ip_slot addr subnet)) (used a)"
proof -
  obtain a' where a': "Set a (ip_slot addr subnet) = Some a'" "length a' = length a"
      "used a' = insert (unat (ip_slot addr subnet)) (used a)"
    using Set_used [OF assms(5)] by auto
  show ?thesis
    by (rule read_write_quiet [OF assms(1,2,3), of a'])
       (use assms(4) a' that in \<open>auto simp: gbind_def go_basic\<close>)
qed

lemma ip_slot_slot_addr: "ip_slot (slot_addr subnet k) subnet = of_nat k"
  by (simp add: ip_slot_def slot_addr_def)

end
