(* ===== verification/Watch.thy ===== *)
theory Watch
  imports NetAgent "HOL-Library.AList"
begin

text \<open>
  The watch part of \<^verbatim>\<open>netAgent/netAgent.go\<close>: the registry of listeners, the watch plans and the
  notifications they lead to, together with the loop of Consul's \<^verbatim>\<open>WatchPlan.Run\<close>
  (\<^verbatim>\<open>watch/plan.go\<close>) that drives the handlers. Plans are shared between the registry and the
  goroutine that runs them, so they live in a heap and the registry holds their
  addresses. Calls of a listener's methods are returned as the list of calls, in order.
  A Go map is an association list: the order in which \<^verbatim>\<open>range\<close> visits it is not determined
  by the language, and no statement below depends on it.
\<close>

section \<open>Types\<close>

datatype NotifyUpdateType = NOTIFY_UPDATE_ADD | NOTIFY_UPDATE_MODIFY | NOTIFY_UPDATE_DELETE

datatype WatchType = WATCH_TYPE_NODE | WATCH_TYPE_KEY | WATCH_TYPE_STORE | WATCH_TYPE_EVENT

record KVPair =
  kp_Key :: string
  kp_CreateIndex :: nat
  kp_Value :: bytes

datatype watch_params = NodesParams | KeyParams string | KeyPrefixParams string

datatype watch_data = NodesData "Node list" | KeyData "KVPair option" | PairsData "KVPair list"

text \<open>What a listener is told.\<close>

datatype notification =
    NotifyNodeUpdate NotifyUpdateType string
  | NotifyKeyUpdate NotifyUpdateType string bytes

record WatchPlan =
  wp_params :: watch_params
  wp_lastIndex :: nat
  wp_lastResult :: "watch_data option"
  wp_stop :: bool

record 'l watchData =
  wd_listeners :: "(string \<times> 'l list) list"
  wd_watchPlans :: "nat list"

record 'l watch_state =
  watches :: "(WatchType \<times> 'l watchData) list"
  nodeCache :: "Node list"
  plans :: "WatchPlan list"

definition watch_init :: "'l watch_state" where
  "watch_init = \<lparr>watches = [], nodeCache = [], plans = []\<rparr>"

section \<open>The registry\<close>

definition contains :: "WatchType \<Rightarrow> string \<Rightarrow> 'l \<Rightarrow> 'l watch_state \<Rightarrow> bool" where
  "contains wType key elem st = (case map_of (watches st) wType of
      None \<Rightarrow> False
    | Some ws \<Rightarrow> (case map_of (wd_listeners ws) key of
        None \<Rightarrow> False
      | Some l \<Rightarrow> elem \<in> set l))"

text \<open>The duplicate check looks at the node listeners, whatever type is being registered.\<close>

definition addListener :: "WatchType \<Rightarrow> string \<Rightarrow> 'l \<Rightarrow> 'l watch_state \<Rightarrow> bool \<times> 'l watch_state" where
  "addListener wtype key listener st =
     (if \<not> contains WATCH_TYPE_NODE key listener st then
        (let ws = (case map_of (watches st) wtype of
                Some ws \<Rightarrow> ws
              | None \<Rightarrow> \<lparr>wd_listeners = [], wd_watchPlans = []\<rparr>);
             (listeners, wc) = (case map_of (wd_listeners ws) key of
                Some l \<Rightarrow> (l, False)
              | None \<Rightarrow> ([], True));
             ws' = ws\<lparr>wd_listeners := AList.update key (listeners @ [listener]) (wd_listeners ws)\<rparr>
         in (wc, st\<lparr>watches := AList.update wtype ws' (watches st)\<rparr>))
      else (False, st))"

definition getListeners :: "WatchType \<Rightarrow> string \<Rightarrow> 'l watch_state \<Rightarrow> 'l list" where
  "getListeners wtype key st = (case map_of (watches st) wtype of
      None \<Rightarrow> []
    | Some ws \<Rightarrow> (case map_of (wd_listeners ws) key of None \<Rightarrow> [] | Some l \<Rightarrow> l))"

definition addWatchPlan :: "WatchType \<Rightarrow> nat \<Rightarrow> 'l watch_state \<Rightarrow> 'l watch_state" where
  "addWatchPlan wtype wp st = (case map_of (watches st) wtype of
      None \<Rightarrow> st
    | Some ws \<Rightarrow> st\<lparr>watches := AList.update wtype (ws\<lparr>wd_watchPlans := wd_watchPlans ws @ [wp]\<rparr>) (watches st)\<rparr>)"

definition plan_Stop :: "nat \<Rightarrow> WatchPlan list \<Rightarrow> WatchPlan list" where
  "plan_Stop a h = (if a < length h then h[a := (h ! a)\<lparr>wp_stop := True\<rparr>] else h)"

text \<open>
  \<^verbatim>\<open>stopWatches\<close> stops every plan; the truncation of \<^verbatim>\<open>ws.watchPlans\<close> acts on the loop's copy of
  the map entry and is lost.
\<close>

definition stopWatches :: "'l watch_state \<Rightarrow> 'l watch_state" where
  "stopWatches st = st\<lparr>plans := fold (\<lambda>(_, ws). fold plan_Stop (wd_watchPlans ws)) (watches st) (plans st)\<rparr>"

text \<open>\<^verbatim>\<open>watch.Parse\<close> on the parameters the program passes, and \<^verbatim>\<open>register\<close> up to the start of \<^verbatim>\<open>wp.Run\<close>.\<close>

definition watch_Parse :: "watch_params \<Rightarrow> string + WatchPlan" where
  "watch_Parse p =
     (let plan = \<lparr>wp_params = p, wp_lastIndex = 0, wp_lastResult = None, wp_stop = False\<rparr> in
      case p of
        NodesParams \<Rightarrow> Inr plan
      | KeyParams key \<Rightarrow> if key = [] then Inl ''Must specify a single key to watch'' else Inr plan
      | KeyPrefixParams pre \<Rightarrow> if pre = [] then Inl ''Must specify a single prefix to watch'' else Inr plan)"

definition register :: "WatchType \<Rightarrow> watch_params \<Rightarrow> 'l watch_state \<Rightarrow> 'l watch_state" where
  "register wtype params st = (case watch_Parse params of
      Inl err \<Rightarrow> st
    | Inr wp \<Rightarrow> addWatchPlan wtype (length (plans st)) (st\<lparr>plans := plans st @ [wp]\<rparr>))"

definition registerForNodeUpdates :: "'l watch_state \<Rightarrow> 'l watch_state" where
  "registerForNodeUpdates = register WATCH_TYPE_NODE NodesParams"

definition registerForKeyUpdates :: "string \<Rightarrow> 'l watch_state \<Rightarrow> 'l watch_state" where
  "registerForKeyUpdates absKey = register WATCH_TYPE_KEY (KeyParams absKey)"

definition registerForStoreUpdates :: "string \<Rightarrow> 'l watch_state \<Rightarrow> 'l watch_state" where
  "registerForStoreUpdates store = register WATCH_TYPE_STORE (KeyPrefixParams (store @ ''/''))"

definition RegisterForNodeUpdates :: "'l \<Rightarrow> 'l watch_state \<Rightarrow> 'l watch_state" where
  "RegisterForNodeUpdates listener st =
     (let (wc, st') = addListener WATCH_TYPE_NODE [] listener st
      in if wc then registerForNodeUpdates st' else st')"

definition RegisterForKeyUpdates :: "string \<Rightarrow> string \<Rightarrow> 'l \<Rightarrow> 'l watch_state \<Rightarrow> 'l watch_state" where
  "RegisterForKeyUpdates store key listener st =
     (let absKey = store @ ''/'' @ key;
          (wc, st') = addListener WATCH_TYPE_KEY absKey listener st
      in if wc then registerForKeyUpdates absKey st' else st')"

definition RegisterForStoreUpdates :: "string \<Rightarrow> 'l \<Rightarrow> 'l watch_state \<Rightarrow> 'l watch_state" where
  "RegisterForStoreUpdates store listener st =
     (let (wc, st') = addListener WATCH_TYPE_STORE store listener st
      in if wc then registerForStoreUpdates store st' else st')"

definition watchForExistingRegisteredUpdates :: "'l watch_state \<Rightarrow> 'l watch_state" where
  "watchForExistingRegisteredUpdates st =
     fold (\<lambda>(wType, ws). fold (\<lambda>(key, _). case wType of
         WATCH_TYPE_NODE \<Rightarrow> registerForNodeUpdates
       | WATCH_TYPE_KEY \<Rightarrow> registerForKeyUpdates key
       | WATCH_TYPE_STORE \<Rightarrow> registerForStoreUpdates key
       | WATCH_TYPE_EVENT \<Rightarrow> id) (wd_listeners ws)) (watches st) st"

text \<open>
  \<^verbatim>\<open>StartAgent\<close>: \<open>iface\<close> is \<^verbatim>\<open>net.InterfaceByName\<close> with the addresses of the interface (an error
  ends the process through \<^verbatim>\<open>glog.Fatalf\<close>), \<open>early\<close> says whether the command line returned
  before the five seconds of the \<^verbatim>\<open>select\<close> were over. Result: the arguments the agent was
  started with and the error.
\<close>

definition StartAgent ::
  "(string \<Rightarrow> string + (string + string list)) \<Rightarrow> bool \<Rightarrow> bool \<Rightarrow> string \<Rightarrow> string \<Rightarrow> string
   \<Rightarrow> ('l watch_state, string list \<times> error) go" where
  "StartAgent iface early serverMode expectServerNum bindInterface dataDir =
     (let finish = (\<lambda>bindAddr st. (Ret (startConsul_args serverMode expectServerNum bindAddr dataDir,
                      if early then Some ''Error start net agent'' else None),
                      watchForExistingRegisteredUpdates st))
      in if bindInterface = [] then finish []
         else case iface bindInterface of
             Inl e \<Rightarrow> gpanic (''Error : '' @ e)
           | Inr (Inl _) \<Rightarrow> finish []
           | Inr (Inr addrs) \<Rightarrow> finish (bind_addr addrs []))"

section \<open>Notifications\<close>

text \<open>\<^verbatim>\<open>X - Y\<close>, by address.\<close>

definition compare_nodes :: "Node list \<Rightarrow> Node list \<Rightarrow> Node list" where
  "compare_nodes X Y = (let m = set (map node_Address Y) in filter (\<lambda>x. node_Address x \<notin> m) X)"

definition updateNodeListeners :: "Node list \<Rightarrow> 'l watch_state \<Rightarrow> ('l \<times> notification) list \<times> 'l watch_state" where
  "updateNodeListeners clusterNodes st =
     (let toDelete = compare_nodes (nodeCache st) clusterNodes;
          toAdd = compare_nodes clusterNodes (nodeCache st);
          st' = st\<lparr>nodeCache := clusterNodes\<rparr>;
          listeners = getListeners WATCH_TYPE_NODE [] st'
      in (concat (map (\<lambda>n. map (\<lambda>l. (l, NotifyNodeUpdate NOTIFY_UPDATE_DELETE (node_Address n))) listeners) toDelete)
          @ concat (map (\<lambda>n. map (\<lambda>l. (l, NotifyNodeUpdate NOTIFY_UPDATE_ADD (node_Address n))) listeners) toAdd),
          st'))"

definition updateKeyListeners :: "nat \<Rightarrow> string \<Rightarrow> KVPair option \<Rightarrow> 'l watch_state \<Rightarrow> ('l \<times> notification) list" where
  "updateKeyListeners idx key data st =
     (let (updateType, val) = (case data of
            None \<Rightarrow> (NOTIFY_UPDATE_DELETE, [])
          | Some kv \<Rightarrow> (if idx = kp_CreateIndex kv then NOTIFY_UPDATE_ADD else NOTIFY_UPDATE_MODIFY, kp_Value kv))
      in map (\<lambda>l. (l, NotifyKeyUpdate updateType key val)) (getListeners WATCH_TYPE_KEY key st))"

text \<open>
  The handler closures by plan. A result of another type than the handler's assertion expects
  is a panic; Consul's watch functions never produce one.
\<close>

definition handler :: "watch_params \<Rightarrow> nat \<Rightarrow> watch_data \<Rightarrow> 'l watch_state \<Rightarrow>
    (('l \<times> notification) list \<times> 'l watch_state) option" where
  "handler params idx data st = (case (params, data) of
      (NodesParams, NodesData ns) \<Rightarrow> Some (updateNodeListeners ns st)
    | (KeyParams absKey, KeyData kv) \<Rightarrow> Some (updateKeyListeners idx absKey kv st, st)
    | (KeyPrefixParams _, _) \<Rightarrow> Some ([], st)
    | _ \<Rightarrow> None)"

text \<open>
  One iteration of \<^verbatim>\<open>WatchPlan.Run\<close> for the plan at \<open>a\<close>; \<open>out\<close> is what the query returned
  (\<^term>\<open>None\<close> an error, after which the loop waits and tries again).
\<close>

definition plan_round :: "nat \<Rightarrow> (nat \<times> watch_data) option \<Rightarrow> 'l watch_state \<Rightarrow>
    (('l \<times> notification) list \<times> 'l watch_state) option" where
  "plan_round a out st =
     (if a \<ge> length (plans st) then None else
      let p = plans st ! a in
      if wp_stop p then Some ([], st)
      else case out of
          None \<Rightarrow> Some ([], st)
        | Some (index, result) \<Rightarrow>
            if index = wp_lastIndex p then Some ([], st)
            else if wp_lastIndex p \<noteq> 0 \<and> wp_lastResult p = Some result
            then Some ([], st\<lparr>plans := (plans st)[a := p\<lparr>wp_lastIndex := index\<rparr>]\<rparr>)
            else handler (wp_params p) index result
                   (st\<lparr>plans := (plans st)[a := p\<lparr>wp_lastIndex := index, wp_lastResult := Some result\<rparr>]\<rparr>))"

fun plan_run :: "nat \<Rightarrow> (nat \<times> watch_data) option list \<Rightarrow> 'l watch_state \<Rightarrow>
    (('l \<times> notification) list \<times> 'l watch_state) option" where
  "plan_run a [] st = Some ([], st)"
| "plan_run a (out # outs) st = (case plan_round a out st of
      None \<Rightarrow> None
    | Some (calls, st') \<Rightarrow> (case plan_run a outs st' of
        None \<Rightarrow> None
      | Some (calls', st'') \<Rightarrow> Some (calls @ calls', st'')))"

section \<open>The registry's behaviour\<close>

lemma getListeners_addListener:
  assumes "addListener wtype key l st = (wc, st')"
  shows "getListeners t k st' =
    (if t = wtype \<and> k = key \<and> \<not> contains WATCH_TYPE_NODE key l st then getListeners t k st @ [l]
     else getListeners t k st)"
  using assms
  by (auto simp: addListener_def getListeners_def update_conv' Let_def
      split: if_splits option.splits prod.splits)

lemma contains_getListeners: "contains t k l st \<longleftrightarrow> l \<in> set (getListeners t k st)"
  by (auto simp: contains_def getListeners_def split: option.splits)

lemma getListeners_register [simp]: "getListeners t k (register wtype params st) = getListeners t k st"
  by (auto simp: register_def addWatchPlan_def getListeners_def update_conv' split: sum.splits option.splits)

lemmas register_defs = RegisterForNodeUpdates_def RegisterForKeyUpdates_def RegisterForStoreUpdates_def
  registerForNodeUpdates_def registerForKeyUpdates_def registerForStoreUpdates_def

text \<open>The operations through which the registry changes.\<close>

inductive registry_step :: "'l watch_state \<Rightarrow> 'l watch_state \<Rightarrow> bool" where
  node: "registry_step st (RegisterForNodeUpdates l st)"
| key: "registry_step st (RegisterForKeyUpdates store k l st)"
| store: "registry_step st (RegisterForStoreUpdates store l st)"
| stop: "registry_step st (stopWatches st)"
| round: "plan_round a out st = Some (calls, st') \<Longrightarrow> registry_step st st'"

inductive registry :: "'l watch_state \<Rightarrow> bool" where
  start: "registry watch_init"
| step: "registry st \<Longrightarrow> registry_step st st' \<Longrightarrow> registry st'"

lemma updateNodeListeners_keeps:
  "updateNodeListeners ns st = (calls, st') \<Longrightarrow> watches st' = watches st \<and> plans st' = plans st"
  by (auto simp: updateNodeListeners_def Let_def)

lemma handler_keeps:
  "handler params idx data st = Some (calls, st') \<Longrightarrow> watches st' = watches st \<and> plans st' = plans st"
  by (auto simp: handler_def dest: updateNodeListeners_keeps split: watch_params.splits watch_data.splits)

lemma plan_round_watches:
  "plan_round a out st = Some (calls, st') \<Longrightarrow> watches st' = watches st"
  by (auto simp: plan_round_def Let_def dest!: handler_keeps split: if_splits option.splits)

lemma getListeners_cong: "watches st' = watches st \<Longrightarrow> getListeners t k st' = getListeners t k st"
  by (simp add: getListeners_def)

lemma node_listeners_step:
  assumes "registry_step st st'" and "distinct (getListeners WATCH_TYPE_NODE k st)"
  shows "distinct (getListeners WATCH_TYPE_NODE k st')"
  using assms(1)
proof cases
  case (node l)
  then show ?thesis using assms(2)
    by (auto simp: register_defs contains_getListeners getListeners_addListener split: prod.splits)
next
  case (key store k l)
  then show ?thesis using assms(2)
    by (auto simp: register_defs getListeners_addListener Let_def split: prod.splits)
next
  case (store store l)
  then show ?thesis using assms(2)
    by (auto simp: register_defs getListeners_addListener split: prod.splits)
next
  case stop
  then show ?thesis using assms(2) by (simp add: stopWatches_def getListeners_cong [of "st\<lparr>plans := _\<rparr>" st])
next
  case (round a out calls)
  then show ?thesis using assms(2) plan_round_watches getListeners_cong by metis
qed

text \<open>
  In every state the registry can reach, a listener is registered at most once for node
  updates, so that no membership change is reported to it twice.
\<close>

theorem node_listeners_distinct:
  assumes "registry st"
  shows "distinct (getListeners WATCH_TYPE_NODE k st)"
  using assms
proof induction
  case start
  then show ?case by (simp add: watch_init_def getListeners_def)
next
  case (step st st')
  then show ?case using node_listeners_step by blast
qed

theorem node_listeners_distinct_witness:
  "distinct (getListeners WATCH_TYPE_NODE []
     (RegisterForNodeUpdates (1 :: nat) (RegisterForNodeUpdates 1 watch_init)))"
  by (rule node_listeners_distinct
      [OF registry.step [OF registry.step [OF registry.start registry_step.node] registry_step.node]])

text \<open>
  For keys and stores the duplicate check does not take effect (it consults the node
  listeners): registering a key listener again makes every update reach it twice.
\<close>

theorem key_listener_registered_twice:
  assumes "key \<noteq> []" and "getListeners WATCH_TYPE_NODE key st = []"
    and "addListener WATCH_TYPE_KEY key l st = (wc, st1)" and "addListener WATCH_TYPE_KEY key l st1 = (wc', st2)"
  shows "getListeners WATCH_TYPE_KEY key st2 = getListeners WATCH_TYPE_KEY key st @ [l, l]"
  using assms by (simp add: getListeners_addListener contains_getListeners)

theorem key_listener_registered_twice_witness:
  "getListeners WATCH_TYPE_KEY ''k''
     (snd (addListener WATCH_TYPE_KEY ''k'' (0 :: nat) (snd (addListener WATCH_TYPE_KEY ''k'' 0 watch_init)))) = [0, 0]"
  using key_listener_registered_twice [of "''k''" "watch_init :: nat watch_state" 0, OF _ _ prod.collapse [symmetric] prod.collapse [symmetric]]
  by (simp add: getListeners_def watch_init_def)

section \<open>What a listener learns\<close>

text \<open>The set of addresses a listener knows, as the notifications it gets change it.\<close>

fun learn :: "notification \<Rightarrow> string set \<Rightarrow> string set" where
  "learn (NotifyNodeUpdate NOTIFY_UPDATE_ADD a) V = insert a V"
| "learn (NotifyNodeUpdate NOTIFY_UPDATE_DELETE a) V = V - {a}"
| "learn _ V = V"

definition view :: "'l \<Rightarrow> ('l \<times> notification) list \<Rightarrow> string set \<Rightarrow> string set" where
  "view l calls = fold learn (map snd (filter (\<lambda>c. fst c = l) calls))"

definition addresses :: "Node list \<Rightarrow> string set" where
  "addresses ns = node_Address ` set ns"

lemma view_append: "view l (c1 @ c2) V = view l c2 (view l c1 V)"
  by (simp add: view_def)

lemma view_Nil [simp]: "view l [] V = V"
  by (simp add: view_def)

lemma view_each:
  "view l (map (\<lambda>l. (l, x)) ls) V = (if l \<in> set ls then learn x V else V)"
proof (induction ls arbitrary: V)
  case (Cons k ls)
  have "learn x (learn x V) = learn x V" for V
    by (cases "(x, V)" rule: learn.cases) auto
  with Cons show ?case by (auto simp: view_def)
qed simp

lemma view_deletes:
  "l \<in> set ls \<Longrightarrow>
   view l (concat (map (\<lambda>n. map (\<lambda>l. (l, NotifyNodeUpdate NOTIFY_UPDATE_DELETE (node_Address n))) ls) ns)) V
     = V - addresses ns"
  by (induction ns arbitrary: V) (auto simp: view_append view_each addresses_def)

lemma view_adds:
  "l \<in> set ls \<Longrightarrow>
   view l (concat (map (\<lambda>n. map (\<lambda>l. (l, NotifyNodeUpdate NOTIFY_UPDATE_ADD (node_Address n))) ls) ns)) V
     = V \<union> addresses ns"
  by (induction ns arbitrary: V) (auto simp: view_append view_each addresses_def)

lemma addresses_compare: "addresses (compare_nodes X Y) = addresses X - addresses Y"
  by (auto simp: addresses_def compare_nodes_def Let_def)

lemma updateNodeListeners_view:
  assumes "l \<in> set (getListeners WATCH_TYPE_NODE [] st)" and "updateNodeListeners ns st = (calls, st')"
  shows "view l calls (addresses (nodeCache st)) = addresses ns" and "nodeCache st' = ns"
proof -
  have "l \<in> set (getListeners WATCH_TYPE_NODE [] (st\<lparr>nodeCache := ns\<rparr>))"
    using assms(1) by (simp add: getListeners_def)
  note v = view_append view_deletes [OF this] view_adds [OF this] addresses_compare
  from assms(2) show "view l calls (addresses (nodeCache st)) = addresses ns" "nodeCache st' = ns"
    by (auto simp: updateNodeListeners_def Let_def v)
qed

text \<open>What the plan and the cache have in common while the plan runs on the history \<open>hist\<close>.\<close>

definition tracks :: "(nat \<Rightarrow> Node list) \<Rightarrow> nat \<Rightarrow> 'l watch_state \<Rightarrow> bool" where
  "tracks hist a st \<longleftrightarrow> a < length (plans st) \<and> wp_params (plans st ! a) = NodesParams \<and> \<not> wp_stop (plans st ! a) \<and>
     (let i = wp_lastIndex (plans st ! a) in
      if i = 0 then nodeCache st = []
      else wp_lastResult (plans st ! a) = Some (NodesData (hist i)) \<and> nodeCache st = hist i)"

definition last_index :: "nat option list \<Rightarrow> nat \<Rightarrow> nat" where
  "last_index is = fold (\<lambda>x i. case x of None \<Rightarrow> i | Some j \<Rightarrow> j) is"

lemma last_index_simps [simp]:
  "last_index [] i = i" "last_index (None # is) i = last_index is i" "last_index (Some j # is) i = last_index is j"
  by (simp_all add: last_index_def)

definition node_query :: "(nat \<Rightarrow> Node list) \<Rightarrow> nat option \<Rightarrow> (nat \<times> watch_data) option" where
  "node_query hist = map_option (\<lambda>i. (i, NodesData (hist i)))"

lemma plan_round_tracks:
  assumes "tracks hist a st" and "l \<in> set (getListeners WATCH_TYPE_NODE [] st)" and "x \<noteq> Some 0"
  obtains calls st' where "plan_round a (node_query hist x) st = Some (calls, st')" "tracks hist a st'"
    "wp_lastIndex (plans st' ! a) = last_index [x] (wp_lastIndex (plans st ! a))"
    "view l calls (addresses (nodeCache st)) = addresses (nodeCache st')"
    "l \<in> set (getListeners WATCH_TYPE_NODE [] st')"
proof -
  let ?p = "plans st ! a"
  have a: "a < length (plans st)" "\<not> wp_stop ?p" "wp_params ?p = NodesParams"
    using assms(1) by (auto simp: tracks_def)
  consider (idle) "x = None \<or> x = Some (wp_lastIndex ?p)"
    | (same) i where "x = Some i" "i \<noteq> wp_lastIndex ?p" "wp_lastIndex ?p \<noteq> 0" "wp_lastResult ?p = Some (NodesData (hist i))"
    | (new) i where "x = Some i" "i \<noteq> wp_lastIndex ?p" "\<not> (wp_lastIndex ?p \<noteq> 0 \<and> wp_lastResult ?p = Some (NodesData (hist i)))"
    by (cases x) auto
  then show ?thesis
  proof cases
    case idle
    then show ?thesis using that [of "[]" st] assms a by (auto simp: plan_round_def node_query_def)
  next
    case same
    let ?st = "st\<lparr>plans := (plans st)[a := ?p\<lparr>wp_lastIndex := i\<rparr>]\<rparr>"
    have "plan_round a (node_query hist x) st = Some ([], ?st)"
      using same a by (simp add: plan_round_def node_query_def)
    moreover have "tracks hist a ?st" using same a assms by (auto simp: tracks_def Let_def)
    ultimately show ?thesis using that [of "[]" ?st] same a assms(2) by (simp add: getListeners_def)
  next
    case new
    let ?st = "st\<lparr>plans := (plans st)[a := ?p\<lparr>wp_lastIndex := i, wp_lastResult := Some (NodesData (hist i))\<rparr>]\<rparr>"
    obtain calls st' where u: "updateNodeListeners (hist i) ?st = (calls, st')" by fastforce
    have l: "l \<in> set (getListeners WATCH_TYPE_NODE [] ?st)" using assms(2) by (simp add: getListeners_def)
    have k: "watches st' = watches st" "plans st' = plans ?st" using updateNodeListeners_keeps [OF u] by simp_all
    have "plan_round a (node_query hist x) st = Some (calls, st')"
      using new a u by (auto simp: plan_round_def node_query_def handler_def Let_def)
    moreover have "tracks hist a st'"
      using new(1) a assms(3) k updateNodeListeners_view(2) [OF l u] by (auto simp: tracks_def)
    ultimately show ?thesis
      using that [of calls st'] updateNodeListeners_view [OF l u] k new(1) a assms(2) getListeners_cong [OF k(1)]
      by simp
  qed
qed

lemma plan_run_tracks:
  assumes "tracks hist a st" and "l \<in> set (getListeners WATCH_TYPE_NODE [] st)" and "Some 0 \<notin> set is"
  shows "\<exists>calls st'. plan_run a (map (node_query hist) is) st = Some (calls, st') \<and> tracks hist a st' \<and>
    wp_lastIndex (plans st' ! a) = last_index is (wp_lastIndex (plans st ! a)) \<and>
    view l calls (addresses (nodeCache st)) = addresses (nodeCache st')"
  using assms
proof (induction "is" arbitrary: st)
  case (Cons x xs)
  have x: "x \<noteq> Some 0" using Cons.prems(3) by auto
  obtain calls st1 where c: "plan_round a (node_query hist x) st = Some (calls, st1)" "tracks hist a st1"
    "wp_lastIndex (plans st1 ! a) = last_index [x] (wp_lastIndex (plans st ! a))"
    "view l calls (addresses (nodeCache st)) = addresses (nodeCache st1)"
    "l \<in> set (getListeners WATCH_TYPE_NODE [] st1)"
    by (rule plan_round_tracks [OF Cons.prems(1,2) x])
  obtain calls' st2 where d: "plan_run a (map (node_query hist) xs) st1 = Some (calls', st2)" "tracks hist a st2"
    "wp_lastIndex (plans st2 ! a) = last_index xs (wp_lastIndex (plans st1 ! a))"
    "view l calls' (addresses (nodeCache st1)) = addresses (nodeCache st2)"
    using Cons.IH [OF c(2,5)] Cons.prems(3) by auto
  then show ?case using c by (cases x) (auto simp: view_append)
qed simp

lemma plan_run_from_init:
  assumes "Some 0 \<notin> set is"
  shows "\<exists>calls st'. plan_run 0 (map (node_query hist) is) (RegisterForNodeUpdates l watch_init) = Some (calls, st') \<and>
    view l calls {} = (if last_index is 0 = 0 then {} else addresses (hist (last_index is 0)))"
proof -
  let ?st = "RegisterForNodeUpdates l watch_init"
  have st: "plans ?st = [\<lparr>wp_params = NodesParams, wp_lastIndex = 0, wp_lastResult = None, wp_stop = False\<rparr>]"
      "nodeCache ?st = []" "getListeners WATCH_TYPE_NODE [] ?st = [l]"
    by (simp_all add: register_defs addListener_def watch_init_def contains_def register_def watch_Parse_def
        addWatchPlan_def getListeners_def)
  then have t: "tracks hist 0 ?st" "l \<in> set (getListeners WATCH_TYPE_NODE [] ?st)" by (simp_all add: tracks_def)
  from plan_run_tracks [OF this assms] obtain calls st' where
      r: "plan_run 0 (map (node_query hist) is) ?st = Some (calls, st')" "tracks hist 0 st'"
      "wp_lastIndex (plans st' ! 0) = last_index is 0" "view l calls {} = addresses (nodeCache st')"
    using st by (auto simp: addresses_def)
  then show ?thesis by (auto simp: tracks_def Let_def addresses_def split: if_splits)
qed

text \<open>
  C12. The peers a listener knows follow the membership of the cluster: after any run of the node
  watch, over a history of node lists by index, with queries that fail, repeat an index or
  bring the same list under a new index, the addresses built up from its notifications are
  those of the list with the last index seen.
\<close>

theorem node_watch_tracks_membership:
  assumes "Some 0 \<notin> set is"
  shows "\<exists>calls st'. plan_run 0 (map (node_query hist) is) (RegisterForNodeUpdates l watch_init) = Some (calls, st') \<and>
    view l calls {} = (if last_index is 0 = 0 then {} else addresses (hist (last_index is 0)))"
  using assms by (rule plan_run_from_init)

theorem node_watch_tracks_membership_witness:
  "\<exists>calls st'. plan_run 0 (map (node_query (\<lambda>i. [\<lparr>node_Name = ''n'', node_Address = itoa i\<rparr>])) [Some 3, None, Some 5])
      (RegisterForNodeUpdates (0 :: nat) watch_init) = Some (calls, st') \<and> view 0 calls {} = {itoa 5}"
  using node_watch_tracks_membership
    [of "[Some 3, None, Some 5]" "\<lambda>i. [\<lparr>node_Name = ''n'', node_Address = itoa i\<rparr>]" "0 :: nat"]
  by (simp add: addresses_def)

end
