(* ===== verification/World.thy ===== *)
theory World
  imports IPAM Watch
begin

text \<open>
  The state of the \<^verbatim>\<open>server\<close> package and what surrounds it. The program's own state (package
  variables, the daemon, the connections its pointers refer to) is the record \<open>world\<close>,
  next to the cluster store \<open>net\<close> and an arbitrary host state \<open>'o\<close>. Everything the host does
  for the program (kernel, OVSDB server, command line tools, random numbers, the embedded
  agent's command line) is a field of the record \<open>host\<close>, a parameter of the definitions that
  use it.
\<close>

section \<open>OVSDB operations\<close>

datatype ovs_val =
    OvsString string
  | OvsBool bool
  | OvsInt nat
  | OvsUUID string
  | OvsSet "ovs_val list"
  | OvsMap "(string \<times> string) list"

type_synonym ovs_row = "(string \<times> ovs_val) list"
type_synonym ovs_clause = "string \<times> string \<times> ovs_val"

record Operation =
  op_Op :: string
  op_Table :: string
  op_Row :: ovs_row
  op_UUIDName :: string
  op_Mutations :: "ovs_clause list"
  op_Where :: "ovs_clause list"

record OperationResult =
  or_Error :: string
  or_Details :: string
  or_UUID :: string
  or_Rows :: "ovs_row list"

text \<open>Rows of an update; \<^term>\<open>None\<close> is the empty \<^verbatim>\<open>Row{}\<close>.\<close>

record RowUpdate =
  ru_New :: "ovs_row option"
  ru_Old :: "ovs_row option"

type_synonym TableUpdates = "(string \<times> (string \<times> RowUpdate) list) list"
type_synonym table_cache = "(string \<times> (string \<times> ovs_row) list) list"

section \<open>The host\<close>

record 'o host =
  h_netlink :: "'o netlink"
  h_transact :: "Operation list \<Rightarrow> 'o \<Rightarrow> OperationResult list option \<times> 'o"
  h_LookPath :: "string \<Rightarrow> 'o \<Rightarrow> string option"
  h_exec :: "string \<Rightarrow> string list \<Rightarrow> 'o \<Rightarrow> (string \<times> error) \<times> 'o"
  h_Symlink :: "string \<Rightarrow> string \<Rightarrow> 'o \<Rightarrow> error \<times> 'o"
  h_Mkdir :: "string \<Rightarrow> 'o \<Rightarrow> error \<times> 'o"
  h_RemoveAll :: "string \<Rightarrow> 'o \<Rightarrow> error \<times> 'o"
  h_Getenv :: "string \<Rightarrow> 'o \<Rightarrow> string"
  h_ReadFile :: "string \<Rightarrow> 'o \<Rightarrow> string + string"
  h_netns_Get :: "'o \<Rightarrow> (string + int) \<times> 'o"
  h_netns_GetFromName :: "string \<Rightarrow> 'o \<Rightarrow> (string + int) \<times> 'o"
  h_netns_Set :: "int \<Rightarrow> 'o \<Rightarrow> error \<times> 'o"
  h_netns_Close :: "int \<Rightarrow> 'o \<Rightarrow> error \<times> 'o"
  h_rand :: "'o \<Rightarrow> (string + bytes) \<times> 'o"
  h_cli :: "string list \<Rightarrow> 'o \<Rightarrow> (string + int) \<times> 'o"

section \<open>The server's data\<close>

record Network =
  nw_Name :: string
  nw_Subnet :: string
  nw_Gateway :: string
  nw_VNI :: uint

record OvsConnection =
  oc_Name :: string
  oc_Ip :: string
  oc_Subnet :: string
  oc_Mac :: string
  oc_Gateway :: string

record Connection =
  cn_ContainerID :: string
  cn_ContainerName :: string
  cn_ContainerPID :: string
  cn_RequestIp :: string
  cn_Network :: string
  cn_OvsPortID :: string
  cn_BandWidth :: string
  cn_Delay :: string
  cn_RXTotal :: uint
  cn_TXTotal :: uint
  cn_RXRate :: real
  cn_TXRate :: real
  cn_ConnectionDetail :: OvsConnection

record BridgeConf =
  bc_BridgeIP :: string
  bc_BridgeName :: string
  bc_BridgeCIDR :: string
  bc_BridgeMTU :: int

datatype node_action = nodeJoin | nodeLeave

record NodeCtx =
  nc_param :: string
  nc_action :: node_action

text \<open>
  The connections are pointers: the map holds addresses of the heap below. A channel holds what
  was sent and not yet received.
\<close>

record Daemon =
  d_bridgeConf :: BridgeConf
  d_isServer :: bool
  d_connections :: "(string \<times> nat) list"
  d_bindInterface :: string
  d_clusterChan :: "NodeCtx list"
  d_isReady :: bool
  d_readyChan :: nat
  d_Gateways :: "string list"
  d_expServerNum :: string

record 'o world =
  w_kv :: net
  w_os :: 'o
  w_ovsClient :: bool
  w_cache :: table_cache
  w_ContextCache :: "(string \<times> string) list"
  w_heap :: "Connection list"
  w_daemon :: Daemon
  w_watch :: "unit watch_state"
  w_monitors :: "nat list"

section \<open>Lifting\<close>

definition on_kv :: "(net, 'a) go \<Rightarrow> ('o world, 'a) go" where
  "on_kv m w = (case m (w_kv w) of (r, s) \<Rightarrow> (r, w\<lparr>w_kv := s\<rparr>))"

definition on_os :: "('o \<Rightarrow> 'a \<times> 'o) \<Rightarrow> ('o world, 'a) go" where
  "on_os f w = (case f (w_os w) of (x, s) \<Rightarrow> (Ret x, w\<lparr>w_os := s\<rparr>))"

definition ask_os :: "('o \<Rightarrow> 'a) \<Rightarrow> ('o world, 'a) go" where
  "ask_os f w = (Ret (f (w_os w)), w)"

definition ask :: "('o world \<Rightarrow> 'a) \<Rightarrow> ('o world, 'a) go" where
  "ask f w = (Ret (f w), w)"

definition change :: "('o world \<Rightarrow> 'o world) \<Rightarrow> ('o world, unit) go" where
  "change f w = (Ret (), f w)"

text \<open>A call through a nil pointer.\<close>

definition nil_panic :: string where
  "nil_panic = ''runtime error: invalid memory address or nil pointer dereference''"

text \<open>
  Statements of the form \<^verbatim>\<open>if err = f(); err != nil { return x, err }\<close>: continue without an
  error, otherwise return what \<open>h\<close> makes of it.
\<close>

definition if_err :: "('s, error) go \<Rightarrow> (string \<Rightarrow> 'a) \<Rightarrow> ('s, 'a) go \<Rightarrow> ('s, 'a) go" where
  "if_err m h k = gbind m (\<lambda>err. case err of Some e \<Rightarrow> gret (h e) | None \<Rightarrow> k)"

lemma on_kv_run [go_run]: "m (w_kv w) = (r, s) \<Longrightarrow> on_kv m w = (r, w\<lparr>w_kv := s\<rparr>)"
  by (simp add: on_kv_def)

lemma on_os_run [go_run]: "f (w_os w) = (x, s) \<Longrightarrow> on_os f w = (Ret x, w\<lparr>w_os := s\<rparr>)"
  by (simp add: on_os_def)

lemma ask_run [go_run]: "ask f w = (Ret (f w), w)" "ask_os g w = (Ret (g (w_os w)), w)"
  by (simp_all add: ask_def ask_os_def)

lemma change_run [go_run]: "change f w = (Ret (), f w)"
  by (simp add: change_def)

lemma if_err_run [go_run]:
  "m w = (Ret None, w') \<Longrightarrow> if_err m h k w = k w'"
  "m w = (Ret (Some e), w') \<Longrightarrow> if_err m h k w = (Ret (h e), w')"
  by (simp_all add: if_err_def go_run)

section \<open>What calls of the server keep\<close>

lemma keeps_ask [keeps_intro]: "keeps I (ask f)" "keeps I (ask_os g)"
  by (auto simp: keeps_def ask_def ask_os_def)

lemma keeps_if_err [keeps_intro]: "keeps I m \<Longrightarrow> keeps I k \<Longrightarrow> keeps I (if_err m h k)"
  unfolding if_err_def by (intro keeps_intro)

text \<open>
  A property of the world that the host cannot destroy, and one that a K/V operation cannot
  destroy either. The calls that only go to the host, or to the host and the store, keep it,
  which is proved once here and in the theories of the callers.
\<close>

locale os_inv =
  fixes I :: "'o world \<Rightarrow> bool"
  assumes os_change: "I w \<Longrightarrow> I (w\<lparr>w_os := x\<rparr>)"
begin

lemma keeps_on_os [keeps_intro]: "keeps I (on_os f)"
  by (auto simp: keeps_def on_os_def os_change split: prod.splits)

end

locale world_inv = os_inv I for I :: "'o world \<Rightarrow> bool" +
  assumes kv_change: "I w \<Longrightarrow> (net_ok (w_kv w) \<longrightarrow> net_ok s) \<Longrightarrow> I (w\<lparr>w_kv := s\<rparr>)"
begin

lemma keeps_on_kv [keeps_intro]:
  assumes "keeps net_ok m"
  shows "keeps I (on_kv m)"
proof (rule keepsI)
  fix w assume "I w"
  moreover have "net_ok (w_kv w) \<longrightarrow> net_ok (snd (m (w_kv w)))" using assms by (simp add: keeps_def)
  ultimately show "I (snd (on_kv m w))" by (auto simp: on_kv_def kv_change split: prod.splits)
qed

end

text \<open>
  Such properties: the cluster store is well formed; the store (under calls to the host), and the
  program's own state are what they were.
\<close>

definition w_ok :: "'o world \<Rightarrow> bool" where
  "w_ok w \<longleftrightarrow> net_ok (w_kv w)"

definition own_state :: "'o world \<Rightarrow> bool \<times> table_cache \<times> (string \<times> string) list \<times> Connection list \<times> Daemon \<times> unit watch_state \<times> nat list" where
  "own_state w = (w_ovsClient w, w_cache w, w_ContextCache w, w_heap w, w_daemon w, w_watch w, w_monitors w)"

interpretation wk: world_inv w_ok
  by unfold_locales (auto simp: w_ok_def)

interpretation kvs: os_inv "\<lambda>w. w_kv w = x" for x
  by unfold_locales simp

interpretation own: world_inv "\<lambda>w. own_state w = x" for x
  by unfold_locales (auto simp: own_state_def)

lemma keeps_change [keeps_intro]: "(\<And>w. w_kv (f w) = w_kv w) \<Longrightarrow> keeps w_ok (change f)"
  by (simp add: keeps_def change_def w_ok_def)

section \<open>Concrete hosts\<close>

text \<open>
  Calls that leave any host state alone, on a node without links. The concrete hosts of the
  examples change single calls of it.
\<close>

definition nl_base :: "'o netlink" where
  "nl_base = \<lparr>LinkByName = (\<lambda>_ _. Inl ''Link not found''), LinkByIndex = (\<lambda>_ _. Inl ''Link not found''),
     AddrList = (\<lambda>_ _. Inr []), RouteList = (\<lambda>_. Inr []), RouteGet = (\<lambda>_ _. Inr []), Interfaces = (\<lambda>_. Inr []),
     LinkSetUp = (\<lambda>_ s. (None, s)), LinkSetDown = (\<lambda>_ s. (None, s)), LinkSetName = (\<lambda>_ _ s. (None, s)),
     LinkSetNsPid = (\<lambda>_ _ s. (None, s)), LinkSetNsFd = (\<lambda>_ _ s. (None, s)),
     LinkSetHardwareAddr = (\<lambda>_ _ s. (None, s)), LinkSetMTU = (\<lambda>_ _ s. (None, s)),
     AddrAdd = (\<lambda>_ _ s. (None, s)), RouteAdd = (\<lambda>_ s. (None, s))\<rparr>"

definition host_base :: "'o host" where
  "host_base = \<lparr>h_netlink = nl_base, h_transact = (\<lambda>ops s. (Some [], s)),
     h_LookPath = (\<lambda>x _. Some (''/sbin/'' @ x)), h_exec = (\<lambda>_ _ s. (([], None), s)),
     h_Symlink = (\<lambda>_ _ s. (None, s)), h_Mkdir = (\<lambda>_ s. (None, s)), h_RemoveAll = (\<lambda>_ s. (None, s)),
     h_Getenv = (\<lambda>_ _. ''/proc''), h_ReadFile = (\<lambda>_ _. Inl ''no such file''),
     h_netns_Get = (\<lambda>s. (Inr 3, s)), h_netns_GetFromName = (\<lambda>_ s. (Inr 4, s)), h_netns_Set = (\<lambda>_ s. (None, s)),
     h_netns_Close = (\<lambda>_ s. (None, s)), h_rand = (\<lambda>s. (Inr (replicate 32 0), s)), h_cli = (\<lambda>_ s. (Inr 0, s))\<rparr>"

text \<open>A host on which every call succeeds, and the state of a freshly started daemon on it.\<close>

definition host0 :: "unit host" where
  "host0 = \<lparr>h_netlink = nl_one_route,
     h_transact = (\<lambda>ops s. (Some (map (\<lambda>_. \<lparr>or_Error = [], or_Details = [], or_UUID = ''u'', or_Rows = []\<rparr>) ops), s)),
     h_LookPath = (\<lambda>x _. Some (''/sbin/'' @ x)), h_exec = (\<lambda>_ _ s. (([], None), s)),
     h_Symlink = (\<lambda>_ _ s. (None, s)), h_Mkdir = (\<lambda>_ s. (None, s)), h_RemoveAll = (\<lambda>_ s. (None, s)),
     h_Getenv = (\<lambda>_ _. ''/proc''), h_ReadFile = (\<lambda>_ _. Inr []),
     h_netns_Get = (\<lambda>s. (Inr 3, s)), h_netns_GetFromName = (\<lambda>_ s. (Inr 4, s)), h_netns_Set = (\<lambda>_ s. (None, s)),
     h_netns_Close = (\<lambda>_ s. (None, s)),
     h_rand = (\<lambda>s. (Inr (replicate 32 0), s)), h_cli = (\<lambda>_ s. (Inr 0, s))\<rparr>"

definition daemon0 :: Daemon where
  "daemon0 = \<lparr>d_bridgeConf = \<lparr>bc_BridgeIP = [], bc_BridgeName = [], bc_BridgeCIDR = [], bc_BridgeMTU = 0\<rparr>,
     d_isServer = False, d_connections = [], d_bindInterface = [], d_clusterChan = [], d_isReady = False,
     d_readyChan = 0, d_Gateways = [], d_expServerNum = ''1''\<rparr>"

definition world0 :: "unit world" where
  "world0 = \<lparr>w_kv = idle, w_os = (), w_ovsClient = True, w_cache = [], w_ContextCache = [], w_heap = [],
     w_daemon = daemon0, w_watch = watch_init, w_monitors = []\<rparr>"

lemma world0_simps [simp]:
  "w_kv world0 = idle" "w_ovsClient world0" "w_cache world0 = []" "w_heap world0 = []" "w_daemon world0 = daemon0"
  by (simp_all add: world0_def)

end
