(* ===== verification/OvsDriver.thy ===== *)
theory OvsDriver
  imports World
begin

text \<open>
  \<^verbatim>\<open>server/ovs_driver.go\<close>: the OVSDB transactions the daemon sends, the checks of their replies,
  and the cache of the database's tables that the notifications keep up to date. The
  OVSDB server is \<open>h_transact\<close> of the host: it gets the operations as the code builds them and
  returns the replies (\<^term>\<open>None\<close> is \<^verbatim>\<open>log.Fatal\<close> inside \<^verbatim>\<open>libovsdb.Transact\<close>).
\<close>

section \<open>Operations\<close>

definition CONTEXT_KEY :: string where "CONTEXT_KEY = ''container_id''"
definition CONTEXT_VALUE :: string where "CONTEXT_VALUE = ''container_data''"

definition op_base :: Operation where
  "op_base = \<lparr>op_Op = [], op_Table = [], op_Row = [], op_UUIDName = [], op_Mutations = [], op_Where = []\<rparr>"

definition name_is :: "string \<Rightarrow> ovs_clause" where
  "name_is n = (''name'', ''=='', OvsString n)"

definition insert_op :: "string \<Rightarrow> ovs_row \<Rightarrow> string \<Rightarrow> Operation" where
  "insert_op table row uuidName =
     op_base\<lparr>op_Op := ''insert'', op_Table := table, op_Row := row, op_UUIDName := uuidName\<rparr>"

definition delete_op :: "string \<Rightarrow> ovs_clause \<Rightarrow> Operation" where
  "delete_op table condition = op_base\<lparr>op_Op := ''delete'', op_Table := table, op_Where := [condition]\<rparr>"

definition mutate_op :: "string \<Rightarrow> ovs_clause \<Rightarrow> ovs_clause \<Rightarrow> Operation" where
  "mutate_op table mutation condition =
     op_base\<lparr>op_Op := ''mutate'', op_Table := table, op_Mutations := [mutation], op_Where := [condition]\<rparr>"

definition uuid_set :: "string \<Rightarrow> ovs_val" where
  "uuid_set u = OvsSet [OvsUUID u]"

definition CreateOVSBridge_ops :: "string \<Rightarrow> string \<Rightarrow> Operation list" where
  "CreateOVSBridge_ops rootUuid bridgeName =
     [insert_op ''Interface'' [(''name'', OvsString bridgeName), (''type'', OvsString ''internal'')] ''intf'',
      insert_op ''Port'' [(''name'', OvsString bridgeName), (''interfaces'', OvsUUID ''intf'')] ''port'',
      insert_op ''Bridge'' [(''name'', OvsString bridgeName), (''stp_enable'', OvsBool True),
                            (''ports'', OvsUUID ''port'')] ''bridge'',
      mutate_op ''Open_vSwitch'' (''bridges'', ''insert'', uuid_set ''bridge'')
                (''_uuid'', ''=='', OvsUUID rootUuid)]"

definition DeleteOVSBridge_ops :: "string \<Rightarrow> string \<Rightarrow> string \<Rightarrow> Operation list" where
  "DeleteOVSBridge_ops rootUuid bridgeName bridgeUuid =
     [delete_op ''Bridge'' (name_is bridgeName),
      mutate_op ''Open_vSwitch'' (''bridges'', ''delete'', uuid_set bridgeUuid)
                (''_uuid'', ''=='', OvsUUID rootUuid)]"

definition addVxlanPort_ops :: "string \<Rightarrow> string \<Rightarrow> string \<Rightarrow> Operation list" where
  "addVxlanPort_ops bridgeName portName peerAddress =
     [insert_op ''Interface'' [(''name'', OvsString portName), (''type'', OvsString ''vxlan''),
                               (''options'', OvsMap [(''remote_ip'', peerAddress)])] ''intf'',
      insert_op ''Port'' [(''name'', OvsString portName), (''interfaces'', OvsUUID ''intf'')] ''port'',
      mutate_op ''Bridge'' (''ports'', ''insert'', uuid_set ''port'') (name_is bridgeName)]"

definition AddInternalPort_ops :: "string \<Rightarrow> string \<Rightarrow> uint \<Rightarrow> Operation list" where
  "AddInternalPort_ops bridgeName portName tag =
     [insert_op ''Interface'' [(''name'', OvsString portName), (''type'', OvsString ''internal'')] ''intf'',
      insert_op ''Port'' ([(''name'', OvsString portName), (''interfaces'', OvsUUID ''intf'')]
                          @ (if tag \<noteq> 0 then [(''tag'', OvsInt (unat tag))] else [])) ''port'',
      mutate_op ''Bridge'' (''ports'', ''insert'', uuid_set ''port'') (name_is bridgeName)]"

definition deletePort_ops :: "string \<Rightarrow> string \<Rightarrow> string \<Rightarrow> Operation list" where
  "deletePort_ops bridgeName portName portUuid =
     [delete_op ''Port'' (name_is portName),
      mutate_op ''Bridge'' (''ports'', ''delete'', uuid_set portUuid) (name_is bridgeName)]"

definition UpdatePortContext_ops :: "string \<Rightarrow> string \<Rightarrow> string \<Rightarrow> Operation list" where
  "UpdatePortContext_ops portName key ctxt =
     [mutate_op ''Interface''
        (''other_config'', ''insert'', OvsMap [(CONTEXT_KEY, key), (CONTEXT_VALUE, ctxt)]) (name_is portName)]"

definition portExists_ops :: "string \<Rightarrow> Operation list" where
  "portExists_ops portName = [op_base\<lparr>op_Op := ''select'', op_Table := ''Port'', op_Where := [name_is portName]\<rparr>]"

section \<open>The cache\<close>

definition GetTableCache :: "string \<Rightarrow> table_cache \<Rightarrow> (string \<times> ovs_row) list" where
  "GetTableCache tableName cache = (case map_of cache tableName of None \<Rightarrow> [] | Some t \<Rightarrow> t)"

text \<open>\<^verbatim>\<open>range\<close> over the map: any entry may come first; the model takes the first of the list.\<close>

definition getRootUuid :: "table_cache \<Rightarrow> string" where
  "getRootUuid cache = (case GetTableCache ''Open_vSwitch'' cache of [] \<Rightarrow> [] | (uuid, _) # _ \<Rightarrow> uuid)"

definition portUuidForName :: "string \<Rightarrow> table_cache \<Rightarrow> string" where
  "portUuidForName portName cache =
     (case filter (\<lambda>(_, row). map_of row ''name'' = Some (OvsString portName)) (GetTableCache ''Port'' cache) of
        [] \<Rightarrow> []
      | (key, _) # _ \<Rightarrow> key)"

definition populate_row :: "string \<times> RowUpdate \<Rightarrow> (string \<times> ovs_row) list \<Rightarrow> (string \<times> ovs_row) list" where
  "populate_row = (\<lambda>(uuid, row) t. case ru_New row of
      Some new \<Rightarrow> AList.update uuid new t
    | None \<Rightarrow> AList.delete uuid t)"

definition populateCache :: "TableUpdates \<Rightarrow> table_cache \<Rightarrow> table_cache" where
  "populateCache updates cache =
     fold (\<lambda>(table, rows) c. AList.update table (fold populate_row rows (GetTableCache table c)) c) updates cache"

section \<open>Transactions\<close>

abbreviation reply_count_error :: string where
  "reply_count_error \<equiv> ''Number of Replies should be atleast equal to number of Operations''"

definition Transact :: "'o host \<Rightarrow> Operation list \<Rightarrow> ('o world, OperationResult list) go" where
  "Transact h ops =
     gbind (ask w_ovsClient) (\<lambda>up.
       if \<not> up then gpanic nil_panic
       else gbind (on_os (h_transact h ops)) (\<lambda>r. case r of
           None \<Rightarrow> gpanic ''transact failure''
         | Some reply \<Rightarrow> gret reply))"

text \<open>The first reply with an error, and whether it belongs to one of the operations.\<close>

fun first_error :: "nat \<Rightarrow> OperationResult list \<Rightarrow> (bool \<times> OperationResult) option" where
  "first_error n [] = None"
| "first_error n (r # rs) = (if or_Error r \<noteq> [] then Some (0 < n, r) else first_error (n - 1) rs)"

definition transaction_error :: "nat \<Rightarrow> string \<Rightarrow> OperationResult list \<Rightarrow> error" where
  "transaction_error n countMsg reply =
     (if length reply < n then Some countMsg
      else case first_error n reply of
          None \<Rightarrow> None
        | Some (_, o') \<Rightarrow> Some (''Transaction Failed due to an error :'' @ or_Error o' @ '' details : '' @ or_Details o'))"

definition CreateOVSBridge :: "'o host \<Rightarrow> string \<Rightarrow> ('o world, string \<times> error) go" where
  "CreateOVSBridge h bridgeName =
     gbind (ask (\<lambda>w. getRootUuid (w_cache w))) (\<lambda>rootUuid.
       let operations = CreateOVSBridge_ops rootUuid bridgeName in
       gbind (Transact h operations) (\<lambda>reply.
         case transaction_error (length operations) reply_count_error reply of
           Some e \<Rightarrow> gret ([], Some e)
         | None \<Rightarrow> gret (or_UUID (hd reply), None)))"

definition DeleteOVSBridge :: "'o host \<Rightarrow> string \<Rightarrow> string \<Rightarrow> ('o world, error) go" where
  "DeleteOVSBridge h bridgeName bridgeUuid =
     gbind (ask (\<lambda>w. getRootUuid (w_cache w))) (\<lambda>rootUuid.
       let operations = DeleteOVSBridge_ops rootUuid bridgeName bridgeUuid in
       gbind (Transact h operations) (\<lambda>reply.
         gret (if length reply < length operations
               then Some ''Number of Replies should be at least equal to number of Operations''
               else case first_error (length operations) reply of
                   None \<Rightarrow> None
                 | Some (_, o') \<Rightarrow>
                     Some (''Transaction Failed due to an error : '' @ or_Error o' @ '' details : '' @ or_Details o'))))"

text \<open>Failures of \<^verbatim>\<open>addVxlanPort\<close> and \<^verbatim>\<open>deletePort\<close> are logged at most.\<close>

definition addVxlanPort :: "'o host \<Rightarrow> string \<Rightarrow> string \<Rightarrow> string \<Rightarrow> ('o world, unit) go" where
  "addVxlanPort h bridgeName portName peerAddress =
     gbind (Transact h (addVxlanPort_ops bridgeName portName peerAddress)) (\<lambda>_. gret ())"

definition deletePort :: "'o host \<Rightarrow> string \<Rightarrow> string \<Rightarrow> ('o world, unit) go" where
  "deletePort h bridgeName portName =
     gbind (ask (\<lambda>w. portUuidForName portName (w_cache w))) (\<lambda>portUuid.
       if portUuid = [] then gret ()
       else gbind (Transact h (deletePort_ops bridgeName portName portUuid)) (\<lambda>_. gret ()))"

definition portExists :: "'o host \<Rightarrow> string \<Rightarrow> ('o world, bool \<times> error) go" where
  "portExists h portName =
     gbind (Transact h (portExists_ops portName)) (\<lambda>reply. case reply of
         [] \<Rightarrow> gret (False, Some reply_count_error)
       | r # _ \<Rightarrow>
           if or_Error r \<noteq> [] then gret (False, Some (''Transaction Failed due to an error: '' @ or_Error r))
           else gret (or_Rows r \<noteq> [], None))"

text \<open>
  The texts of the errors below end in a rendering of the operation (\<^verbatim>\<open>%v\<close>, \<^verbatim>\<open>Sprintln\<close>), which is
  the parameter \<open>render\<close>.
\<close>

definition UpdatePortContext ::
  "'o host \<Rightarrow> (Operation \<Rightarrow> string) \<Rightarrow> string \<Rightarrow> string \<Rightarrow> string \<Rightarrow> ('o world, error) go" where
  "UpdatePortContext h render portName key ctxt =
     (let operations = UpdatePortContext_ops portName key ctxt in
      gbind (Transact h operations) (\<lambda>reply.
        gret (if length reply < length operations then Some reply_count_error
              else case first_error (length operations) reply of
                  None \<Rightarrow> None
                | Some (True, o') \<Rightarrow> Some (''Transaction Failed due to an error : '' @ or_Error o' @ ''  details: ''
                      @ or_Details o' @ ''  in  '' @ render (hd operations) @ ''\<newline>'')
                | Some (False, o') \<Rightarrow> Some (''Transaction Failed due to an error : '' @ or_Error o' @ ''\<newline>''))))"

text \<open>The position of the first error, to name the operation that failed.\<close>

definition error_index :: "OperationResult list \<Rightarrow> nat" where
  "error_index reply = length (takeWhile (\<lambda>r. or_Error r = []) reply)"

definition AddInternalPort ::
  "'o host \<Rightarrow> (Operation \<Rightarrow> string) \<Rightarrow> string \<Rightarrow> string \<Rightarrow> uint \<Rightarrow> ('o world, error) go" where
  "AddInternalPort h render bridgeName portName tag =
     (let operations = AddInternalPort_ops bridgeName portName tag in
      gbind (Transact h operations) (\<lambda>reply.
        gret (if length reply < length operations then Some reply_count_error
              else case first_error (length operations) reply of
                  None \<Rightarrow> None
                | Some (True, o') \<Rightarrow> Some (''Transaction Failed due to an error : '' @ or_Error o' @ '' details: ''
                      @ or_Details o' @ '' in '' @ render (operations ! error_index reply))
                | Some (False, o') \<Rightarrow> Some (''Transaction Failed due to an error : '' @ or_Error o'))))"

section \<open>Notifications and start\<close>

text \<open>A rename or removal of a bridge called \<^verbatim>\<open>ovs-br0\<close> makes the monitor create it again.\<close>

fun monitor_rows :: "'o host \<Rightarrow> (string \<times> RowUpdate) list \<Rightarrow> ('o world, unit) go" where
  "monitor_rows h [] = gret ()"
| "monitor_rows h ((_, row) # rows) =
     gbind (case ru_New row of
         None \<Rightarrow> gret ()
       | Some _ \<Rightarrow>
           (case (case ru_Old row of None \<Rightarrow> None | Some old \<Rightarrow> map_of old ''name'') of
              None \<Rightarrow> gret ()
            | Some (OvsString name) \<Rightarrow>
                if name = ''ovs-br0'' then gbind (CreateOVSBridge h name) (\<lambda>_. gret ()) else gret ()
            | Some _ \<Rightarrow> gpanic ''interface conversion'')) (\<lambda>_. monitor_rows h rows)"

fun monitorDockerBridge :: "'o host \<Rightarrow> TableUpdates \<Rightarrow> ('o world, unit) go" where
  "monitorDockerBridge h [] = gret ()"
| "monitorDockerBridge h ((table, rows) # us) =
     gbind (if table = ''Bridge'' then monitor_rows h rows else gret ()) (\<lambda>_. monitorDockerBridge h us)"

text \<open>\<^verbatim>\<open>Notifier.Update\<close>: the cache, then the hand-over to the monitor goroutine.\<close>

definition Notifier_Update :: "'o host \<Rightarrow> TableUpdates \<Rightarrow> ('o world, unit) go" where
  "Notifier_Update h updates =
     gbind (change (\<lambda>w. w\<lparr>w_cache := populateCache updates (w_cache w)\<rparr>)) (\<lambda>_. monitorDockerBridge h updates)"

text \<open>
  \<^verbatim>\<open>ovs_connect\<close>: \<open>tries\<close> are the outcomes of the connection attempts, \<open>initial\<close> the reply of
  \<^verbatim>\<open>MonitorAll\<close> (\<^term>\<open>None\<close> when it failed, its error is dropped), \<open>arrivals\<close> the updates that arrive while it waits for the root row. It runs
  until connected and until the root row is there; the lists bound the two waits.
\<close>

fun wait_root :: "'o host \<Rightarrow> TableUpdates list \<Rightarrow> ('o world, unit) go" where
  "wait_root h arrivals =
     gbind (ask (\<lambda>w. getRootUuid (w_cache w))) (\<lambda>root.
       if root \<noteq> [] then gret ()
       else case arrivals of
           [] \<Rightarrow> gstop
         | u # us \<Rightarrow> gbind (Notifier_Update h u) (\<lambda>_. wait_root h us))"

definition ovs_connect :: "'o host \<Rightarrow> bool list \<Rightarrow> TableUpdates option \<Rightarrow> TableUpdates list \<Rightarrow> ('o world, unit) go" where
  "ovs_connect h tries initial arrivals =
     (if True \<notin> set tries then gstop
      else case initial of
          None \<Rightarrow> gpanic nil_panic
        | Some updates \<Rightarrow>
            gbind (change (\<lambda>w. w\<lparr>w_ovsClient := True, w_cache := populateCache updates []\<rparr>)) (\<lambda>_.
              wait_root h arrivals))"

section \<open>What the transactions keep\<close>

context os_inv
begin

lemma keeps_Transact [keeps_intro]: "keeps I (Transact h ops)"
  unfolding Transact_def by (intro keeps_intro)

lemma keeps_CreateOVSBridge [keeps_intro]: "keeps I (CreateOVSBridge h b)"
  unfolding CreateOVSBridge_def by (intro keeps_intro)

lemma keeps_ports [keeps_intro]:
  "keeps I (addVxlanPort h b p a)" "keeps I (deletePort h b p)" "keeps I (portExists h p)"
  "keeps I (AddInternalPort h render b p t)" "keeps I (UpdatePortContext h render p k c)"
  unfolding addVxlanPort_def deletePort_def portExists_def AddInternalPort_def UpdatePortContext_def
  by (intro keeps_intro)+

end

section \<open>The cache follows the database\<close>

definition row_at :: "table_cache \<Rightarrow> string \<Rightarrow> string \<Rightarrow> ovs_row option" where
  "row_at c table uuid = map_of (GetTableCache table c) uuid"

lemma populate_rows:
  "distinct (map fst rows) \<Longrightarrow>
   map_of (fold populate_row rows t) u =
     (case map_of rows u of None \<Rightarrow> map_of t u | Some r \<Rightarrow> ru_New r)"
proof (induction rows arbitrary: t)
  case (Cons p rows)
  obtain v r where p: "p = (v, r)" by (cases p)
  have step: "map_of (populate_row p t) u = (if u = v then ru_New r else map_of t u)"
    by (auto simp: p populate_row_def update_conv' delete_conv' split: option.splits)
  have "map_of rows v = None" using Cons.prems by (simp add: p map_of_eq_None_iff)
  then show ?case
    using Cons.IH [of "populate_row p t"] Cons.prems step by (auto simp: p split: option.splits)
qed simp

lemma GetTableCache_update:
  "GetTableCache t (AList.update t' rows c) = (if t = t' then rows else GetTableCache t c)"
  by (auto simp: GetTableCache_def update_conv')

text \<open>
  C23. After an update notification the cache holds, for every row, what the notification says
  about it (its new contents, or nothing once it is deleted), and everything it does not mention
  is as before.
\<close>

theorem populateCache_follows:
  assumes "distinct (map fst updates)" and "\<forall>(table, rows) \<in> set updates. distinct (map fst rows)"
  shows "row_at (populateCache updates cache) table uuid =
    (case map_of updates table of
       None \<Rightarrow> row_at cache table uuid
     | Some rows \<Rightarrow> (case map_of rows uuid of None \<Rightarrow> row_at cache table uuid | Some r \<Rightarrow> ru_New r))"
  using assms unfolding populateCache_def row_at_def
proof (induction updates arbitrary: cache)
  case (Cons p us)
  obtain t rows where p: "p = (t, rows)" by (cases p)
  have "map_of us t = None" "distinct (map fst rows)"
    using Cons.prems by (auto simp: p map_of_eq_None_iff)
  then show ?case
    using Cons.IH [of "AList.update t (fold populate_row rows (GetTableCache t cache)) cache"] Cons.prems
    by (auto simp: p GetTableCache_update populate_rows split: option.splits)
qed simp

theorem populateCache_follows_witness:
  "row_at (populateCache [(''Port'', [(''u1'', \<lparr>ru_New = Some [(''name'', OvsString ''p'')], ru_Old = None\<rparr>)])] []) ''Port'' ''u1''
     = Some [(''name'', OvsString ''p'')]"
  by (subst populateCache_follows) simp_all

section \<open>Replies\<close>

lemma first_error_None: "first_error n reply = None \<longleftrightarrow> (\<forall>r \<in> set reply. or_Error r = [])"
  by (induction n reply rule: first_error.induct) auto

text \<open>
  Adding a port reports success exactly when the server answered all three operations and no
  answer carries an error.
\<close>

theorem AddInternalPort_success:
  assumes "w_ovsClient w" and "h_transact h (AddInternalPort_ops bridge port tag) (w_os w) = (Some reply, os')"
  shows "\<exists>err. AddInternalPort h render bridge port tag w = (Ret err, w\<lparr>w_os := os'\<rparr>) \<and>
    (err = None \<longleftrightarrow> 3 \<le> length reply \<and> (\<forall>r \<in> set reply. or_Error r = []))"
proof -
  have n: "length (AddInternalPort_ops bridge port tag) = 3" by (simp add: AddInternalPort_ops_def)
  have "Transact h (AddInternalPort_ops bridge port tag) w = (Ret reply, w\<lparr>w_os := os'\<rparr>)"
    using assms by (simp add: Transact_def gbind_def go_run)
  then show ?thesis
    using first_error_None [of 3 reply]
    by (auto simp: AddInternalPort_def Let_def gbind_def gret_def n split: option.splits bool.splits)
qed

theorem AddInternalPort_success_witness:
  "fst (AddInternalPort host0 (\<lambda>_. []) ''ovs-br0'' ''p'' 7 world0) = Ret None"
proof -
  have "h_transact host0 (AddInternalPort_ops ''ovs-br0'' ''p'' 7) (w_os world0) =
      (Some (replicate 3 \<lparr>or_Error = [], or_Details = [], or_UUID = ''u'', or_Rows = []\<rparr>), ())"
    by (simp add: host0_def AddInternalPort_ops_def numeral_3_eq_3)
  from AddInternalPort_success [OF _ this, of "\<lambda>_. []"] show ?thesis by auto
qed

section \<open>Deleting a port\<close>

text \<open>
  \<^verbatim>\<open>deletePort\<close> does nothing for a port the cache does not know. Otherwise its transaction detaches
  from the bridge a row of the port table that carries the given name.
\<close>

theorem deletePort_detaches_by_name:
  assumes "w_ovsClient w" and "[] \<notin> fst ` set (GetTableCache ''Port'' (w_cache w))"
    and "distinct (map fst (GetTableCache ''Port'' (w_cache w)))"
  shows "if \<exists>(u, row) \<in> set (GetTableCache ''Port'' (w_cache w)). map_of row ''name'' = Some (OvsString port)
    then \<exists>u row. row_at (w_cache w) ''Port'' u = Some row \<and> map_of row ''name'' = Some (OvsString port) \<and>
      deletePort h bridge port w = gbind (Transact h (deletePort_ops bridge port u)) (\<lambda>_. gret ()) w
    else deletePort h bridge port w = (Ret (), w)"
proof -
  let ?t = "GetTableCache ''Port'' (w_cache w)" and ?P = "\<lambda>(u, row). map_of row ''name'' = Some (OvsString port)"
  have un: "portUuidForName port (w_cache w) = (case filter ?P ?t of [] \<Rightarrow> [] | (key, _) # _ \<Rightarrow> key)"
    by (simp add: portUuidForName_def)
  show ?thesis
  proof (cases "filter ?P ?t")
    case Nil
    then have "\<not> (\<exists>x \<in> set ?t. ?P x)" by (simp add: filter_empty_conv)
    with Nil un show ?thesis by (simp add: deletePort_def gbind_def go_run)
  next
    case (Cons x xs)
    obtain u row where x: "x = (u, row)" by (cases x)
    have "x \<in> set (filter ?P ?t)" using Cons by simp
    then have mem: "(u, row) \<in> set ?t" "map_of row ''name'' = Some (OvsString port)" by (auto simp: x)
    then have "u \<noteq> []" "row_at (w_cache w) ''Port'' u = Some row"
      using assms(2,3) by (force simp: row_at_def)+
    moreover from this have "deletePort h bridge port w =
        gbind (Transact h (deletePort_ops bridge port u)) (\<lambda>_. gret ()) w"
      using un Cons x by (simp add: deletePort_def gbind_def [of "ask _"] go_run)
    moreover have "\<exists>x \<in> set ?t. ?P x" using mem by auto
    ultimately show ?thesis using mem(2) by (simp only: if_True) blast
  qed
qed

theorem deletePort_detaches_by_name_witness:
  "deletePort host0 ''ovs-br0'' ''vxlan-10.0.0.9'' world0 = (Ret (), world0)"
  using deletePort_detaches_by_name [of world0 "''vxlan-10.0.0.9''" host0 "''ovs-br0''"]
  by (simp add: GetTableCache_def)

end
