(* ===== verification/GoJson.thy ===== *)
theory GoJson
  imports World
begin

text \<open>
  What the program uses of \<^verbatim>\<open>encoding/json\<close>: the JSON grammar as its scanner accepts it, the text
  \<^verbatim>\<open>json.Marshal\<close> writes for a \<^verbatim>\<open>Network\<close>, and the decoding of an object into a struct (field
  names compared without regard to case, unknown fields skipped, \<^verbatim>\<open>null\<close> leaving a field alone,
  a value of the wrong type reported after the rest was decoded). Texts are taken to be valid
  UTF-8; the result is the round trip of a \<^verbatim>\<open>Network\<close>.
\<close>

section \<open>Bytes and text\<close>

definition str_bytes :: "string \<Rightarrow> bytes" where
  "str_bytes = map (\<lambda>c. of_nat (of_char c))"

definition bytes_str :: "bytes \<Rightarrow> string" where
  "bytes_str = map (\<lambda>b. char_of (unat b))"

lemma bytes_str_str_bytes [simp]: "bytes_str (str_bytes s) = s"
proof -
  have "unat (of_nat (of_char c) :: byte) = (of_char c :: nat)" for c
  proof -
    have "(of_char c :: nat) < 256" by simp
    then show ?thesis by (simp add: unat_of_nat)
  qed
  then show ?thesis by (simp add: bytes_str_def str_bytes_def map_idI comp_def)
qed

section \<open>Values\<close>

datatype json = JNull | JBool bool | JNum string | JStr string | JArr "json list" | JObj "(string \<times> json) list"

abbreviation code :: "char \<Rightarrow> nat" where "code c \<equiv> of_char c"

section \<open>Writing\<close>

abbreviation quote :: char where "quote \<equiv> CHR 0x22"
abbreviation backslash :: char where "backslash \<equiv> CHR 0x5C"

definition esc_char :: "char \<Rightarrow> string" where
  "esc_char c =
     (if c = quote \<or> c = backslash then [backslash, c]
      else if c = CHR 0x0A then [backslash, CHR ''n'']
      else if c = CHR 0x0D then [backslash, CHR ''r'']
      else if c = CHR 0x09 then [backslash, CHR ''t'']
      else if code c < 32 \<or> c = CHR ''<'' \<or> c = CHR ''>'' \<or> c = CHR ''&''
      then [backslash, CHR ''u'', CHR ''0'', CHR ''0'', hex_digit (code c div 16), hex_digit (code c mod 16)]
      else [c])"

definition enc_str :: "string \<Rightarrow> string" where
  "enc_str s = quote # concat (map esc_char s) @ [quote]"

definition Network_Marshal :: "Network \<Rightarrow> bytes" where
  "Network_Marshal n = str_bytes
     (''{'' @ enc_str ''name'' @ '':'' @ enc_str (nw_Name n)
      @ '','' @ enc_str ''subnet'' @ '':'' @ enc_str (nw_Subnet n)
      @ '','' @ enc_str ''gateway'' @ '':'' @ enc_str (nw_Gateway n)
      @ '','' @ enc_str ''vni'' @ '':'' @ itoa (unat (nw_VNI n)) @ ''}'')"

section \<open>Reading\<close>

definition is_space :: "char \<Rightarrow> bool" where
  "is_space c \<longleftrightarrow> c = CHR '' '' \<or> c = CHR 0x09 \<or> c = CHR 0x0A \<or> c = CHR 0x0D"

definition skip :: "string \<Rightarrow> string" where
  "skip = dropWhile is_space"

definition hex4 :: "string \<Rightarrow> nat option" where
  "hex4 s = (case map hex_val s of
      [Some a, Some b, Some c, Some d] \<Rightarrow> Some (((a * 16 + b) * 16 + c) * 16 + d)
    | _ \<Rightarrow> None)"

definition utf8 :: "nat \<Rightarrow> string" where
  "utf8 n = map char_of
     (if n < 128 then [n]
      else if n < 2048 then [192 + n div 64, 128 + n mod 64]
      else if n < 65536 then [224 + n div 4096, 128 + n div 64 mod 64, 128 + n mod 64]
      else [240 + n div 262144, 128 + n div 4096 mod 64, 128 + n div 64 mod 64, 128 + n mod 64])"

text \<open>A \<^verbatim>\<open>\u\<close> escape and what follows it: surrogates count only in pairs.\<close>

definition unescape_u :: "nat \<Rightarrow> string \<Rightarrow> string \<times> nat" where
  "unescape_u n r =
     (if 55296 \<le> n \<and> n < 57344 then
        (case (take 2 r, hex4 (take 4 (drop 2 r))) of
           ([b, u], Some m) \<Rightarrow>
             if b = backslash \<and> u = CHR ''u'' \<and> n < 56320 \<and> 56320 \<le> m \<and> m < 57344
             then (utf8 ((n - 55296) * 1024 + (m - 56320) + 65536), 6) else (utf8 65533, 0)
         | _ \<Rightarrow> (utf8 65533, 0))
      else (utf8 n, 0))"

definition simple_escape :: "char \<Rightarrow> char option" where
  "simple_escape e = map_of [(quote, quote), (backslash, backslash), (CHR ''/'', CHR ''/''),
     (CHR ''b'', CHR 0x08), (CHR ''f'', CHR 0x0C), (CHR ''n'', CHR 0x0A), (CHR ''r'', CHR 0x0D), (CHR ''t'', CHR 0x09)] e"

text \<open>The rest of a string literal: its value and what follows the closing quote.\<close>

function parse_chars :: "string \<Rightarrow> (string \<times> string) option" where
  "parse_chars s = (case s of
      [] \<Rightarrow> None
    | c # r \<Rightarrow>
        if c = quote then Some ([], r)
        else if c = backslash then
          (case r of
             [] \<Rightarrow> None
           | e # r' \<Rightarrow>
               if e = CHR ''u'' then
                 (case hex4 (take 4 r') of
                    None \<Rightarrow> None
                  | Some n \<Rightarrow> (let (t, k) = unescape_u n (drop 4 r') in
                      map_option (\<lambda>(v, q). (t @ v, q)) (parse_chars (drop (4 + k) r'))))
               else (case simple_escape e of
                   None \<Rightarrow> None
                 | Some x \<Rightarrow> map_option (\<lambda>(v, q). (x # v, q)) (parse_chars r')))
        else if code c < 32 then None
        else map_option (\<lambda>(v, q). (c # v, q)) (parse_chars r))"
  by pat_completeness auto
termination by (relation "measure length") auto

declare parse_chars.simps [simp del]

definition digits_of :: "string \<Rightarrow> string" where
  "digits_of = takeWhile is_digit"

definition starts :: "char \<Rightarrow> string \<Rightarrow> bool" where
  "starts c s \<longleftrightarrow> s \<noteq> [] \<and> hd s = c"

text \<open>A number literal: its text and the rest.\<close>

definition parse_frac :: "string \<Rightarrow> string option" where
  "parse_frac r = (if starts (CHR ''.'') r then
       (if digits_of (tl r) = [] then None else Some (CHR ''.'' # digits_of (tl r)))
     else Some [])"

definition parse_exp :: "string \<Rightarrow> string option" where
  "parse_exp r = (if starts (CHR ''e'') r \<or> starts (CHR ''E'') r then
       (let q = tl r;
            sg = (if starts (CHR ''+'') q \<or> starts (CHR ''-'') q then [hd q] else []);
            d = digits_of (drop (length sg) q)
        in if d = [] then None else Some (hd r # sg @ d))
     else Some [])"

definition parse_num :: "string \<Rightarrow> (string \<times> string) option" where
  "parse_num s =
     (let sign = (if starts (CHR ''-'') s then ''-'' else []);
          r = drop (length sign) s;
          ds = (if starts (CHR ''0'') r then ''0'' else digits_of r);
          r1 = drop (length ds) r
      in if ds = [] then None
         else case parse_frac r1 of
             None \<Rightarrow> None
           | Some f \<Rightarrow> (case parse_exp (drop (length f) r1) of
               None \<Rightarrow> None
             | Some x \<Rightarrow> Some (sign @ ds @ f @ x, drop (length f + length x) r1)))"

definition parse_lit :: "string \<Rightarrow> json \<Rightarrow> string \<Rightarrow> (json \<times> string) option" where
  "parse_lit w v s = (if take (length w) s = w then Some (v, drop (length w) s) else None)"

text \<open>
  Values, the elements of an array after the bracket or a comma, the members of an object. Each
  call continues with a strictly shorter text, which the guards make explicit.
\<close>

lemma tl_shorter: "x \<noteq> [] \<Longrightarrow> length x \<le> n \<Longrightarrow> length x - Suc 0 < n"
  by (cases x) auto

function parse_value :: "string \<Rightarrow> (json \<times> string) option"
  and parse_elems :: "string \<Rightarrow> (json list \<times> string) option"
  and parse_members :: "string \<Rightarrow> ((string \<times> json) list \<times> string) option" where
  "parse_value s = (case skip s of
      [] \<Rightarrow> None
    | c # r \<Rightarrow>
        if length r \<ge> length s then None
        else if c = CHR ''{'' then
          (if starts (CHR ''}'') (skip r) then Some (JObj [], tl (skip r))
           else map_option (\<lambda>(ms, q). (JObj ms, q)) (parse_members r))
        else if c = CHR ''['' then
          (if starts (CHR '']'') (skip r) then Some (JArr [], tl (skip r))
           else map_option (\<lambda>(vs, q). (JArr vs, q)) (parse_elems r))
        else if c = quote then map_option (\<lambda>(v, q). (JStr v, q)) (parse_chars r)
        else if c = CHR ''t'' then parse_lit ''true'' (JBool True) (c # r)
        else if c = CHR ''f'' then parse_lit ''false'' (JBool False) (c # r)
        else if c = CHR ''n'' then parse_lit ''null'' JNull (c # r)
        else map_option (\<lambda>(v, q). (JNum v, q)) (parse_num (c # r)))"
| "parse_elems s = (case parse_value s of
      None \<Rightarrow> None
    | Some (v, r) \<Rightarrow>
        if starts (CHR '','') (skip r) \<and> length (skip r) \<le> length s then
          map_option (\<lambda>(vs, t). (v # vs, t)) (parse_elems (tl (skip r)))
        else if starts (CHR '']'') (skip r) then Some ([v], tl (skip r))
        else None)"
| "parse_members s =
     (if \<not> starts quote (skip s) then None
      else case parse_chars (tl (skip s)) of
          None \<Rightarrow> None
        | Some (k, r1) \<Rightarrow>
            if \<not> (starts (CHR '':'') (skip r1) \<and> length (skip r1) \<le> length s) then None
            else (case parse_value (tl (skip r1)) of
                None \<Rightarrow> None
              | Some (v, r3) \<Rightarrow>
                  if starts (CHR '','') (skip r3) \<and> length (skip r3) \<le> length s then
                    map_option (\<lambda>(ms, t). ((k, v) # ms, t)) (parse_members (tl (skip r3)))
                  else if starts (CHR ''}'') (skip r3) then Some ([(k, v)], tl (skip r3))
                  else None))"
  by pat_completeness auto
termination
  by (relation "measure (\<lambda>x. case x of Inl s \<Rightarrow> 2 * length s | Inr (Inl s) \<Rightarrow> 2 * length s + 1 | Inr (Inr s) \<Rightarrow> 2 * length s + 1)")
     (auto simp: starts_def intro: tl_shorter)

declare parse_value.simps [simp del] parse_elems.simps [simp del] parse_members.simps [simp del]

section \<open>Decoding into a struct\<close>

definition lower :: "string \<Rightarrow> string" where
  "lower = map (\<lambda>c. if 65 \<le> code c \<and> code c \<le> 90 then char_of (code c + 32) else c)"

definition num_val :: "string \<Rightarrow> nat" where
  "num_val = foldl (\<lambda>a c. a * 10 + digit_val c) 0"

definition ParseUint :: "string \<Rightarrow> uint option" where
  "ParseUint s = (if s \<noteq> [] \<and> list_all is_digit s \<and> num_val s < 2 ^ 64 then Some (of_nat (num_val s)) else None)"

text \<open>Storing a value: the new field and whether the type was wrong.\<close>

definition store_str :: "json \<Rightarrow> string \<Rightarrow> string \<times> bool" where
  "store_str v old = (case v of JStr s \<Rightarrow> (s, False) | JNull \<Rightarrow> (old, False) | _ \<Rightarrow> (old, True))"

definition store_uint :: "json \<Rightarrow> uint \<Rightarrow> uint \<times> bool" where
  "store_uint v old = (case v of
      JNum s \<Rightarrow> (case ParseUint s of Some n \<Rightarrow> (n, False) | None \<Rightarrow> (old, True))
    | JNull \<Rightarrow> (old, False)
    | _ \<Rightarrow> (old, True))"

definition Network_field :: "string \<times> json \<Rightarrow> Network \<times> bool \<Rightarrow> Network \<times> bool" where
  "Network_field = (\<lambda>(k, v) (n, bad).
     if lower k = ''name'' then (let (x, b) = store_str v (nw_Name n) in (n\<lparr>nw_Name := x\<rparr>, bad \<or> b))
     else if lower k = ''subnet'' then (let (x, b) = store_str v (nw_Subnet n) in (n\<lparr>nw_Subnet := x\<rparr>, bad \<or> b))
     else if lower k = ''gateway'' then (let (x, b) = store_str v (nw_Gateway n) in (n\<lparr>nw_Gateway := x\<rparr>, bad \<or> b))
     else if lower k = ''vni'' then (let (x, b) = store_uint v (nw_VNI n) in (n\<lparr>nw_VNI := x\<rparr>, bad \<or> b))
     else (n, bad))"

definition Network0 :: Network where
  "Network0 = \<lparr>nw_Name = [], nw_Subnet = [], nw_Gateway = [], nw_VNI = 0\<rparr>"

text \<open>Errors of the package are represented by their kind.\<close>

definition json_syntax_error :: string where "json_syntax_error = ''json: syntax error''"
definition json_type_error :: string where "json_type_error = ''json: cannot unmarshal value into Go struct''"

definition Network_decode :: "json \<Rightarrow> string + Network" where
  "Network_decode v = (case v of
      JObj ms \<Rightarrow> (let (n, bad) = fold Network_field ms (Network0, False) in if bad then Inl json_type_error else Inr n)
    | JNull \<Rightarrow> Inr Network0
    | _ \<Rightarrow> Inl json_type_error)"

text \<open>\<^verbatim>\<open>json.Unmarshal\<close> wants the whole input to be one value, \<^verbatim>\<open>Decoder.Decode\<close> reads the first one.\<close>

definition Network_Unmarshal :: "bytes \<Rightarrow> string + Network" where
  "Network_Unmarshal b = (case parse_value (bytes_str b) of
      None \<Rightarrow> Inl json_syntax_error
    | Some (v, r) \<Rightarrow> if skip r \<noteq> [] then Inl json_syntax_error else Network_decode v)"

definition Network_Decode :: "string \<Rightarrow> string + Network" where
  "Network_Decode s = (case parse_value s of
      None \<Rightarrow> Inl json_syntax_error
    | Some (v, _) \<Rightarrow> Network_decode v)"

section \<open>Round trip\<close>

lemma hex4_code:
  assumes "n < 256"
  shows "hex4 [CHR ''0'', CHR ''0'', hex_digit (n div 16), hex_digit (n mod 16)] = Some n"
proof -
  have z: "hex_val (CHR ''0'') = Some 0" by (simp add: hex_val_def)
  have "n div 16 < 16" "n mod 16 < 16" using assms by auto
  then show ?thesis by (simp add: hex4_def z)
qed

lemma parse_chars_quote: "parse_chars (quote # r) = Some ([], r)"
  by (simp add: parse_chars.simps)

lemma parse_chars_esc:
  "parse_chars (esc_char c @ r) = map_option (\<lambda>(v, q). (c # v, q)) (parse_chars r)"
proof (cases "c = quote \<or> c = backslash \<or> c = CHR 0x0A \<or> c = CHR 0x0D \<or> c = CHR 0x09")
  case True
  then show ?thesis by (subst parse_chars.simps) (auto simp: esc_char_def simple_escape_def)
next
  case False
  show ?thesis
  proof (cases "code c < 32 \<or> c = CHR ''<'' \<or> c = CHR ''>'' \<or> c = CHR ''&''")
    case True
    then have small: "code c < 128" by auto
    have e: "esc_char c @ r = backslash # CHR ''u'' # CHR ''0'' # CHR ''0'' # hex_digit (code c div 16) # hex_digit (code c mod 16) # r"
      using True False by (simp add: esc_char_def)
    have "unescape_u (code c) r = ([c], 0)"
      using small by (simp add: unescape_u_def utf8_def)
    then show ?thesis
      unfolding e using hex4_code [of "code c"] small by (subst parse_chars.simps) simp
  next
    case plain: False
    then have "esc_char c = [c]" using False by (simp add: esc_char_def)
    then show ?thesis using False plain by (subst parse_chars.simps) simp
  qed
qed

lemma parse_chars_enc: "parse_chars (concat (map esc_char s) @ quote # r) = Some (s, r)"
  by (induction s) (simp_all add: parse_chars_quote parse_chars_esc)

lemma skip_quote [simp]: "skip (quote # r) = quote # r"
  by (simp add: skip_def is_space_def)

lemma skip_char [simp]:
  "skip (CHR '':'' # r) = CHR '':'' # r" "skip (CHR '','' # r) = CHR '','' # r" "skip (CHR ''}'' # r) = CHR ''}'' # r"
  "skip (CHR ''{'' # r) = CHR ''{'' # r" "skip [] = []"
  by (simp_all add: skip_def is_space_def)

lemma parse_value_str: "parse_value (enc_str s @ r) = Some (JStr s, r)"
  by (subst parse_value.simps) (simp add: enc_str_def parse_chars_enc)

lemma itoa_leading: "hd (itoa n) = CHR ''0'' \<longleftrightarrow> n = 0"
proof (induction n rule: itoa.induct)
  case (1 n)
  have d0: "digit d = CHR ''0'' \<longleftrightarrow> d = 0" if "d < 10" for d
  proof -
    have "digit d = CHR ''0'' \<longleftrightarrow> (of_char (digit d) :: nat) = of_char (CHR ''0'')" by (simp only: of_char_eq_iff)
    then show ?thesis using of_char_digit [OF that] by simp
  qed
  show ?case
    using 1 d0 [of n] by (cases "n < 10") (auto simp: itoa_small itoa_large hd_append)
qed

lemma parse_num_itoa: "parse_num (itoa n @ CHR ''}'' # r) = Some (itoa n, CHR ''}'' # r)"
proof -
  obtain c cs where cs: "itoa n = c # cs" by (meson itoa_nonempty neq_Nil_conv)
  have c: "is_digit c" using itoa_hd_digit [of n] cs by simp
  have all: "\<forall>x \<in> set (c # cs). is_digit x" using itoa_digits cs by metis
  have stop: "\<not> is_digit (CHR ''}'')" by (simp add: is_digit_def)
  have ds: "digits_of (itoa n @ CHR ''}'' # r) = itoa n"
    using all stop unfolding digits_of_def cs by (simp add: takeWhile_append2)
  have neg: "c \<noteq> CHR ''-''" using c by (auto simp: is_digit_def)
  have zero: "c = CHR ''0'' \<Longrightarrow> cs = []"
    using itoa_leading [of n] cs itoa_small [of 0] by auto
  show ?thesis
    using ds cs neg zero
    by (cases "c = CHR ''0''") (auto simp: parse_num_def starts_def parse_frac_def parse_exp_def Let_def)
qed

lemma parse_value_num: "parse_value (itoa n @ CHR ''}'' # r) = Some (JNum (itoa n), CHR ''}'' # r)"
proof -
  obtain c cs where cs: "itoa n = c # cs" by (meson itoa_nonempty neq_Nil_conv)
  have "is_digit c" using itoa_hd_digit [of n] cs by simp
  then have c: "\<not> is_space c" "c \<noteq> CHR ''{''" "c \<noteq> CHR ''[''" "c \<noteq> quote" "c \<noteq> CHR ''t''" "c \<noteq> CHR ''f''" "c \<noteq> CHR ''n''"
    by (auto simp: is_digit_def is_space_def)
  then have "skip (itoa n @ CHR ''}'' # r) = itoa n @ CHR ''}'' # r" by (simp add: skip_def cs)
  then show ?thesis using parse_num_itoa [of n r] c by (subst parse_value.simps) (simp add: cs)
qed

text \<open>One member of an object, followed by another or by the end.\<close>

lemma parse_members_step:
  assumes "parse_value (v @ CHR '','' # rest) = Some (j, CHR '','' # rest)"
  shows "parse_members (enc_str k @ '':'' @ v @ '','' @ rest) = map_option (\<lambda>(ms, t). ((k, j) # ms, t)) (parse_members rest)"
  using assms parse_chars_enc [of k] by (subst parse_members.simps) (simp add: enc_str_def starts_def)

lemma parse_members_end:
  assumes "parse_value (v @ CHR ''}'' # rest) = Some (j, CHR ''}'' # rest)"
  shows "parse_members (enc_str k @ '':'' @ v @ ''}'' @ rest) = Some ([(k, j)], rest)"
  using assms parse_chars_enc [of k] by (subst parse_members.simps) (simp add: enc_str_def starts_def)

lemma num_val_itoa: "foldl (\<lambda>a c. a * 10 + digit_val c) 0 (itoa n) = n"
proof (induction n rule: itoa.induct)
  case (1 n)
  then show ?case by (cases "n < 10") (simp_all add: itoa_small itoa_large)
qed

lemma ParseUint_itoa: "ParseUint (itoa (unat n)) = Some n"
proof -
  have "list_all is_digit (itoa (unat n))" by (auto simp: list_all_iff itoa_digits)
  moreover have "unat n < 2 ^ 64" using unsigned_less [of n] by simp
  ultimately show ?thesis by (simp add: ParseUint_def num_val_def num_val_itoa)
qed

lemma parse_Network:
  "parse_value (bytes_str (Network_Marshal n)) =
     Some (JObj [(''name'', JStr (nw_Name n)), (''subnet'', JStr (nw_Subnet n)), (''gateway'', JStr (nw_Gateway n)),
                 (''vni'', JNum (itoa (unat (nw_VNI n))))], [])"
proof -
  let ?m = "enc_str ''name'' @ '':'' @ enc_str (nw_Name n)
      @ '','' @ enc_str ''subnet'' @ '':'' @ enc_str (nw_Subnet n)
      @ '','' @ enc_str ''gateway'' @ '':'' @ enc_str (nw_Gateway n)
      @ '','' @ enc_str ''vni'' @ '':'' @ itoa (unat (nw_VNI n)) @ ''}'' @ []"
  have "parse_members ?m = Some ([(''name'', JStr (nw_Name n)), (''subnet'', JStr (nw_Subnet n)), (''gateway'', JStr (nw_Gateway n)),
                 (''vni'', JNum (itoa (unat (nw_VNI n))))], [])"
    by (simp only: parse_members_step [OF parse_value_str] parse_members_end [OF parse_value_num]) simp
  moreover have "skip ?m = ?m" "\<not> starts (CHR ''}'') ?m" by (simp_all add: enc_str_def starts_def)
  ultimately have "parse_value (CHR ''{'' # ?m) = Some (JObj [(''name'', JStr (nw_Name n)), (''subnet'', JStr (nw_Subnet n)),
      (''gateway'', JStr (nw_Gateway n)), (''vni'', JNum (itoa (unat (nw_VNI n))))], [])"
    by (subst parse_value.simps) (simp only: skip_char list.case, simp)
  then show ?thesis by (simp add: Network_Marshal_def)
qed

lemma Network_Unmarshal_Marshal: "Network_Unmarshal (Network_Marshal n) = Inr n"
proof -
  have l: "lower ''name'' = ''name''" "lower ''subnet'' = ''subnet''" "lower ''gateway'' = ''gateway''" "lower ''vni'' = ''vni''"
    by (simp_all add: lower_def)
  show ?thesis
    by (simp add: Network_Unmarshal_def parse_Network Network_decode_def Network_field_def l store_str_def
        store_uint_def ParseUint_itoa Network0_def)
qed

end
