(* ===== verification/NetworkMgr.thy ===== *)
theory NetworkMgr
  imports OvsDriver GoJson
begin

text \<open>
  Networks (\<^verbatim>\<open>server/network.go\<close>): their records in the store, creation with VNI, gateway address,
  OVS port and interface set-up, deletion, the choice of a free subnet and the periodic
  reconciliation of a node's interfaces with the store; and the iptables rules of a
  network (\<^verbatim>\<open>setupIPTables\<close>, \<^verbatim>\<open>installRule\<close> of \<^verbatim>\<open>server/connection.go\<close>).
\<close>

section \<open>Constants\<close>

definition defaultNetwork :: string where "defaultNetwork = ''cxy''"
definition bridgeName :: string where "bridgeName = ''ovs-br0''"
definition mtu :: int where "mtu = 1440"

definition gatewayAddrs :: "string list" where
  "gatewayAddrs = [
     ''10.1.42.1/16'', ''10.42.42.1/16'', ''172.16.42.1/24'', ''172.16.43.1/24'', ''172.16.44.1/24'',
     ''10.0.42.1/24'', ''10.0.43.1/24'', ''172.17.42.1/16'', ''10.0.42.1/16'',
     ''192.168.42.1/24'', ''192.168.43.1/24'', ''192.168.44.1/24'']"

section \<open>Records in the store\<close>

definition GetNetwork :: "string \<Rightarrow> ('o world, string + Network) go" where
  "GetNetwork name =
     gbind (on_kv (Get networkStore name)) (\<lambda>(netByte, _, ok).
       gret (if ok then Network_Unmarshal netByte else Inl (''Network '' @ name @ '' not exist'')))"

fun unmarshal_all :: "bytes list \<Rightarrow> string + Network list" where
  "unmarshal_all [] = Inr []"
| "unmarshal_all (b # bs) = (case Network_Unmarshal b of
      Inl e \<Rightarrow> Inl e
    | Inr n \<Rightarrow> (case unmarshal_all bs of Inl e \<Rightarrow> Inl e | Inr ns \<Rightarrow> Inr (n # ns)))"

definition GetNetworks :: "('o world, string + Network list) go" where
  "GetNetworks = gbind (on_kv (GetAll networkStore)) (\<lambda>(networkBytes, _, _). gret (unmarshal_all networkBytes))"

section \<open>iptables\<close>

fun join_sp :: "string list \<Rightarrow> string" where
  "join_sp [] = []"
| "join_sp [x] = x"
| "join_sp (x # xs) = x @ '' '' @ join_sp xs"

definition installRule :: "'o host \<Rightarrow> string list \<Rightarrow> ('o world, string \<times> error) go" where
  "installRule h args =
     gbind (ask_os (h_LookPath h ''iptables'')) (\<lambda>p. case p of
         None \<Rightarrow> gret ([], Some ''iptables not found'')
       | Some path \<Rightarrow> gbind (on_os (h_exec h path args)) (\<lambda>(output, err). case err of
           Some e \<Rightarrow> gret ([], Some (''iptables failed: iptables '' @ join_sp args @ '': '' @ output @ '' ('' @ e @ '')''))
         | None \<Rightarrow> gret (output, None)))"

definition nat_rule :: "string \<Rightarrow> string \<Rightarrow> string list" where
  "nat_rule name ip = [''-t'', ''nat'', ''-A'', ''POSTROUTING'', ''-s'', ip, ''!'', ''-o'', name, ''-j'', ''MASQUERADE'']"

definition drop_rule :: "string \<Rightarrow> string \<Rightarrow> string list" where
  "drop_rule name other = [''-A'', ''FORWARD'', ''-i'', name, ''-o'', other, ''-j'', ''DROP'']"

text \<open>The loop over the other networks.\<close>

fun drop_rules :: "'o host \<Rightarrow> string \<Rightarrow> Network list \<Rightarrow> ('o world, error) go" where
  "drop_rules h name [] = gret None"
| "drop_rules h name (n # ns) =
     (if nw_Name n = name then drop_rules h name ns
      else gbind (installRule h (drop_rule name (nw_Name n))) (\<lambda>(output, err). case err of
          Some e \<Rightarrow> gret (Some (''Unable to disable network outbound forwarding: '' @ e))
        | None \<Rightarrow> if output \<noteq> [] then gret (Some (''Error disable network outbound forwarding: '' @ output))
                  else drop_rules h name ns))"

definition setupIPTables :: "'o host \<Rightarrow> string \<Rightarrow> string \<Rightarrow> ('o world, error) go" where
  "setupIPTables h name ip =
     gbind (installRule h (nat_rule name ip)) (\<lambda>(output, err). case err of
         Some e \<Rightarrow> gret (Some (''Unable to enable network bridge NAT: '' @ e))
       | None \<Rightarrow>
           if output \<noteq> [] then gret (Some (''Error enabling network bridge NAT: '' @ output))
           else gbind GetNetworks (\<lambda>networks.
                  drop_rules h name (case networks of Inl _ \<Rightarrow> [] | Inr ns \<Rightarrow> ns)))"

section \<open>Creation and deletion\<close>

definition vni_str :: "uint \<Rightarrow> string" where
  "vni_str VNI = itoa (unat VNI)"

text \<open>
  The first branch of \<^verbatim>\<open>CreateNetwork\<close>: the interface does not exist. \<^term>\<open>Inl\<close> is an early return.
  The last component is the subnet that stays in scope.
\<close>

definition CreateNetwork_new ::
  "'o host \<Rightarrow> (Operation \<Rightarrow> string) \<Rightarrow> nat \<Rightarrow> string \<Rightarrow> IPNet \<Rightarrow> uint
   \<Rightarrow> ('o world, (Network option \<times> error) + (Network \<times> bytes \<times> IPNet)) go" where
  "CreateNetwork_new h render fuel name subnet VNI =
     gbind (on_kv (RequestIP fuel (vni_str VNI) subnet)) (\<lambda>gateway.
       let network = \<lparr>nw_Name = name, nw_Subnet = net_String subnet, nw_Gateway = ip_String gateway, nw_VNI = VNI\<rparr>;
           fail = (\<lambda>e. Inl (Some network, Some e));
           gatewayCIDR = \<lparr>net_IP = gateway, net_Mask = net_Mask subnet\<rparr>
       in if_err (AddInternalPort h render bridgeName name VNI) fail
            (if_err (on_os (SetMtu (h_netlink h) name mtu)) fail
              (if_err (on_os (SetInterfaceIp (h_netlink h) name (net_String gatewayCIDR))) fail
                (if_err (on_os (InterfaceUp (h_netlink h) name)) fail
                  (gret (Inr (network, gateway, subnet)))))))"

text \<open>The other branch: the interface exists with address \<open>addr\<close>, whose network replaces the subnet.\<close>

definition CreateNetwork_existing ::
  "nat \<Rightarrow> string \<Rightarrow> IPNet \<Rightarrow> uint \<Rightarrow> IPNet
   \<Rightarrow> ('o world, (Network option \<times> error) + (Network \<times> bytes \<times> IPNet)) go" where
  "CreateNetwork_existing fuel name subnet VNI addr =
     gbind (on_kv (RequestIP fuel (vni_str VNI) subnet)) (\<lambda>_.
       let ifaceAddr = net_String addr in
       case ParseCIDR ifaceAddr of
         None \<Rightarrow> gret (Inl (None, Some (''invalid CIDR address: '' @ ifaceAddr)))
       | Some (gateway, subnet') \<Rightarrow>
           gret (Inr (\<lparr>nw_Name = name, nw_Subnet = net_String subnet', nw_Gateway = ip_String gateway, nw_VNI = VNI\<rparr>,
                      gateway, subnet')))"

fun CreateNetwork ::
  "'o host \<Rightarrow> (Operation \<Rightarrow> string) \<Rightarrow> nat \<Rightarrow> string \<Rightarrow> IPNet \<Rightarrow> ('o world, Network option \<times> error) go" where
  "CreateNetwork h render 0 name subnet = gstop"
| "CreateNetwork h render (Suc fuel) name subnet =
     gbind (GetNetwork name) (\<lambda>got. case got of
         Inr network \<Rightarrow> gret (Some network, Some ''Network already exist'')
       | Inl _ \<Rightarrow>
           gbind (on_kv allocateVNI) (\<lambda>(VNI, err). case err of
               Some e \<Rightarrow> gret (None, Some e)
             | None \<Rightarrow>
                 gbind (ask_os (GetIfaceAddr (h_netlink h) name)) (\<lambda>addr.
                 gbind (case addr of
                     Inl _ \<Rightarrow> CreateNetwork_new h render (Suc fuel) name subnet VNI
                   | Inr a \<Rightarrow> CreateNetwork_existing (Suc fuel) name subnet VNI a) (\<lambda>r. case r of
                     Inl res \<Rightarrow> gret res
                   | Inr (network, gateway, subnet') \<Rightarrow>
                       gbind (on_kv (Put networkStore name (Network_Marshal network) [])) (\<lambda>err2.
                         if err2 = OUTDATED then
                           gbind (on_kv (releaseVNI (Suc fuel) VNI)) (\<lambda>_.
                           gbind (on_kv (ReleaseIP (Suc fuel) gateway subnet' (vni_str VNI))) (\<lambda>_.
                             CreateNetwork h render fuel name subnet'))
                         else if_err (setupIPTables h (nw_Name network) (nw_Subnet network))
                                (\<lambda>e. (Some network, Some e)) (gret (Some network, None)))))))"

definition DeleteNetwork :: "'o host \<Rightarrow> nat \<Rightarrow> string \<Rightarrow> ('o world, error) go" where
  "DeleteNetwork h fuel name =
     gbind (GetNetwork name) (\<lambda>got. case got of
         Inl e \<Rightarrow> gret (Some e)
       | Inr network \<Rightarrow>
           gbind (on_kv (Delete networkStore name)) (\<lambda>errcode.
             if errcode \<noteq> OK then gret (Some ''Error deleting network'')
             else gbind (on_kv (releaseVNI fuel (nw_VNI network))) (\<lambda>_.
                    gbind (ask w_ovsClient) (\<lambda>up.
                      if \<not> up then gret (Some ''OVS not connected'')
                      else gbind (deletePort h bridgeName name) (\<lambda>_. gret None)))))"

section \<open>Choosing a subnet\<close>

text \<open>A panic inside the overlap check (\<^term>\<open>None\<close> of \<open>CheckRouteOverlaps\<close>) is passed on.\<close>

fun first_free :: "(IPNet \<Rightarrow> error option) \<Rightarrow> string list \<Rightarrow> (string + (string \<times> IPNet) option) option" where
  "first_free check [] = Some (Inr None)"
| "first_free check (addr # addrs) = (case ParseCIDR addr of
      None \<Rightarrow> Some (Inl (''invalid CIDR address: '' @ addr))
    | Some (_, dockerNetwork) \<Rightarrow> (case check dockerNetwork of
        None \<Rightarrow> None
      | Some (Some _) \<Rightarrow> first_free check addrs
      | Some None \<Rightarrow> Some (Inr (Some (addr, dockerNetwork)))))"

definition GetAvailableGwAddress :: "'o host \<Rightarrow> string \<Rightarrow> ('o world, string \<times> error) go" where
  "GetAvailableGwAddress h bridgeIP =
     (if bridgeIP \<noteq> [] then
        (case ParseCIDR bridgeIP of
           None \<Rightarrow> gret ([], Some (''invalid CIDR address: '' @ bridgeIP))
         | Some _ \<Rightarrow> gret (bridgeIP, None))
      else gbind (ask_os (\<lambda>s. first_free (\<lambda>n. CheckRouteOverlaps (h_netlink h) n s) gatewayAddrs)) (\<lambda>r.
        gbind (gcheck index_panic r) (\<lambda>x. case x of
            Inl e \<Rightarrow> gret ([], Some e)
          | Inr None \<Rightarrow> gret ([], Some ''No available gateway addresses'')
          | Inr (Some (addr, _)) \<Rightarrow> gret (addr, None))))"

definition GetAvailableSubnet :: "'o host \<Rightarrow> ('o world, string + IPNet) go" where
  "GetAvailableSubnet h =
     gbind (ask_os (\<lambda>s. first_free (\<lambda>n. CheckRouteOverlaps (h_netlink h) n s) gatewayAddrs)) (\<lambda>r.
       gbind (gcheck index_panic r) (\<lambda>x. case x of
           Inl e \<Rightarrow> gret (Inl e)
         | Inr None \<Rightarrow> gret (Inl ''No available GW address'')
         | Inr (Some (_, subnet)) \<Rightarrow> gret (Inr subnet)))"

definition CreateDefaultNetwork ::
  "'o host \<Rightarrow> (Operation \<Rightarrow> string) \<Rightarrow> nat \<Rightarrow> ('o world, Network option \<times> error) go" where
  "CreateDefaultNetwork h render fuel =
     gbind (GetAvailableSubnet h) (\<lambda>r. case r of
         Inl e \<Rightarrow> gret (Some Network0, Some e)
       | Inr subnet \<Rightarrow> CreateNetwork h render fuel defaultNetwork subnet)"

section \<open>Reconciliation\<close>

definition set_gateways :: "(string list \<Rightarrow> string list) \<Rightarrow> 'o world \<Rightarrow> 'o world" where
  "set_gateways f w = w\<lparr>w_daemon := (w_daemon w)\<lparr>d_Gateways := f (d_Gateways (w_daemon w))\<rparr>\<rparr>"

text \<open>One network of the store: create its interface unless it is there; an error ends this network.\<close>

definition sync_add :: "'o host \<Rightarrow> (Operation \<Rightarrow> string) \<Rightarrow> Network \<Rightarrow> ('o world, unit) go" where
  "sync_add h render n =
     gbind (ask_os (GetIfaceAddr (h_netlink h) (nw_Name n))) (\<lambda>addr. case addr of
         Inr _ \<Rightarrow> gret ()
       | Inl _ \<Rightarrow>
           if_err (AddInternalPort h render bridgeName (nw_Name n) (nw_VNI n)) (\<lambda>_. ())
             (if_err (on_os (SetMtu (h_netlink h) (nw_Name n) mtu)) (\<lambda>_. ())
               (case ParseCIDR (nw_Subnet n) of
                  None \<Rightarrow> gpanic nil_panic
                | Some (_, subnet) \<Rightarrow>
                    if_err (on_os (SetInterfaceIp (h_netlink h) (nw_Name n)
                        (net_String \<lparr>net_IP = ParseIP (nw_Gateway n), net_Mask = net_Mask subnet\<rparr>))) (\<lambda>_. ())
                      (if_err (on_os (InterfaceUp (h_netlink h) (nw_Name n))) (\<lambda>_. ())
                        (gbind (change (set_gateways (List.insert (nw_Name n)))) (\<lambda>_.
                           if_err (setupIPTables h (nw_Name n) (nw_Subnet n)) (\<lambda>_. ()) (gret ())))))))"

fun sync_add_all :: "'o host \<Rightarrow> (Operation \<Rightarrow> string) \<Rightarrow> Network list \<Rightarrow> ('o world, unit) go" where
  "sync_add_all h render [] = gret ()"
| "sync_add_all h render (n # ns) = gbind (sync_add h render n) (\<lambda>_. sync_add_all h render ns)"

text \<open>The loop over the gateways known to this node, in some order.\<close>

fun sync_remove :: "'o host \<Rightarrow> Network list \<Rightarrow> string list \<Rightarrow> ('o world, unit) go" where
  "sync_remove h networks [] = gret ()"
| "sync_remove h networks (k # ks) =
     (if k \<in> set (map nw_Name networks) then sync_remove h networks ks
      else gbind (deletePort h bridgeName k) (\<lambda>_.
           gbind (change (set_gateways (removeAll k))) (\<lambda>_. sync_remove h networks ks)))"

text \<open>One turn of the endless loop.\<close>

definition syncNetwork :: "'o host \<Rightarrow> (Operation \<Rightarrow> string) \<Rightarrow> ('o world, unit) go" where
  "syncNetwork h render =
     gbind GetNetworks (\<lambda>r. case r of
         Inl e \<Rightarrow> gret ()
       | Inr networks \<Rightarrow>
           gbind (sync_add_all h render networks) (\<lambda>_.
           gbind (ask (\<lambda>w. d_Gateways (w_daemon w))) (\<lambda>ks. sync_remove h networks ks)))"

end
