(* ===== verification/Allocation.thy ===== *)
theory Allocation
  imports IPAM
begin

text \<open>
  What the allocators of \<^verbatim>\<open>server/network.go\<close> guarantee, and where they stop guaranteeing it:
  addresses handed out by one node are distinct and inside the subnet, a request followed by
  a release restores the pool, VNIs are taken and given back the same way, the retry loops
  end as soon as the key is left alone for two requests; and the behaviour on a lost race,
  on a pool that does not fit a store entry, on a full pool and on foreign addresses.
\<close>

declare RequestIP.simps [simp del] ReleaseIP.simps [simp del] MarkUsed.simps [simp del]
  releaseVNI.simps [simp del]

section \<open>A concrete network\<close>

text \<open>The network 192.168.7.0/24.\<close>

definition net24 :: IPNet where
  "net24 = \<lparr>net_IP = [192, 168, 7, 0], net_Mask = [255, 255, 255, 0]\<rparr>"

lemma CIDRMask_24 [simp]: "CIDRMask 24 32 = [255, 255, 255, 0]"
  by (simp add: CIDRMask_def cidr_bytes_numeral)

lemma v4_subnet_net24 [simp]: "v4_subnet 24 net24"
  by (simp add: v4_subnet_def net24_def)

lemma pool_idle [simp]:
  "pool (cluster idle) VNI subnet = fresh_pool subnet" "used (fresh_pool subnet) = {}"
  by (simp_all add: pool_def fresh_pool_def)

lemma length_fresh_pool_net24 [simp]: "length (fresh_pool net24) = 32"
  using fresh_pool_v4(2) [OF v4_subnet_net24] by simp

lemma empty_is_lessThan [simp]: "{} = {..<n :: nat} \<longleftrightarrow> n = 0"
  by auto

lemma ip_slot_base: "length (net_IP subnet) = 4 \<Longrightarrow> ip_slot (net_IP subnet) subnet = - 1"
  by (simp add: ip_slot_def To4_def)

lemma ip_slot_net24 [simp]: "unat (ip_slot (net_IP net24) net24) = 2 ^ 32 - 1"
proof -
  have "ip_slot (net_IP net24) net24 = - 1" by (rule ip_slot_base) (simp add: net24_def)
  then show ?thesis by (simp add: unsigned_minus_1_eq_mask mask_eq_exp_minus_1)
qed

section \<open>Sequences of requests\<close>

fun requests :: "nat \<Rightarrow> nat \<Rightarrow> string \<Rightarrow> IPNet \<Rightarrow> (net, bytes list) go" where
  "requests fuel 0 VNI subnet = gret []"
| "requests fuel (Suc n) VNI subnet =
     gbind (RequestIP fuel VNI subnet) (\<lambda>ip.
     gbind (requests fuel n VNI subnet) (\<lambda>ips. gret (ip # ips)))"

lemma pool_written:
  "value_at c' = (value_at c)(ip_path VNI subnet \<mapsto> a) \<Longrightarrow> pool c' VNI subnet = a"
  by (simp add: pool_def)

lemma requests_refine:
  assumes "net_ok s" and "quiet_for (3 * n) s" and "v4_subnet m subnet"
    and "length (pool (cluster s) VNI subnet) \<le> maxKVSize"
    and "n + card (used (pool (cluster s) VNI subnet)) \<le> 8 * length (pool (cluster s) VNI subnet)"
  shows "\<exists>ks a s'. bm.acquire_n n (pool (cluster s) VNI subnet) = Some (ks, a) \<and>
    requests (Suc fuel) n VNI subnet s = (Ret (map (slot_addr subnet) ks), s') \<and>
    net_ok s' \<and> pool (cluster s') VNI subnet = a"
  using assms
proof (induction n arbitrary: s)
  case 0
  then show ?case by (simp add: go_basic)
next
  case (Suc n)
  let ?p = "pool (cluster s) VNI subnet"
  have q: "quiet_for 3 s" using Suc.prems(2) by (rule quiet_for_mono) simp
  have "card (used ?p) \<noteq> card {..<8 * length ?p}" using Suc.prems(5) by simp
  then have free: "used ?p \<noteq> {..<8 * length ?p}" by metis
  obtain k a' s' where k: "k \<notin> used ?p"
      "RequestIP (Suc fuel) VNI subnet s = (Ret (slot_addr subnet k), s')"
      "net_ok s'" "sched s' = sched s" "clock s' = clock s + 3"
      "value_at (cluster s') = (value_at (cluster s))(ip_path VNI subnet \<mapsto> a')"
      "length a' = length ?p" "used a' = insert k (used ?p)" "TestAndSet_slot ?p = Some (k, a')"
    by (rule RequestIP_least [OF Suc.prems(1) q Suc.prems(3,4) free, of fuel])
  have p': "pool (cluster s') VNI subnet = a'" using k(6) by (rule pool_written)
  have "quiet_for (3 * n) s'" using quiet_for_later [OF Suc.prems(2) k(4,5)] by simp
  moreover have "n + card (used a') \<le> 8 * length a'" "length a' \<le> maxKVSize"
    using Suc.prems(4,5) k(1,7,8) by simp_all
  ultimately obtain ks a s'' where "bm.acquire_n n a' = Some (ks, a)"
      "requests (Suc fuel) n VNI subnet s' = (Ret (map (slot_addr subnet) ks), s'')"
      "net_ok s''" "pool (cluster s'') VNI subnet = a"
    using Suc.IH [OF k(3) _ Suc.prems(3), unfolded p'] by blast
  then show ?case using k(2,9) by (intro exI [of _ "k # ks"] exI [of _ a] exI [of _ s'']) (simp add: gbind_def gret_def)
qed

lemma least_free_le_card:
  assumes "finite U" and "\<forall>j < k. j \<in> U"
  shows "k \<le> card U"
proof -
  have "{..<k} \<subseteq> U" using assms(2) by auto
  then have "card {..<k} \<le> card U" by (rule card_mono [OF assms(1)])
  then show ?thesis by simp
qed

text \<open>Slots handed out in a row stay below the number of slots used at the end.\<close>

lemma acquire_n_below:
  assumes "8 * length a < 2 ^ 32 - 1" and "n + card (used a) \<le> 8 * length a"
    and "bm.acquire_n n a = Some (ks, a')" and "k \<in> set ks"
  shows "k < n + card (used a)"
  using assms
proof (induction n arbitrary: a ks)
  case 0
  then show ?case by simp
next
  case (Suc n)
  have "card (used a) \<noteq> card {..<8 * length a}" using Suc.prems(2) by simp
  then have "used a \<noteq> {..<8 * length a}" by metis
  then obtain j b where j: "TestAndSet_slot a = Some (j, b)" "j \<notin> used a" "\<forall>i < j. i \<in> used a"
      "length b = length a" "used b = insert j (used a)"
    using bm.acquire_least [OF Suc.prems(1)] by auto
  obtain ks' where ks: "ks = j # ks'" "bm.acquire_n n b = Some (ks', a')"
    using Suc.prems(3) j(1) by (auto split: option.splits)
  have "j \<le> card (used a)" by (rule least_free_le_card [OF finite_used j(3)])
  moreover have "k < n + card (used b)" if "k \<in> set ks'"
    using Suc.IH [OF _ _ ks(2) that] Suc.prems(1,2) j by simp
  ultimately show ?case using Suc.prems(4) ks(1) j(2,5) by auto
qed

text \<open>
  C4. With nobody else writing the key, \<open>n\<close> requests in a row on a pool with room for them
  return \<open>n\<close> distinct addresses, none of which stood for a slot already taken, and all of them
  inside the subnet as long as the last address slot is not reached.
\<close>

theorem requests_distinct_addresses:
  assumes "net_ok s" and "quiet_for (3 * n) s" and "v4_subnet m subnet"
    and "length (pool (cluster s) VNI subnet) \<le> maxKVSize"
    and "n + card (used (pool (cluster s) VNI subnet)) \<le> 8 * length (pool (cluster s) VNI subnet)"
    and "n + card (used (pool (cluster s) VNI subnet)) < 2 ^ (32 - m)"
  shows "\<exists>ips s'. requests (Suc fuel) n VNI subnet s = (Ret ips, s') \<and> length ips = n \<and> distinct ips \<and>
    (\<forall>ip \<in> set ips. net_Contains subnet ip \<and>
       ip \<notin> slot_addr subnet ` used (pool (cluster s) VNI subnet)) \<and>
    slot_addr subnet ` used (pool (cluster s') VNI subnet) =
      set ips \<union> slot_addr subnet ` used (pool (cluster s) VNI subnet)"
proof -
  let ?p = "pool (cluster s) VNI subnet"
  have small: "8 * length ?p < 2 ^ 32 - 1" using assms(4) by (simp add: maxKVSize_def)
  obtain ks a s' where R: "bm.acquire_n n ?p = Some (ks, a)"
      "requests (Suc fuel) n VNI subnet s = (Ret (map (slot_addr subnet) ks), s')"
      "pool (cluster s') VNI subnet = a"
    using requests_refine [OF assms(1-5), of fuel] by blast
  have ks: "length ks = n" "distinct ks" "set ks \<inter> used ?p = {}" "used a = set ks \<union> used ?p"
    using bm.acquire_n_distinct [OF small assms(5)] R(1) by auto
  have bound: "k < 2 ^ 32 - 1" if "k \<in> set ks \<union> used ?p" for k
    using that acquire_n_below [OF small assms(5) R(1)] used_bound [of ?p] small assms(5) by fastforce
  have inj: "inj_on (slot_addr subnet) (set ks \<union> used ?p)"
    by (rule inj_onI) (use bound slot_addr_inj in \<open>fastforce simp: less_diff_conv\<close>)
  have inside: "net_Contains subnet (slot_addr subnet k)" if "k \<in> set ks" for k
    using slot_addr_in_subnet [OF assms(3), of k] acquire_n_below [OF small assms(5) R(1) that] assms(6)
    by simp
  have "distinct (map (slot_addr subnet) ks)"
    using ks(2) inj by (simp add: distinct_map inj_on_Un)
  moreover have "slot_addr subnet k \<notin> slot_addr subnet ` used ?p" if "k \<in> set ks" for k
    using that ks(3) inj by (auto dest: inj_onD)
  ultimately show ?thesis
    using R ks inside by (intro exI [of _ "map (slot_addr subnet) ks"] exI [of _ s']) (auto simp: image_Un)
qed

theorem requests_distinct_addresses_witness:
  "\<exists>ips s'. requests 1 3 ''7'' net24 idle = (Ret ips, s') \<and> length ips = 3 \<and> distinct ips \<and>
    (\<forall>ip \<in> set ips. net_Contains net24 ip)"
  using requests_distinct_addresses [of idle 3 24 net24 "''7''" 0] by (auto simp: maxKVSize_def)

section \<open>Giving addresses back\<close>

text \<open>
  An address that was requested and released again leaves the stored pool exactly as the
  request found it, so that the next request returns the same address.
\<close>

theorem RequestIP_ReleaseIP:
  assumes "net_ok s" and "quiet_for 6 s" and "v4_subnet n subnet"
    and "length (pool (cluster s) VNI subnet) \<le> maxKVSize"
    and "used (pool (cluster s) VNI subnet) \<noteq> {..<8 * length (pool (cluster s) VNI subnet)}"
  shows "\<exists>ip s1 s2. RequestIP (Suc fuel) VNI subnet s = (Ret ip, s1) \<and>
    ReleaseIP (Suc fuel') ip subnet VNI s1 = (Ret True, s2) \<and>
    value_at (cluster s2) (ip_path VNI subnet) = Some (pool (cluster s) VNI subnet) \<and>
    (\<forall>k. k \<noteq> ip_path VNI subnet \<longrightarrow> value_at (cluster s2) k = value_at (cluster s) k)"
proof -
  let ?p = "pool (cluster s) VNI subnet"
  have q: "quiet_for 3 s" using assms(2) by (rule quiet_for_mono) simp
  obtain k a' s1 where k: "k < 8 * length ?p" "k \<notin> used ?p"
      "RequestIP (Suc fuel) VNI subnet s = (Ret (slot_addr subnet k), s1)"
      "net_ok s1" "sched s1 = sched s" "clock s1 = clock s + 3"
      "value_at (cluster s1) = (value_at (cluster s))(ip_path VNI subnet \<mapsto> a')"
      "length a' = length ?p" "used a' = insert k (used ?p)"
    by (rule RequestIP_least [OF assms(1) q assms(3,4,5), of fuel])
  have q1: "quiet_for 3 s1" using quiet_for_later [OF assms(2) k(5,6)] by simp
  have "k < 2 ^ 32" using k(1) assms(4) by (simp add: maxKVSize_def)
  then have slot: "unat (ip_slot (slot_addr subnet k) subnet) = k"
    by (simp add: ip_slot_slot_addr of_nat_32_bound)
  obtain a'' s2 where r: "ReleaseIP (Suc fuel') (slot_addr subnet k) subnet VNI s1 = (Ret True, s2)"
      "value_at (cluster s2) = (value_at (cluster s1))(ip_path VNI subnet \<mapsto> a'')"
      "length a'' = length a'" "used a'' = used a' - {k}"
    using ReleaseIP_quiet [OF k(4) q1, of VNI subnet a' "slot_addr subnet k" fuel'] k assms(4) slot
    by (metis fun_upd_same)
  have "a'' = ?p" using r k by (intro used_eqI) auto
  with r k show ?thesis by (intro exI conjI) auto
qed

theorem RequestIP_ReleaseIP_witness:
  "\<exists>ip s1 s2. RequestIP 1 ''7'' net24 idle = (Ret ip, s1) \<and>
    ReleaseIP 1 ip net24 ''7'' s1 = (Ret True, s2) \<and>
    value_at (cluster s2) (ip_path ''7'' net24) = Some (fresh_pool net24)"
  using RequestIP_ReleaseIP [of idle 24 net24 "''7''" 0 0] by (auto simp: maxKVSize_def)

text \<open>
  Marking an address of a stored pool sets exactly its bit: a request that follows hands out
  another slot, and the other keys of the store stay as they are.
\<close>

theorem MarkUsed_reserves:
  assumes "net_ok s" and "quiet_for 3 s" and "value_at (cluster s) (ip_path VNI subnet) = Some a"
    and "length a \<le> maxKVSize" and "k < 8 * length a"
  shows "\<exists>a' s'. MarkUsed (Suc fuel) VNI (slot_addr subnet k) subnet s = (Ret True, s') \<and>
    value_at (cluster s') = (value_at (cluster s))(ip_path VNI subnet \<mapsto> a') \<and>
    length a' = length a \<and> used a' = insert k (used a) \<and>
    (\<forall>j b. TestAndSet_slot a' = Some (j, b) \<longrightarrow> j \<noteq> k)"
proof -
  have k: "k < 2 ^ 32" using assms(4,5) by (simp add: maxKVSize_def)
  then have slot: "unat (ip_slot (slot_addr subnet k) subnet) = k"
    by (simp add: ip_slot_slot_addr of_nat_32_bound)
  obtain a' s' where m: "MarkUsed (Suc fuel) VNI (slot_addr subnet k) subnet s = (Ret True, s')"
      "value_at (cluster s') = (value_at (cluster s))(ip_path VNI subnet \<mapsto> a')"
      "length a' = length a" "used a' = insert k (used a)"
    using MarkUsed_quiet [OF assms(1-4), of "slot_addr subnet k" fuel] assms(5) slot by metis
  have small: "8 * length a' < 2 ^ 32 - 1" using m(3) assms(4) by (simp add: maxKVSize_def)
  have "j \<noteq> k" if "TestAndSet_slot a' = Some (j, b)" for j b
  proof (cases "used a' = {..<8 * length a'}")
    case True
    then show ?thesis using bm.acquire_full [OF small True] that assms(5) m(3) by simp
  next
    case False
    then show ?thesis using bm.acquire_least [OF small False] that m(4) by auto
  qed
  with m show ?thesis by blast
qed

theorem MarkUsed_reserves_witness:
  "\<exists>a' s'. MarkUsed 1 ''7'' (slot_addr net24 4) net24 (holding (ip_path ''7'' net24) (replicate 32 0)) = (Ret True, s') \<and>
    value_at (cluster s') (ip_path ''7'' net24) = Some a' \<and> used a' = {4}"
  using MarkUsed_reserves [of "holding (ip_path ''7'' net24) (replicate 32 0)" "''7''" net24 "replicate 32 0" 4 0]
  by (auto simp: maxKVSize_def)

lemma foreign_slot_panics:
  assumes "quiet_for 1 s" and "value_at (cluster s) (ip_path VNI subnet) = Some a"
    and "8 * length a \<le> unat (ip_slot addr subnet)"
  shows "ReleaseIP (Suc fuel) addr subnet VNI s = (Panic index_panic, tick (cluster s) s)"
    and "MarkUsed (Suc fuel) VNI addr subnet s = (Panic index_panic, tick (cluster s) s)"
proof -
  have "quiet_for (Suc 0) s" using assms(1) by simp
  then have G: "Get ipStore (ip_key VNI subnet) s =
      (Ret (get_view (kv_lookup (cluster s) (ip_path VNI subnet))), tick (cluster s) s)"
    by (rule Get_quiet)
  obtain m where m: "kv_lookup (cluster s) (ip_path VNI subnet) = Some (a, m)"
    using assms(2) by (auto simp: value_at_def)
  show "ReleaseIP (Suc fuel) addr subnet VNI s = (Panic index_panic, tick (cluster s) s)"
    using assms(3) Clear_out_of_range [of a "ucast (ip_slot addr subnet)"]
    by (simp add: ReleaseIP.simps gbind_def G m get_view_def go_basic)
  show "MarkUsed (Suc fuel) VNI addr subnet s = (Panic index_panic, tick (cluster s) s)"
    using assms(3) Set_out_of_range [of a "ip_slot addr subnet"]
    by (simp add: MarkUsed.simps gbind_def G m get_view_def go_basic)
qed

text \<open>
  Releasing or marking an address whose slot lies outside the stored vector (an address
  outside the subnet, and also the network address itself, whose slot is \<open>2^32 - 1\<close>) makes the
  index expression panic; nothing is written.
\<close>

theorem foreign_address_panics:
  assumes "quiet_for 1 s" and "value_at (cluster s) (ip_path VNI subnet) = Some a"
    and "8 * length a \<le> unat (ip_slot addr subnet)"
  shows "ReleaseIP (Suc fuel) addr subnet VNI s = (Panic index_panic, tick (cluster s) s) \<and>
    MarkUsed (Suc fuel) VNI addr subnet s = (Panic index_panic, tick (cluster s) s)"
  using foreign_slot_panics [OF assms] by blast

theorem foreign_address_panics_witness:
  "ReleaseIP 1 (net_IP net24) net24 ''7'' (holding (ip_path ''7'' net24) (replicate 32 0)) =
    (Panic index_panic, tick (cluster (holding (ip_path ''7'' net24) (replicate 32 0)))
       (holding (ip_path ''7'' net24) (replicate 32 0)))"
  using foreign_address_panics [of "holding (ip_path ''7'' net24) (replicate 32 0)" "''7''" net24
      "replicate 32 0" "net_IP net24" 0]
  by simp

section \<open>The retry loop ends\<close>

text \<open>Scanning a vector never leaves it, whatever its length.\<close>

lemma TestAndSet_from_defined: "TestAndSet_from a i \<noteq> None"
proof (induction a i rule: TestAndSet_from.induct)
  case (1 a i)
  show ?case
  proof (cases "i < of_nat (length a * 8)")
    case True
    then have "unat i < unat (of_nat (length a * 8) :: 32 word)" by (simp add: word_less_nat_alt)
    also have "\<dots> \<le> length a * 8" by (simp only: unat_of_nat mod_less_eq_dividend)
    finally have lt: "unat i < 8 * length a" by simp
    obtain a' where "Set a i = Some a'" using Set_used [OF lt] by blast
    with 1 True show ?thesis
      by (subst TestAndSet_from.simps) (auto simp: test_used [OF lt] split: bool.split)
  next
    case False
    then show ?thesis by (subst TestAndSet_from.simps) simp
  qed
qed

lemma TestAndSet_defined: obtains p a' where "TestAndSet a = Some (p, a')"
  using TestAndSet_from_defined [of a 0] unfolding TestAndSet_def by force

text \<open>A read always comes back with a value, after one request.\<close>

lemma Get_step:
  obtains v m ok s' where "Get store key s = (Ret (v, m, ok), s')" "clock s' = Suc (clock s)" "sched s' = sched s"
proof (cases "fault (sched s (clock s)) = Up")
  case True
  then have "up_for (Suc 0) s" by (simp add: up_for_def)
  from Get_up [OF this, of store key] that show ?thesis by (metis surj_pair tick_simps(2,3))
next
  case False
  then obtain r s' where "http_do (HGet (key_path store key)) s = (Ret r, s')"
      "clock s' = Suc (clock s)" "sched s' = sched s" "case r of None \<Rightarrow> True | Some x \<Rightarrow> \<not> success x"
    by (cases "fault (sched s (clock s))"; cases "KVSEndpoint (HGet (key_path store key)) (served s)")
       (auto simp: http_do_def success_def text_resp_def)
  with that [of "[]" 0 False s'] show ?thesis
    by (auto simp: Get_def gbind_def gret_def split: option.splits)
qed

lemma Put_step:
  obtains r s' where "Put store key v old s = (Ret r, s')"
    "r = OUTDATED \<Longrightarrow> clock s' = clock s + 1" "sched s' = sched s"
proof -
  obtain e m ok s1 where G: "Get store key s = (Ret (e, m, ok), s1)" "clock s1 = Suc (clock s)" "sched s1 = sched s"
    by (rule Get_step)
  have H: "\<exists>x s2. http_do rq s1 = (Ret x, s2) \<and> sched s2 = sched s1" for rq
    by (auto simp: http_do_def split: prod.splits fault.splits)
  obtain x s2 where "http_do (HPutCas (key_path store key) m v) s1 = (Ret x, s2)" "sched s2 = sched s1"
    using H by blast
  with G that show ?thesis
    by (cases "ok \<and> old \<noteq> e"; cases x;
        cases "http_body (the x) = Text ''false''") (auto simp: Put_def gbind_def gret_def)
qed

text \<open>Requests \<open>n\<close> to \<open>n + k - 1\<close> from now are answered and nobody else writes around them.\<close>

definition quiet_from :: "nat \<Rightarrow> nat \<Rightarrow> net \<Rightarrow> bool" where
  "quiet_from n k s \<longleftrightarrow> (\<forall>i < k. sched s (clock s + n + i) = quiet_env)"

lemma quiet_from_0: "quiet_from 0 k s \<longleftrightarrow> quiet_for k s"
  by (simp add: quiet_from_def quiet_for_def)

lemma quiet_from_later:
  "quiet_from (n + m) k s \<Longrightarrow> sched s' = sched s \<Longrightarrow> clock s' = clock s + m \<Longrightarrow> quiet_from n k s'"
  by (auto simp: quiet_from_def add.assoc add.left_commute)

lemma Put_after_Get_quiet:
  assumes "quiet_for 2 s" and "Get store k s = (Ret (v, m, ok), s1)"
    and "Put store k new old s1 = (Ret r, s2)" and "ok \<Longrightarrow> old = v"
  shows "r \<noteq> OUTDATED"
proof -
  have q: "quiet_for (Suc 1) s" "quiet_for (Suc 0) (tick (cluster s) s)"
    using assms(1) quiet_for_later [OF assms(1), of "tick (cluster s) s" 1] by (simp_all add: numeral_2_eq_2)
  have g: "get_view (kv_lookup (cluster s) (key_path store k)) = (v, m, ok)" "s1 = tick (cluster s) s"
    using Get_quiet [OF q(1), of store k] assms(2) by auto
  have "Get store k s1 = (Ret (v, m, ok), tick (cluster s) s1)"
    using Get_quiet [OF q(2), of store k] g by simp
  then show ?thesis
    using assms(3,4) by (auto simp: Put_def gbind_def gret_def split: option.splits prod.splits outcome.splits if_splits)
qed

text \<open>One round: read, take a slot, write; then either done or again.\<close>

lemma RequestIP_round:
  assumes "v4_subnet n subnet"
  obtains v m ok s1 old new r s2 where
    "Get ipStore (ip_key VNI subnet) s = (Ret (v, m, ok), s1)" "ok \<Longrightarrow> old = v"
    "Put ipStore (ip_key VNI subnet) new old s1 = (Ret r, s2)"
    "r \<noteq> OUTDATED \<Longrightarrow> \<exists>ip. RequestIP (Suc fuel) VNI subnet s = (Ret ip, s2) \<and> length ip = 4"
    "r = OUTDATED \<Longrightarrow> RequestIP (Suc fuel) VNI subnet s = RequestIP fuel VNI subnet s2"
    "r = OUTDATED \<Longrightarrow> clock s2 = clock s + 2" "sched s2 = sched s"
proof -
  let ?key = "ip_key VNI subnet"
  obtain v m ok s1 where G: "Get ipStore ?key s = (Ret (v, m, ok), s1)" "clock s1 = Suc (clock s)" "sched s1 = sched s"
    by (rule Get_step)
  define old where "old = (if ok then v else fresh_pool subnet)"
  obtain p new where T: "TestAndSet old = Some (p, new)" by (rule TestAndSet_defined)
  obtain r s2 where P: "Put ipStore ?key new old s1 = (Ret r, s2)" "r = OUTDATED \<Longrightarrow> clock s2 = clock s1 + 1"
      "sched s2 = sched s1"
    by (rule Put_step [of ipStore ?key new old s1]) blast
  have num: "binary_Read32 (net_IP subnet) = Some (read32 (net_IP subnet))"
    using assms by (auto simp: v4_subnet_def elim!: length_4E)
  have run: "RequestIP (Suc fuel) VNI subnet s =
      (if r = OUTDATED then RequestIP fuel VNI subnet s2 else (Ret (PutUint32 (read32 (net_IP subnet) + p)), s2))"
    using G(1) T P(1) num fresh_pool_v4(1) [OF assms]
    by (cases ok) (simp_all add: RequestIP.simps gbind_def go_basic old_def)
  show ?thesis
    by (rule that [OF G(1) _ P(1)]) (use run G P in \<open>auto simp: old_def\<close>)
qed

text \<open>
  C17. \<open>RequestIP\<close> returns an address: it retries only after an outdated write, two requests per
  round, so as soon as the read and the re-read of some round \<open>j\<close> are served with nobody
  writing in between, \<open>j + 1\<close> rounds are enough, whatever happened to the rounds before.
\<close>

theorem RequestIP_terminates:
  assumes "v4_subnet n subnet" and "quiet_from (2 * j) 2 s"
  shows "\<exists>ip s'. RequestIP (Suc j) VNI subnet s = (Ret ip, s') \<and> length ip = 4"
  using assms(2)
proof (induction j arbitrary: s)
  case (0 s)
  then have "quiet_for 2 s" by (simp add: quiet_from_0)
  then show ?case
    by (rule_tac RequestIP_round [OF assms(1), of VNI s 0]) (metis Put_after_Get_quiet)
next
  case (Suc j)
  have q: "quiet_from (2 * j + 2) 2 s" using Suc.prems by simp
  show ?case
    by (rule RequestIP_round [OF assms(1), of VNI s "Suc j"])
       (metis Suc.IH quiet_from_later [OF q])
qed

theorem RequestIP_terminates_witness:
  "\<exists>ip s'. RequestIP 4 ''7'' net24 (idle\<lparr>sched := (\<lambda>i. if i < 6 then \<lparr>others = [], fault = NoConn\<rparr> else quiet_env)\<rparr>)
     = (Ret ip, s') \<and> length ip = 4"
proof -
  have "quiet_from (2 * 3) 2 (idle\<lparr>sched := (\<lambda>i. if i < 6 then \<lparr>others = [], fault = NoConn\<rparr> else quiet_env)\<rparr>)"
    by (simp add: quiet_from_def)
  from RequestIP_terminates [OF v4_subnet_net24 this, of "''7''"] show ?thesis
    by (simp add: eval_nat_numeral)
qed

section \<open>Where the guarantee ends\<close>

text \<open>
  C34. A request that loses the race for its write still returns the address: if another node
  takes the first slot between the re-read and the write, the guarded write is refused,
  \<^verbatim>\<open>Put\<close> reports \<open>ERROR\<close>, and \<open>RequestIP\<close>, which looks for \<open>OUTDATED\<close> only, hands out the address
  of the slot that the other node now owns.
\<close>

theorem RequestIP_lost_race:
  assumes "v4_subnet n subnet" and "10 \<le> n"
  shows "\<exists>a s s'. net_ok s \<and> up_for 3 s \<and> value_at (cluster s) (ip_path VNI subnet) = None \<and>
    others (sched s (clock s + 2)) = [cas_request (ip_path VNI subnet) 0 a] \<and> used a = {0} \<and>
    RequestIP (Suc fuel) VNI subnet s = (Ret (slot_addr subnet 0), s') \<and>
    value_at (cluster s') (ip_path VNI subnet) = Some a"
proof -
  let ?key = "ip_key VNI subnet" and ?path = "ip_path VNI subnet" and ?f = "fresh_pool subnet"
  have len: "length ?f = (if n \<le> 29 then 2 ^ (29 - n) else 1)" by (rule fresh_pool_v4(2) [OF assms(1)])
  have "(2 :: nat) ^ (29 - n) \<le> 2 ^ 19" using assms(2) by (intro power_increasing) auto
  then have fits: "length ?f \<le> maxKVSize" "8 * length ?f < 2 ^ 32" "0 < length ?f"
    using len by (auto simp: maxKVSize_def)
  obtain k a where k: "\<forall>j<k. j \<in> used ?f" "TestAndSet ?f = Some (of_nat (k + 1), a)" "length a = length ?f"
      "used a = insert k (used ?f)"
    using TestAndSet_free [OF fits(2)] fits(3) by (metis empty_is_lessThan mult_is_0 neq0_conv pool_idle(2) zero_neq_numeral)
  have k0: "k = 0" and a: "used a = {0}" using k by auto
  define s where "s = idle\<lparr>sched := (\<lambda>i. \<lparr>others = (if i = 2 then [cas_request ?path 0 a] else []), fault = Up\<rparr>)\<rparr>"
  let ?s1 = "tick (cluster idle) s" and ?c = "snd (kv_cas ?path 0 a (cluster idle))"
  have up: "up_for n s" for n by (simp add: up_for_def s_def)
  have G: "Get ipStore ?key s = (Ret ([], 0, False), ?s1)"
    using Get_up [of 0 s ipStore ?key] up by (simp add: s_def served_def get_view_def)
  have taken: "served (tick (served ?s1) ?s1) = ?c"
    by (simp add: served_def s_def kv_cas_def split: prod.split)
  have cas: "kv_cas ?path 0 a (cluster idle) = (True, ?c)" "value_at ?c = (value_at (cluster idle))(?path \<mapsto> a)"
    "consul_ok ?c"
    using kv_cas_current [of "cluster idle" ?path a] idle_simps(1) by (auto simp: kv.version_def net_ok_def)
  have refused: "fst (kv_cas ?path 0 a ?c) = False"
    using kv.cas_decides [OF cas(3), of ?path 0 a] kv.version_range [OF cas(3), of ?path]
      fun_cong [OF cas(2), of ?path]
    by (auto simp: value_at_def split: option.splits)
  have up1: "up_for (Suc (Suc 0)) ?s1" by (rule up_for_tick [OF up])
  have served1: "served ?s1 = cluster idle" by (simp add: served_def s_def)
  let ?s2 = "tick (snd (kv_cas ?path 0 a ?c)) (tick (cluster idle) ?s1)"
  have fits': "length a \<le> maxKVSize" using fits(1) k(3) by simp
  have P: "Put ipStore ?key a ?f ?s1 = (Ret ERROR, ?s2)"
    using Put_up [OF up1 fits', of ipStore ?key ?f] refused taken served1
    by (simp add: stale_def kv.version_def)
  have "kv_lookup (snd (kv_cas ?path 0 a ?c)) = kv_lookup ?c"
    using kv.cas_refuses [OF cas(3), of ?path 0 a] refused by (metis (full_types) prod.collapse)
  then have "value_at (cluster ?s2) ?path = Some a"
    using cas(2) by (simp add: value_at_def fun_eq_iff)
  moreover have "RequestIP (Suc fuel) VNI subnet s = (Ret (slot_addr subnet 0), ?s2)"
    using G k(2) k0 P fresh_pool_v4(1) [OF assms(1)] assms(1)
    by (auto simp: RequestIP.simps gbind_def go_basic slot_addr_def v4_subnet_def elim!: length_4E)
  moreover have "net_ok s" "value_at (cluster s) ?path = None"
      "others (sched s (clock s + 2)) = [cas_request ?path 0 a]"
    using idle_simps(1) by (simp_all add: s_def net_ok_def)
  ultimately show ?thesis using up a by blast
qed

theorem RequestIP_lost_race_witness:
  "\<exists>a s s'. net_ok s \<and> others (sched s (clock s + 2)) = [cas_request (ip_path ''7'' net24) 0 a] \<and> used a = {0} \<and>
    RequestIP 1 ''7'' net24 s = (Ret (slot_addr net24 0), s')"
  using RequestIP_lost_race [OF v4_subnet_net24, of "''7''" 0] by auto

text \<open>
  C36. The pool of a network with a mask of at most nine bits is larger than a store entry may
  be. The agent answers 413, \<^verbatim>\<open>Put\<close> reports \<open>OK\<close>, nothing is stored: every request returns the same
  first address.
\<close>

theorem RequestIP_oversize:
  assumes "v4_subnet n subnet" and "n \<le> 9" and "quiet_for 3 s"
    and "value_at (cluster s) (ip_path VNI subnet) = None"
  shows "\<exists>s'. RequestIP (Suc fuel) VNI subnet s = (Ret (slot_addr subnet 0), s') \<and>
    cluster s' = cluster s"
proof -
  let ?key = "ip_key VNI subnet" and ?path = "ip_path VNI subnet" and ?f = "fresh_pool subnet"
  let ?s1 = "tick (cluster s) s"
  have len: "length ?f = 2 ^ (29 - n)" using fresh_pool_v4(2) [OF assms(1)] assms(2) by simp
  have "(2 :: nat) ^ 20 \<le> 2 ^ (29 - n)" using assms(2) by (intro power_increasing) auto
  then have big: "maxKVSize < length ?f" using len by (simp add: maxKVSize_def)
  obtain a where a: "TestAndSet ?f = Some (1, a)" "length a = length ?f"
  proof (cases "n = 0")
    case True
    then have "(of_nat (length ?f * 8) :: 32 word) = 0" using len by simp
    then show ?thesis using that [of ?f] by (simp add: TestAndSet_def TestAndSet_from.simps)
  next
    case False
    then have "(2 :: nat) ^ (29 - n) \<le> 2 ^ 28" by (intro power_increasing) auto
    then have small: "8 * length ?f < 2 ^ 32" using len by simp
    obtain k a where k: "\<forall>j<k. j \<in> used ?f" "TestAndSet ?f = Some (of_nat (k + 1), a)" "length a = length ?f"
      using TestAndSet_free [OF small] len by (metis empty_is_lessThan mult_is_0 pool_idle(2) power_not_zero zero_neq_numeral)
    then have "k = 0" by auto
    with k that show ?thesis by simp
  qed
  have q: "quiet_for (Suc 2) s" using assms(3) by (simp add: numeral_3_eq_3 numeral_2_eq_2)
  have q1: "quiet_for 2 ?s1" using quiet_for_later [OF q, of ?s1 1] by simp
  have q2: "quiet_for 1 (tick (cluster s) ?s1)" using quiet_for_later [OF q, of "tick (cluster s) ?s1" 2] by simp
  have none: "kv_lookup (cluster s) ?path = None" using assms(4) by (simp add: value_at_def)
  have served: "served ?s1 = cluster s" "served (tick (cluster s) ?s1) = cluster s"
    using quiet_served [of 1 ?s1] quiet_served [of 0 "tick (cluster s) ?s1"] q1 q2
    by (simp_all add: numeral_2_eq_2)
  have "Put ipStore ?key a ?f ?s1 = (Ret OK, tick (cluster s) (tick (cluster s) ?s1))"
    using Put_oversize [OF quiet_up [OF q1], of a ?f ipStore ?key] big a(2) none served
    by (simp add: stale_def)
  then have "RequestIP (Suc fuel) VNI subnet s =
      (Ret (slot_addr subnet 0), tick (cluster s) (tick (cluster s) ?s1))"
    using Get_quiet [OF q, of ipStore ?key] none a fresh_pool_v4(1) [OF assms(1)] assms(1)
    by (auto simp: RequestIP.simps gbind_def go_basic get_view_def slot_addr_def v4_subnet_def elim!: length_4E)
  then show ?thesis by simp
qed

definition net8 :: IPNet where
  "net8 = \<lparr>net_IP = [10, 0, 0, 0], net_Mask = [255, 0, 0, 0]\<rparr>"

lemma v4_subnet_net8: "v4_subnet 8 net8"
  by (simp add: v4_subnet_def net8_def CIDRMask_def cidr_bytes_numeral)

theorem RequestIP_oversize_witness:
  "\<exists>s'. RequestIP 1 ''7'' net8 idle = (Ret (slot_addr net8 0), s') \<and> cluster s' = cluster idle"
  using RequestIP_oversize [OF v4_subnet_net8, of idle "''7''" 0] by simp

section \<open>Network identifiers\<close>

abbreviation vni_path :: string where
  "vni_path \<equiv> key_path vlanStore ''vlan''"

definition vni_pool :: "consul \<Rightarrow> bytes" where
  "vni_pool c = (case value_at c vni_path of Some v \<Rightarrow> v | None \<Rightarrow> vlan_zeros)"

lemma vlan_zeros_simps [simp]: "length vlan_zeros = 125000" "used vlan_zeros = {}"
  by (simp_all add: vlan_zeros_def vlanCount_def)

lemma go_copy_vlan_zeros [simp]: "length v = 125000 \<Longrightarrow> go_copy vlan_zeros v = v"
  by simp

text \<open>The read and the write around a change of the vector.\<close>

lemma vni_read_write_quiet:
  assumes "net_ok s" and "quiet_for 3 s" and "length a' \<le> maxKVSize"
  obtains v m ok s' where "Get vlanStore ''vlan'' s = (Ret (v, m, ok), tick (cluster s) s)"
    "(if ok then v else vlan_zeros) = vni_pool (cluster s)"
    "Put vlanStore ''vlan'' a' (vni_pool (cluster s)) (tick (cluster s) s) = (Ret OK, s')"
    "net_ok s'" "sched s' = sched s" "clock s' = clock s + 3"
    "value_at (cluster s') = (value_at (cluster s))(vni_path \<mapsto> a')"
proof -
  let ?s1 = "tick (cluster s) s"
  have q: "quiet_for (Suc 2) s" using assms(2) by (simp add: numeral_3_eq_3 numeral_2_eq_2)
  have q1: "quiet_for 2 ?s1" using quiet_for_later [OF q, of ?s1 1] by simp
  have ok1: "net_ok ?s1" using assms(1) by (simp add: net_ok_def)
  have "\<not> stale (vni_pool (cluster s)) (kv_lookup (cluster ?s1) vni_path)"
    by (auto simp: stale_def vni_pool_def value_at_def split: option.splits)
  from Put_quiet [OF ok1 q1 assms(3) this] obtain s' where
      "Put vlanStore ''vlan'' a' (vni_pool (cluster s)) ?s1 = (Ret OK, s')" "net_ok s'" "sched s' = sched ?s1"
      "clock s' = clock ?s1 + 2" "value_at (cluster s') = (value_at (cluster ?s1))(vni_path \<mapsto> a')"
    by blast
  with Get_quiet [OF q, of vlanStore "''vlan''"] that [of "[]" 0 False s'] that [of _ _ True s'] show ?thesis
    by (cases "kv_lookup (cluster s) vni_path") (auto simp: get_view_def vni_pool_def value_at_def)
qed

lemma allocateVNI_run:
  assumes "Get vlanStore ''vlan'' s = (Ret (v, m, ok), s1)"
    and "(if ok then v else vlan_zeros) = a" and "length a = 125000"
    and "TestAndSet a = Some (p, a')"
  shows "allocateVNI s = (if of_nat vlanCount < p then (Ret (ucast p, Some ''All VNI have been used''), s1)
    else gbind (Put vlanStore ''vlan'' a' a) (\<lambda>_. gret (ucast p, None)) s1)"
  using assms by (auto simp: allocateVNI_def gbind_def go_basic Let_def)

lemma ucast_of_nat_32: "n < 2 ^ 32 \<Longrightarrow> (ucast (of_nat n :: 32 word) :: 64 word) = of_nat n"
  by (simp add: unsigned_ucast_eq word_unat_eq_iff of_nat_32_bound unat_of_nat)

lemma allocateVNI_take:
  assumes "net_ok s" and "quiet_for 3 s" and "length (vni_pool (cluster s)) = 125000"
    and "used (vni_pool (cluster s)) \<noteq> {..<vlanCount}"
  obtains k a' s' where "k < vlanCount" "k \<notin> used (vni_pool (cluster s))" "\<forall>j < k. j \<in> used (vni_pool (cluster s))"
    "allocateVNI s = (Ret (of_nat (k + 1), None), s')" "net_ok s'" "sched s' = sched s" "clock s' = clock s + 3"
    "value_at (cluster s') = (value_at (cluster s))(vni_path \<mapsto> a')"
    "length a' = 125000" "used a' = insert k (used (vni_pool (cluster s)))"
proof -
  let ?p = "vni_pool (cluster s)"
  have small: "8 * length ?p < 2 ^ 32" and cap: "8 * length ?p = vlanCount"
    using assms(3) by (simp_all add: vlanCount_def)
  obtain k a' where k: "k < vlanCount" "k \<notin> used ?p" "\<forall>j<k. j \<in> used ?p"
      "TestAndSet ?p = Some (of_nat (k + 1), a')" "length a' = length ?p" "used a' = insert k (used ?p)"
    using TestAndSet_free [OF small] cap assms(4) by metis
  have fits: "length a' \<le> maxKVSize" using k(5) assms(3) by (simp add: maxKVSize_def)
  obtain v m ok s' where w: "Get vlanStore ''vlan'' s = (Ret (v, m, ok), tick (cluster s) s)"
      "(if ok then v else vlan_zeros) = ?p"
      "Put vlanStore ''vlan'' a' ?p (tick (cluster s) s) = (Ret OK, s')"
      "net_ok s'" "sched s' = sched s" "clock s' = clock s + 3"
      "value_at (cluster s') = (value_at (cluster s))(vni_path \<mapsto> a')"
    by (rule vni_read_write_quiet [OF assms(1,2) fits])
  have "\<not> of_nat vlanCount < (of_nat (k + 1) :: 32 word)"
    using k(1) by (simp add: word_less_nat_alt of_nat_32_bound vlanCount_def del: of_nat_Suc of_nat_add)
  then have "allocateVNI s = (Ret (of_nat (k + 1), None), s')"
    using allocateVNI_run [OF w(1,2) assms(3) k(4)] w(3) k(1) ucast_of_nat_32 [of "k + 1"]
    by (simp add: gbind_def gret_def vlanCount_def del: of_nat_Suc of_nat_add)
  with that k w(4-7) assms(3) show ?thesis by metis
qed

lemma allocateVNI_exhausted:
  assumes "net_ok s" and "quiet_for 3 s" and "length (vni_pool (cluster s)) = 125000"
    and "used (vni_pool (cluster s)) = {..<vlanCount}"
  shows "allocateVNI s = (Ret (of_nat (vlanCount + 1), Some ''All VNI have been used''), tick (cluster s) s)"
proof -
  let ?p = "vni_pool (cluster s)"
  have small: "8 * length ?p < 2 ^ 32" and cap: "8 * length ?p = vlanCount"
    using assms(3) by (simp_all add: vlanCount_def)
  have fits: "length ?p \<le> maxKVSize" using assms(3) by (simp add: maxKVSize_def)
  obtain v m ok s' where "Get vlanStore ''vlan'' s = (Ret (v, m, ok), tick (cluster s) s)"
      "(if ok then v else vlan_zeros) = ?p"
    by (rule vni_read_write_quiet [OF assms(1,2) fits])
  from allocateVNI_run [OF this assms(3) TestAndSet_full [OF small]] assms(4) cap show ?thesis
    by (simp add: vlanCount_def)
qed

text \<open>
  C26. With nobody else at the key, \<open>allocateVNI\<close> returns the least VNI not in use, between 1 and
  a million, records it and touches no other key; when all are in use it returns the error
  and writes nothing.
\<close>

theorem allocateVNI_least:
  assumes "net_ok s" and "quiet_for 3 s" and "length (vni_pool (cluster s)) = 125000"
  shows "if used (vni_pool (cluster s)) = {..<vlanCount}
    then allocateVNI s = (Ret (of_nat (vlanCount + 1), Some ''All VNI have been used''), tick (cluster s) s)
    else \<exists>k a' s'. k < vlanCount \<and> k \<notin> used (vni_pool (cluster s)) \<and> (\<forall>j < k. j \<in> used (vni_pool (cluster s))) \<and>
      allocateVNI s = (Ret (of_nat (k + 1), None), s') \<and>
      value_at (cluster s') = (value_at (cluster s))(vni_path \<mapsto> a') \<and>
      length a' = 125000 \<and> used a' = insert k (used (vni_pool (cluster s)))"
proof (cases "used (vni_pool (cluster s)) = {..<vlanCount}")
  case True
  then show ?thesis using allocateVNI_exhausted [OF assms] by simp
next
  case False
  show ?thesis unfolding if_not_P [OF False]
    by (rule allocateVNI_take [OF assms False]) metis
qed

theorem allocateVNI_least_witness:
  "\<exists>k s'. k < vlanCount \<and> allocateVNI idle = (Ret (of_nat (k + 1), None), s')"
  using allocateVNI_least [of idle] by (auto simp: vni_pool_def vlanCount_def split: if_splits)

lemma releaseVNI_quiet:
  assumes "net_ok s" and "quiet_for 3 s" and "length (vni_pool (cluster s)) = 125000" and "k < vlanCount"
  obtains a' s' where "releaseVNI (Suc fuel) (of_nat (k + 1)) s = (Ret (), s')"
    "net_ok s'" "sched s' = sched s" "clock s' = clock s + 3"
    "value_at (cluster s') = (value_at (cluster s))(vni_path \<mapsto> a')"
    "length a' = 125000" "used a' = used (vni_pool (cluster s)) - {k}"
proof -
  let ?p = "vni_pool (cluster s)"
  have idx: "(of_nat (k + 1) :: uint) - 1 = of_nat k" and k: "unat (of_nat k :: uint) = k"
    using assms(4) by (simp_all add: unat_of_nat vlanCount_def)
  obtain a' where a: "Clear ?p (of_nat k) = Some a'" "length a' = length ?p" "used a' = used ?p - {k}"
    using Clear_used [of "of_nat k" ?p] k assms(3,4) by (auto simp: vlanCount_def)
  have fits: "length a' \<le> maxKVSize" using a(2) assms(3) by (simp add: maxKVSize_def)
  obtain v m ok s' where w: "Get vlanStore ''vlan'' s = (Ret (v, m, ok), tick (cluster s) s)"
      "(if ok then v else vlan_zeros) = ?p"
      "Put vlanStore ''vlan'' a' ?p (tick (cluster s) s) = (Ret OK, s')"
      "net_ok s'" "sched s' = sched s" "clock s' = clock s + 3"
      "value_at (cluster s') = (value_at (cluster s))(vni_path \<mapsto> a')"
    by (rule vni_read_write_quiet [OF assms(1,2) fits])
  have "releaseVNI (Suc fuel) (of_nat (k + 1)) s = (Ret (), s')"
    using w(1,2,3) a(1) assms(3) idx
    by (cases ok) (auto simp: releaseVNI.simps gbind_def go_basic Let_def simp del: of_nat_Suc of_nat_add)
  with that a(2,3) w(4-7) assms(3) show ?thesis by metis
qed

text \<open>
  Releasing a VNI gives its slot back and leaves everything else alone, so that it is available
  for the next network.
\<close>

theorem releaseVNI_frees:
  assumes "net_ok s" and "quiet_for 3 s" and "length (vni_pool (cluster s)) = 125000"
    and "k < vlanCount"
  shows "\<exists>a' s'. releaseVNI (Suc fuel) (of_nat (k + 1)) s = (Ret (), s') \<and>
    value_at (cluster s') = (value_at (cluster s))(vni_path \<mapsto> a') \<and>
    length a' = 125000 \<and> used a' = used (vni_pool (cluster s)) - {k}"
  by (rule releaseVNI_quiet [OF assms, of fuel]) metis

theorem releaseVNI_frees_witness:
  "\<exists>a' s'. releaseVNI 1 (of_nat (3 + 1)) (holding vni_path vlan_zeros) = (Ret (), s') \<and>
    value_at (cluster s') vni_path = Some a' \<and> used a' = {}"
  using releaseVNI_frees [of "holding vni_path vlan_zeros" 3 0] by (auto simp: vni_pool_def vlanCount_def)

end
