(* ===== verification/NetworkProps.thy ===== *)
theory NetworkProps
  imports NetworkMgr Allocation
begin

text \<open>
  What holds of networks: the store stays well formed, a created network is the one that is read
  back, an existing name changes nothing, deletion removes the record and frees the VNI
  but leaves the address pool, the chosen subnet is free of routes, the rules of a
  network shut it off from every other one, and reconciliation forgets what the store no
  longer has.
\<close>

section \<open>What the operations keep\<close>

context os_inv
begin

lemma keeps_installRule [keeps_intro]: "keeps I (installRule h args)"
  unfolding installRule_def by (intro keeps_intro)

end

context world_inv
begin

lemma keeps_GetNetwork [keeps_intro]: "keeps I (GetNetwork name)"
  unfolding GetNetwork_def by (intro keeps_intro)

lemma keeps_GetNetworks [keeps_intro]: "keeps I GetNetworks"
  unfolding GetNetworks_def by (intro keeps_intro)

lemma keeps_drop_rules [keeps_intro]: "keeps I (drop_rules h name ns)"
proof (induction ns)
  case (Cons n ns)
  show ?case unfolding drop_rules.simps by (intro keeps_intro Cons.IH)
qed (simp add: keeps_basic)

lemma keeps_setupIPTables [keeps_intro]: "keeps I (setupIPTables h name ip)"
  unfolding setupIPTables_def by (intro keeps_intro)

lemma keeps_CreateNetwork_branches [keeps_intro]:
  "keeps I (CreateNetwork_new h render fuel name subnet VNI)"
  "keeps I (CreateNetwork_existing fuel name subnet VNI addr)"
  unfolding CreateNetwork_new_def CreateNetwork_existing_def by (intro keeps_intro)+

lemma keeps_CreateNetwork [keeps_intro]: "keeps I (CreateNetwork h render fuel name subnet)"
proof (induction fuel arbitrary: subnet)
  case (Suc fuel)
  show ?case unfolding CreateNetwork.simps by (intro keeps_intro Suc.IH)
qed (simp add: keeps_basic)

lemma keeps_DeleteNetwork [keeps_intro]: "keeps I (DeleteNetwork h fuel name)"
  unfolding DeleteNetwork_def by (intro keeps_intro)

lemma keeps_GetAvailableSubnet [keeps_intro]: "keeps I (GetAvailableSubnet h)"
  unfolding GetAvailableSubnet_def by (intro keeps_intro)

lemma keeps_CreateDefaultNetwork [keeps_intro]: "keeps I (CreateDefaultNetwork h render fuel)"
  unfolding CreateDefaultNetwork_def by (intro keeps_intro)

end

lemma set_gateways_kv [simp]: "w_kv (set_gateways f w) = w_kv w"
  by (simp add: set_gateways_def)

lemma keeps_sync_add [keeps_intro]: "keeps w_ok (sync_add h render n)"
  unfolding sync_add_def by (intro keeps_intro) simp

lemma keeps_sync_add_all [keeps_intro]: "keeps w_ok (sync_add_all h render ns)"
proof (induction ns)
  case (Cons n ns)
  show ?case unfolding sync_add_all.simps by (intro keeps_intro Cons.IH)
qed (simp add: keeps_basic)

lemma keeps_sync_remove [keeps_intro]: "keeps w_ok (sync_remove h ns ks)"
proof (induction ks)
  case (Cons k ks)
  show ?case unfolding sync_remove.simps by (intro keeps_intro Cons.IH) simp
qed (simp add: keeps_basic)

lemma keeps_syncNetwork [keeps_intro]: "keeps w_ok (syncNetwork h render)"
  unfolding syncNetwork_def by (intro keeps_intro)

section \<open>Nobody else at the store\<close>

definition alone :: "net \<Rightarrow> bool" where
  "alone s \<longleftrightarrow> (\<forall>i. sched s i = quiet_env)"

lemma alone_quiet: "alone s \<Longrightarrow> quiet_for n s"
  by (simp add: alone_def quiet_for_def)

lemma alone_cong: "alone s \<Longrightarrow> sched s' = sched s \<Longrightarrow> alone s'"
  by (simp add: alone_def)

lemma alone_idle [simp]: "alone idle" "alone (holding p v)"
  by (simp_all add: alone_def idle_def holding_def)

lemma GetNetwork_run:
  assumes "alone (w_kv w)"
  shows "GetNetwork name w =
    (Ret (case value_at (cluster (w_kv w)) (key_path networkStore name) of
        None \<Rightarrow> Inl (''Network '' @ name @ '' not exist'') | Some v \<Rightarrow> Network_Unmarshal v),
     w\<lparr>w_kv := tick (cluster (w_kv w)) (w_kv w)\<rparr>)"
  using Get_quiet [OF alone_quiet [OF assms], of networkStore name]
  by (auto simp: GetNetwork_def gbind_def on_kv_def gret_def get_view_def value_at_def split: option.splits)

lemma GetNetworks_run:
  assumes "alone (w_kv w)"
  obtains r where "GetNetworks w = (Ret r, w\<lparr>w_kv := tick (cluster (w_kv w)) (w_kv w)\<rparr>)"
proof -
  let ?s = "w_kv w"
  have q: "quiet_for (Suc 0) ?s" by (rule alone_quiet [OF assms])
  have "\<exists>x. GetAll networkStore ?s = (Ret x, tick (cluster ?s) ?s)"
    using http_do_up [OF quiet_up [OF q], of "HGetRecurse networkStore"] quiet_served [OF q]
    by (auto simp: GetAll_def gbind_def gret_def KVSEndpoint_def Let_def)
  then show ?thesis using that by (auto simp: GetNetworks_def gbind_def on_kv_def gret_def)
qed

section \<open>What the host answers\<close>

text \<open>The database answers every transaction, with errors in the answer perhaps.\<close>

definition ovs_answers :: "'o host \<Rightarrow> bool" where
  "ovs_answers h \<longleftrightarrow> (\<forall>ops s. fst (h_transact h ops s) \<noteq> None)"

lemma AddInternalPort_answers:
  assumes "ovs_answers h" and "w_ovsClient w"
  obtains err s' where "AddInternalPort h render b p t w = (Ret err, w\<lparr>w_os := s'\<rparr>)"
proof -
  obtain r s' where "h_transact h (AddInternalPort_ops b p t) (w_os w) = (Some r, s')"
    using assms(1) unfolding ovs_answers_def by (metis option.exhaust prod.collapse)
  from AddInternalPort_success [OF assms(2) this, of render] that show ?thesis by blast
qed

text \<open>
  The calls that set up the interface of a new network succeed, one after the other from the host
  state \<open>s\<close>: the transaction that makes the port is answered without an error, and the link
  that has appeared gets its MTU and its address and is brought up.
\<close>

definition setup_succeeds :: "'o host \<Rightarrow> string \<Rightarrow> uint \<Rightarrow> string \<Rightarrow> 'o \<Rightarrow> bool" where
  "setup_succeeds h name VNI cidr s \<longleftrightarrow> (case h_transact h (AddInternalPort_ops bridgeName name VNI) s of
      (None, _) \<Rightarrow> False
    | (Some reply, s1) \<Rightarrow> 3 \<le> length reply \<and> (\<forall>r \<in> set reply. or_Error r = []) \<and>
        (case SetMtu (h_netlink h) name mtu s1 of (err, s2) \<Rightarrow> err = None \<and>
        (case SetInterfaceIp (h_netlink h) name cidr s2 of (err, s3) \<Rightarrow> err = None \<and>
          fst (InterfaceUp (h_netlink h) name s3) = None)))"

lemma setup_succeedsE:
  assumes "setup_succeeds h name VNI cidr s"
  obtains reply s1 s2 s3 s4 where "h_transact h (AddInternalPort_ops bridgeName name VNI) s = (Some reply, s1)"
    "3 \<le> length reply \<and> (\<forall>r \<in> set reply. or_Error r = [])" "SetMtu (h_netlink h) name mtu s1 = (None, s2)"
    "SetInterfaceIp (h_netlink h) name cidr s2 = (None, s3)" "InterfaceUp (h_netlink h) name s3 = (None, s4)"
  using assms unfolding setup_succeeds_def by (auto split: prod.splits option.splits) (metis prod.collapse)

text \<open>Installing the rules of a network returns, with or without an error, and writes nothing to the store.\<close>

lemma installRule_returns: "\<exists>out err s'. installRule h args w = (Ret (out, err), w\<lparr>w_os := s'\<rparr>)"
proof (cases "h_LookPath h ''iptables'' (w_os w)")
  case None
  then show ?thesis by (auto simp: installRule_def gbind_def go_run gret_def intro: exI [of _ "w_os w"])
next
  case (Some p)
  then show ?thesis
    by (cases "h_exec h p args (w_os w)"; cases "snd (fst (h_exec h p args (w_os w)))")
       (auto simp: installRule_def gbind_def go_run gret_def)
qed

lemma drop_rules_returns: "\<exists>err s'. drop_rules h name ns w = (Ret err, w\<lparr>w_os := s'\<rparr>)"
proof (induction ns arbitrary: w)
  case Nil
  then show ?case by (auto simp: gret_def intro: exI [of _ "w_os w"])
next
  case (Cons n ns)
  obtain out err s1 where "installRule h (drop_rule name (nw_Name n)) w = (Ret (out, err), w\<lparr>w_os := s1\<rparr>)"
    using installRule_returns [of h "drop_rule name (nw_Name n)" w] by (elim exE) (rule that)
  then show ?case using Cons.IH [of w] Cons.IH [of "w\<lparr>w_os := s1\<rparr>"]
    by (cases err) (auto simp: gbind_def gret_def)
qed

lemma setupIPTables_returns:
  assumes "alone (w_kv w)"
  obtains err w' where "setupIPTables h name ip w = (Ret err, w')" "alone (w_kv w')" "cluster (w_kv w') = cluster (w_kv w)"
    "w_ovsClient w' = w_ovsClient w"
proof -
  obtain out err s1 where s1: "installRule h (nat_rule name ip) w = (Ret (out, err), w\<lparr>w_os := s1\<rparr>)"
    using installRule_returns [of h "nat_rule name ip" w] by (elim exE) (rule that)
  obtain r where r: "GetNetworks (w\<lparr>w_os := s1\<rparr>) =
      (Ret r, w\<lparr>w_os := s1, w_kv := tick (cluster (w_kv w)) (w_kv w)\<rparr>)"
    using GetNetworks_run [of "w\<lparr>w_os := s1\<rparr>"] assms by auto
  obtain e s2 where d: "drop_rules h name (case r of Inl _ \<Rightarrow> [] | Inr ns \<Rightarrow> ns)
      (w\<lparr>w_os := s1, w_kv := tick (cluster (w_kv w)) (w_kv w)\<rparr>) =
      (Ret e, w\<lparr>w_os := s1, w_kv := tick (cluster (w_kv w)) (w_kv w)\<rparr>\<lparr>w_os := s2\<rparr>)"
    using drop_rules_returns by metis
  have "alone (tick (cluster (w_kv w)) (w_kv w))" by (rule alone_cong [OF assms]) simp
  with s1 r d that [of _ "w\<lparr>w_os := s1\<rparr>"] that [of e "w\<lparr>w_os := s2, w_kv := tick (cluster (w_kv w)) (w_kv w)\<rparr>"] assms
  show ?thesis by (cases err; cases "out = []") (auto simp: setupIPTables_def gbind_def gret_def)
qed

section \<open>Creating a network\<close>

lemma net_paths_distinct [simp]:
  "key_path networkStore x \<noteq> vni_path" "vni_path \<noteq> key_path networkStore x"
  "key_path networkStore x \<noteq> ip_path v sn" "ip_path v sn \<noteq> key_path networkStore x"
  "vni_path \<noteq> ip_path v sn" "ip_path v sn \<noteq> vni_path"
  by (simp_all add: key_path_def networkStore_def vlanStore_def ipStore_def)

text \<open>The text handed to the kernel parses: the gateway with the mask of the subnet.\<close>

lemma ParseIPNet_gateway:
  assumes "v4_subnet n subnet" and "length gw = 4"
  shows "ParseIPNet (net_String \<lparr>net_IP = gw, net_Mask = net_Mask subnet\<rparr>) \<noteq> None"
proof -
  have n: "n \<le> 32" "net_Mask subnet = CIDRMask n 32" using assms(1) by (auto simp: v4_subnet_def)
  obtain a b c d where "gw = [a, b, c, d]" using assms(2) by (rule length_4E)
  then show ?thesis using n ParseCIDR_v4 [OF n(1)] by (simp add: ParseIPNet_def net_String_v4)
qed

lemma CreateNetwork_new_run:
  assumes "setup_succeeds h name VNI (net_String \<lparr>net_IP = gw, net_Mask = net_Mask subnet\<rparr>) (w_os w)" and "w_ovsClient w"
    and "RequestIP fuel (vni_str VNI) subnet (w_kv w) = (Ret gw, s1)"
  obtains os' where "CreateNetwork_new h render fuel name subnet VNI w =
    (Ret (Inr (\<lparr>nw_Name = name, nw_Subnet = net_String subnet, nw_Gateway = ip_String gw, nw_VNI = VNI\<rparr>, gw, subnet)),
     w\<lparr>w_kv := s1, w_os := os'\<rparr>)"
  using assms(1)
proof (rule setup_succeedsE)
  let ?w1 = "w\<lparr>w_kv := s1\<rparr>"
  fix reply o1 o2 o3 o4
  assume t: "h_transact h (AddInternalPort_ops bridgeName name VNI) (w_os w) = (Some reply, o1)"
      "3 \<le> length reply \<and> (\<forall>r \<in> set reply. or_Error r = [])"
    and o: "SetMtu (h_netlink h) name mtu o1 = (None, o2)"
      "SetInterfaceIp (h_netlink h) name (net_String \<lparr>net_IP = gw, net_Mask = net_Mask subnet\<rparr>) o2 = (None, o3)"
      "InterfaceUp (h_netlink h) name o3 = (None, o4)"
  have "AddInternalPort h render bridgeName name VNI ?w1 = (Ret None, ?w1\<lparr>w_os := o1\<rparr>)"
    using AddInternalPort_success [of ?w1 h bridgeName name VNI reply o1 render] t assms(2) by auto
  then show ?thesis
    by (intro that [of o4]) (simp add: CreateNetwork_new_def gbind_def on_kv_def assms(3) Let_def if_err_def on_os_def o gret_def)
qed

text \<open>The record of a network with a name of ordinary length fits a store entry.\<close>

lemma length_itoa: "n < 10 ^ Suc k \<Longrightarrow> length (itoa n) \<le> Suc k"
proof (induction k arbitrary: n)
  case 0
  then show ?case by (simp add: itoa_small)
next
  case (Suc k)
  have "n div 10 < 10 ^ Suc k" using Suc.prems by (simp add: less_mult_imp_div_less)
  from Suc.IH [OF this] show ?case by (cases "n < 10") (simp_all add: itoa_small itoa_large)
qed

lemma length_v4_string: "length ip = 4 \<Longrightarrow> length (v4_string ip) \<le> 15"
proof (erule length_4E)
  fix a b c d :: byte
  assume ip: "ip = [a, b, c, d]"
  have "length (itoa (unat x)) \<le> 3" for x :: byte
  proof -
    have "unat x < 2 ^ 8" using unsigned_less [of x, where ?'a = nat] by simp
    then have "unat x < 10 ^ Suc 2" by (rule order_less_le_trans) simp
    from length_itoa [OF this] show ?thesis by simp
  qed
  from this [of a] this [of b] this [of c] this [of d] show "length (v4_string ip) \<le> 15"
    by (simp add: ip v4_string_def)
qed

lemma length_enc_str: "length (enc_str s) \<le> 6 * length s + 2"
proof -
  have "length (concat (map esc_char s)) \<le> 6 * length s"
    by (induction s) (auto simp: esc_char_def)
  then show ?thesis by (simp add: enc_str_def)
qed

lemma length_Network_Marshal:
  assumes "v4_subnet n subnet" and "length name \<le> 80000"
  shows "length (Network_Marshal \<lparr>nw_Name = name, nw_Subnet = net_String subnet,
    nw_Gateway = ip_String (slot_addr subnet i), nw_VNI = VNI\<rparr>) \<le> maxKVSize"
proof -
  have n: "n \<le> 32" "net_Mask subnet = CIDRMask n 32" "length (net_IP subnet) = 4"
    using assms(1) by (auto simp: v4_subnet_def)
  have "net_String subnet = v4_string (net_IP subnet) @ ''/'' @ itoa n"
    using net_String_v4 [OF n(1,3)] n(2) by (metis IPNet.surjective old.unit.exhaust)
  moreover have "length (itoa n) \<le> 2" using length_itoa [of n 1] n(1) by simp
  ultimately have sub: "length (net_String subnet) \<le> 18" using length_v4_string [OF n(3)] by simp
  have "slot_addr subnet i \<noteq> []" using length_slot_addr [of subnet i] by (metis list.size(3) zero_neq_numeral)
  then have gw: "length (ip_String (slot_addr subnet i)) \<le> 15"
    using length_v4_string [of "slot_addr subnet i"] by (simp add: ip_String_def)
  have "unat VNI < 10 ^ Suc 19" using unsigned_less [of VNI, where ?'a = nat] by simp
  then have "length (itoa (unat VNI)) \<le> 20" using length_itoa by fastforce
  then show ?thesis
    using length_enc_str [of name] length_enc_str [of "net_String subnet"] length_enc_str [of "ip_String (slot_addr subnet i)"]
      length_enc_str [of "''name''"] length_enc_str [of "''subnet''"] length_enc_str [of "''gateway''"] length_enc_str [of "''vni''"]
      assms(2) sub gw
    by (simp add: Network_Marshal_def str_bytes_def maxKVSize_def)
qed

lemma CreateNetwork_run:
  assumes "w_ok w" and "alone (w_kv w)" and "w_ovsClient w" and "v4_subnet n subnet"
    and "\<And>VNI i. setup_succeeds h name VNI (net_String \<lparr>net_IP = slot_addr subnet i, net_Mask = net_Mask subnet\<rparr>) (w_os w)"
    and "value_at (cluster (w_kv w)) (key_path networkStore name) = None"
    and "GetIfaceAddr (h_netlink h) name (w_os w) = Inl e"
    and "length (vni_pool (cluster (w_kv w))) = 125000" and "used (vni_pool (cluster (w_kv w))) \<noteq> {..<vlanCount}"
    and "\<And>VNI. length (pool (cluster (w_kv w)) VNI subnet) \<le> maxKVSize \<and>
      used (pool (cluster (w_kv w)) VNI subnet) \<noteq> {..<8 * length (pool (cluster (w_kv w)) VNI subnet)}"
    and "length name \<le> 80000"
  shows "\<exists>k i nw err w' a1 a2. k \<notin> used (vni_pool (cluster (w_kv w))) \<and> (\<forall>j < k. j \<in> used (vni_pool (cluster (w_kv w)))) \<and>
    i \<notin> used (pool (cluster (w_kv w)) (vni_str (of_nat (k + 1))) subnet) \<and>
    nw = \<lparr>nw_Name = name, nw_Subnet = net_String subnet, nw_Gateway = ip_String (slot_addr subnet i), nw_VNI = of_nat (k + 1)\<rparr> \<and>
    CreateNetwork h render (Suc fuel) name subnet w = (Ret (Some nw, err), w') \<and>
    (\<exists>w1. fst (setupIPTables h name (net_String subnet) w1) = Ret err) \<and>
    w_ok w' \<and> alone (w_kv w') \<and> w_ovsClient w' \<and>
    value_at (cluster (w_kv w')) = (value_at (cluster (w_kv w)))(vni_path \<mapsto> a1,
      ip_path (vni_str (of_nat (k + 1))) subnet \<mapsto> a2, key_path networkStore name \<mapsto> Network_Marshal nw) \<and>
    k < vlanCount \<and> length a1 = 125000 \<and> used a1 = insert k (used (vni_pool (cluster (w_kv w)))) \<and>
    used a2 = insert i (used (pool (cluster (w_kv w)) (vni_str (of_nat (k + 1))) subnet))"
proof -
  let ?s0 = "w_kv w" and ?path = "key_path networkStore name"
  define s1 where "s1 = tick (cluster ?s0) ?s0"
  have s1: "net_ok s1" "alone s1" "cluster s1 = cluster ?s0"
    using assms(1,2) by (auto simp: s1_def w_ok_def net_ok_def alone_def)
  obtain k a1 s2 where k: "k < vlanCount" "k \<notin> used (vni_pool (cluster ?s0))" "\<forall>j < k. j \<in> used (vni_pool (cluster ?s0))"
      "allocateVNI s1 = (Ret (of_nat (k + 1), None), s2)" "net_ok s2" "sched s2 = sched s1" "clock s2 = clock s1 + 3"
      "value_at (cluster s2) = (value_at (cluster ?s0))(vni_path \<mapsto> a1)"
      "length a1 = 125000" "used a1 = insert k (used (vni_pool (cluster ?s0)))"
    using allocateVNI_take [OF s1(1) alone_quiet [OF s1(2)]] assms(8,9) unfolding s1(3) by metis
  have al2: "alone s2" by (rule alone_cong [OF s1(2) k(6)])
  define V where "V = vni_str (of_nat (k + 1))"
  define P where "P = pool (cluster ?s0) V subnet"
  have p2: "pool (cluster s2) V subnet = P" using k(8) by (simp add: P_def pool_def)
  have P: "length P \<le> maxKVSize" "used P \<noteq> {..<8 * length P}" using assms(10) unfolding P_def by blast+
  obtain i a2 s3 where i: "i \<notin> used P" "RequestIP (Suc fuel) V subnet s2 = (Ret (slot_addr subnet i), s3)"
      "net_ok s3" "sched s3 = sched s2"
      "value_at (cluster s3) = (value_at (cluster s2))(ip_path V subnet \<mapsto> a2)" "used a2 = insert i (used P)"
    by (rule RequestIP_least [OF k(5) alone_quiet [OF al2] assms(4), of V, unfolded p2, OF P, of fuel])
  have al3: "alone s3" by (rule alone_cong [OF al2 i(4)])
  define nw where "nw = \<lparr>nw_Name = name, nw_Subnet = net_String subnet, nw_Gateway = ip_String (slot_addr subnet i), nw_VNI = of_nat (k + 1)\<rparr>"
  let ?w2 = "w\<lparr>w_kv := s2\<rparr>"
  have req: "RequestIP (Suc fuel) (vni_str (of_nat (k + 1))) subnet (w_kv ?w2) = (Ret (slot_addr subnet i), s3)"
    using i(2) by (simp add: V_def)
  have cl: "w_ovsClient ?w2" using assms(3) by simp
  obtain os' where "CreateNetwork_new h render (Suc fuel) name subnet (of_nat (k + 1)) ?w2 =
      (Ret (Inr (\<lparr>nw_Name = name, nw_Subnet = net_String subnet, nw_Gateway = ip_String (slot_addr subnet i),
        nw_VNI = of_nat (k + 1)\<rparr>, slot_addr subnet i, subnet)), ?w2\<lparr>w_kv := s3, w_os := os'\<rparr>)"
    by (rule CreateNetwork_new_run [OF _ cl req]) (use assms(5) in simp)
  then have new: "CreateNetwork_new h render (Suc fuel) name subnet (of_nat (k + 1)) ?w2 =
      (Ret (Inr (nw, slot_addr subnet i, subnet)), w\<lparr>w_kv := s3, w_os := os'\<rparr>)"
    by (simp add: nw_def)
  define w3 where "w3 = w\<lparr>w_kv := s3, w_os := os'\<rparr>"
  have none3: "value_at (cluster s3) ?path = None" using assms(6) i(5) k(8) by simp
  have fresh: "\<not> stale [] (kv_lookup (cluster s3) ?path)"
    using none3 by (auto simp: stale_def value_at_def split: option.splits)
  have size: "length (Network_Marshal nw) \<le> maxKVSize" unfolding nw_def by (rule length_Network_Marshal [OF assms(4,11)])
  obtain s4 where s4: "Put networkStore name (Network_Marshal nw) [] s3 = (Ret OK, s4)" "net_ok s4" "sched s4 = sched s3"
      "value_at (cluster s4) = (value_at (cluster s3))(?path \<mapsto> Network_Marshal nw)"
    using Put_quiet [OF i(3) alone_quiet [OF al3] size fresh] by metis
  have al4: "alone s4" by (rule alone_cong [OF al3 s4(3)])
  define w4 where "w4 = w3\<lparr>w_kv := s4\<rparr>"
  have al4': "alone (w_kv w4)" using al4 by (simp add: w4_def)
  obtain err w5 where ipt: "setupIPTables h (nw_Name nw) (nw_Subnet nw) w4 = (Ret err, w5)"
      "alone (w_kv w5)" "cluster (w_kv w5) = cluster (w_kv w4)" "w_ovsClient w5 = w_ovsClient w4"
    by (rule setupIPTables_returns [OF al4'])
  have got: "GetNetwork name w = (Ret (Inl (''Network '' @ name @ '' not exist'')), w\<lparr>w_kv := s1\<rparr>)"
    using GetNetwork_run [OF assms(2), of name] assms(6) by (simp add: s1_def)
  have "CreateNetwork h render (Suc fuel) name subnet w = (Ret (Some nw, err), w5)"
    using got k(4) assms(7) new s4(1) ipt(1) unfolding w4_def w3_def
    by (cases err) (simp_all add: gbind_def on_kv_def ask_os_def if_err_def gret_def del: of_nat_Suc of_nat_add)
  moreover have "fst (setupIPTables h name (net_String subnet) w4) = Ret err" using ipt(1) by (simp add: nw_def)
  moreover have "cluster (w_kv w5) = cluster s4" "w_ovsClient w5" "w_ok w5"
    using ipt(3,4) s4(2) assms(3) by (auto simp: w4_def w3_def w_ok_def net_ok_def)
  moreover have "value_at (cluster s4) = (value_at (cluster ?s0))(vni_path \<mapsto> a1, ip_path V subnet \<mapsto> a2, ?path \<mapsto> Network_Marshal nw)"
    using s4(4) i(5) k(8) by simp
  ultimately show ?thesis
    using ipt(2) k(1,2,3,9,10) i(1,6) unfolding nw_def [symmetric] P_def V_def by (metis nw_def)
qed

lemma vni_pool_upd:
  "value_at c' = (value_at c)(vni_path \<mapsto> a, ip_path V subnet \<mapsto> b, key_path networkStore x \<mapsto> d) \<Longrightarrow> vni_pool c' = a"
  "value_at c' = (value_at c)(vni_path \<mapsto> a, ip_path V subnet \<mapsto> b, key_path networkStore x \<mapsto> d) \<Longrightarrow>
    pool c' V subnet = b"
  by (simp_all add: vni_pool_def pool_def)


text \<open>
  A host whose state is the list of its links: a transaction that inserts an interface makes the link
  of that name, and the calls on a link fail as long as it does not exist.
\<close>

definition inserted_links :: "Operation list \<Rightarrow> string list" where
  "inserted_links ops = concat (map (\<lambda>x. if op_Op x = ''insert'' \<and> op_Table x = ''Interface''
     then (case map_of (op_Row x) ''name'' of Some (OvsString n) \<Rightarrow> [n] | _ \<Rightarrow> []) else []) ops)"

definition host_links :: "string list host" where
  "host_links = host_base
     \<lparr>h_netlink := nl_base\<lparr>LinkByName := (\<lambda>name s. if name \<in> set s then Inr \<lparr>link_Index = 1, link_Name = name\<rparr> else Inl ''Link not found'')\<rparr>,
      h_transact := (\<lambda>ops s. (Some (map (\<lambda>_. \<lparr>or_Error = [], or_Details = [], or_UUID = ''u'', or_Rows = []\<rparr>) ops), s @ inserted_links ops)),
      h_LookPath := (\<lambda>_ _. None)\<rparr>"

definition world_links :: "string list world" where
  "world_links = \<lparr>w_kv = idle, w_os = [''eth0''], w_ovsClient = True, w_cache = [], w_ContextCache = [], w_heap = [],
     w_daemon = daemon0, w_watch = watch_init, w_monitors = []\<rparr>"

lemma setup_links: "setup_succeeds host_links ''blue'' VNI (net_String \<lparr>net_IP = slot_addr net24 i, net_Mask = net_Mask net24\<rparr>) s"
proof -
  obtain ipn where "ParseIPNet (net_String \<lparr>net_IP = slot_addr net24 i, net_Mask = net_Mask net24\<rparr>) = Some ipn"
    using ParseIPNet_gateway [OF v4_subnet_net24 length_slot_addr] by blast
  moreover have "inserted_links (AddInternalPort_ops bridgeName ''blue'' VNI) = [''blue'']"
    by (simp add: inserted_links_def AddInternalPort_ops_def insert_op_def mutate_op_def op_base_def)
  moreover have "length (AddInternalPort_ops bridgeName ''blue'' VNI) = 3" by (simp add: AddInternalPort_ops_def)
  ultimately show ?thesis
    by (simp add: setup_succeeds_def host_links_def host_base_def nl_base_def SetMtu_def SetInterfaceIp_def InterfaceUp_def with_link_def)
qed


text \<open>
  Creating a network under a name the store has reports it as existing, returns the stored
  record and changes nothing, on any host.
\<close>

theorem CreateNetwork_existing_name:
  assumes "alone (w_kv w)"
    and "value_at (cluster (w_kv w)) (key_path networkStore name) = Some (Network_Marshal nw)"
  shows "CreateNetwork h render (Suc fuel) name subnet w =
    (Ret (Some nw, Some ''Network already exist''), w\<lparr>w_kv := tick (cluster (w_kv w)) (w_kv w)\<rparr>)"
  using GetNetwork_run [OF assms(1), of name] assms(2)
  by (simp add: gbind_def Network_Unmarshal_Marshal gret_def)

definition blue :: Network where
  "blue = \<lparr>nw_Name = ''blue'', nw_Subnet = ''192.168.7.0/24'', nw_Gateway = ''192.168.7.1'', nw_VNI = 1\<rparr>"

definition world_blue :: "unit world" where
  "world_blue = world0\<lparr>w_kv := holding (key_path networkStore ''blue'') (Network_Marshal blue)\<rparr>"

theorem CreateNetwork_existing_name_witness:
  "fst (CreateNetwork host0 (\<lambda>_. []) 1 ''blue'' net24 world_blue) = Ret (Some blue, Some ''Network already exist'')"
  using CreateNetwork_existing_name [of world_blue "''blue''" blue host0 "\<lambda>_. []" 0 net24]
  by (simp add: world_blue_def)

section \<open>Deleting a network\<close>

lemma deletePort_returns:
  assumes "w_ovsClient w" and "\<And>ops s. fst (h_transact h ops s) \<noteq> None"
  obtains os' where "deletePort h b p w = (Ret (), w\<lparr>w_os := os'\<rparr>)"
proof (cases "portUuidForName p (w_cache w) = []")
  case True
  then show ?thesis using that [of "w_os w"] by (simp add: deletePort_def gbind_def go_run)
next
  case False
  let ?ops = "deletePort_ops b p (portUuidForName p (w_cache w))"
  obtain r os' where "h_transact h ?ops (w_os w) = (Some r, os')"
    using assms(2) [of ?ops "w_os w"] by (cases "h_transact h ?ops (w_os w)") auto
  then show ?thesis using that [of os'] assms(1) False
    by (simp add: deletePort_def Transact_def gbind_def go_run)
qed

text \<open>
  C24. Deleting a network removes its record and frees its VNI; the address pools are left as they
  were, so that a later network with the same VNI and subnet starts with the addresses of the
  deleted one marked as used.
\<close>

theorem DeleteNetwork_frees_VNI_keeps_pools:
  assumes "w_ok w" and "alone (w_kv w)" and "w_ovsClient w" and "\<forall>ops s. fst (h_transact h ops s) \<noteq> None"
    and "value_at (cluster (w_kv w)) (key_path networkStore name) = Some (Network_Marshal nw)"
    and "nw_VNI nw = of_nat (k + 1)" and "k < vlanCount" and "length (vni_pool (cluster (w_kv w))) = 125000"
  shows "\<exists>w'. DeleteNetwork h (Suc fuel) name w = (Ret None, w') \<and>
    fst (GetNetwork name w') = Ret (Inl (''Network '' @ name @ '' not exist'')) \<and>
    used (vni_pool (cluster (w_kv w'))) = used (vni_pool (cluster (w_kv w))) - {k} \<and>
    (\<forall>V subnet. pool (cluster (w_kv w')) V subnet = pool (cluster (w_kv w)) V subnet)"
proof -
  let ?path = "key_path networkStore name"
  define s1 where "s1 = tick (cluster (w_kv w)) (w_kv w)"
  have s1: "net_ok s1" "alone s1" "cluster s1 = cluster (w_kv w)"
    using assms(1,2) by (auto simp: s1_def w_ok_def net_ok_def alone_def)
  obtain s2 where s2: "Delete networkStore name s1 = (Ret OK, s2)" "net_ok s2" "sched s2 = sched s1"
      "value_at (cluster s2) = (value_at (cluster (w_kv w)))(?path := None)"
    using Delete_quiet [OF s1(1) alone_quiet [OF s1(2)], of networkStore name] unfolding s1(3) by metis
  have al2: "alone s2" by (rule alone_cong [OF s1(2) s2(3)])
  have p2: "vni_pool (cluster s2) = vni_pool (cluster (w_kv w))" using s2(4) by (simp add: vni_pool_def)
  have len2: "length (vni_pool (cluster s2)) = 125000" unfolding p2 by (rule assms(8))
  obtain a s3 where s3: "releaseVNI (Suc fuel) (of_nat (k + 1)) s2 = (Ret (), s3)" "sched s3 = sched s2"
      "value_at (cluster s3) = (value_at (cluster s2))(vni_path \<mapsto> a)" "used a = used (vni_pool (cluster s2)) - {k}"
    by (rule releaseVNI_quiet [OF s2(2) alone_quiet [OF al2] len2 assms(7)])
  obtain os' where dp: "deletePort h bridgeName name (w\<lparr>w_kv := s3\<rparr>) = (Ret (), w\<lparr>w_kv := s3, w_os := os'\<rparr>)"
    using deletePort_returns [of "w\<lparr>w_kv := s3\<rparr>" h bridgeName name] assms(3,4) by auto
  have "GetNetwork name w = (Ret (Inr nw), w\<lparr>w_kv := s1\<rparr>)"
    using GetNetwork_run [OF assms(2), of name] assms(5) by (simp add: Network_Unmarshal_Marshal s1_def)
  then have "DeleteNetwork h (Suc fuel) name w = (Ret None, w\<lparr>w_kv := s3, w_os := os'\<rparr>)"
    using s2(1) s3(1) dp assms(3,6)
    by (simp add: DeleteNetwork_def gbind_def on_kv_def go_run gret_def del: of_nat_Suc of_nat_add)
  moreover have "value_at (cluster s3) = (value_at (cluster (w_kv w)))(?path := None, vni_path \<mapsto> a)"
    using s3(3) s2(4) by simp
  moreover have "alone s3" by (rule alone_cong [OF al2 s3(2)])
  ultimately show ?thesis
    using GetNetwork_run [of "w\<lparr>w_kv := s3, w_os := os'\<rparr>" name] s3(4) p2
    by (intro exI [of _ "w\<lparr>w_kv := s3, w_os := os'\<rparr>"]) (simp add: vni_pool_def pool_def)
qed

theorem DeleteNetwork_frees_VNI_keeps_pools_witness:
  "\<exists>w'. DeleteNetwork host0 1 ''blue'' world_blue = (Ret None, w') \<and>
    fst (GetNetwork ''blue'' w') = Ret (Inl ''Network blue not exist'')"
  using DeleteNetwork_frees_VNI_keeps_pools [of world_blue host0 "''blue''" blue 0 0]
  by (auto simp: world_blue_def w_ok_def blue_def vni_pool_def vlanCount_def host0_def)

section \<open>The subnet that is chosen\<close>

definition gateway_table :: "(bytes \<times> nat) list" where
  "gateway_table = [([10, 1, 42, 1], 16), ([10, 42, 42, 1], 16), ([172, 16, 42, 1], 24), ([172, 16, 43, 1], 24),
     ([172, 16, 44, 1], 24), ([10, 0, 42, 1], 24), ([10, 0, 43, 1], 24), ([172, 17, 42, 1], 16), ([10, 0, 42, 1], 16),
     ([192, 168, 42, 1], 24), ([192, 168, 43, 1], 24), ([192, 168, 44, 1], 24)]"

lemma gatewayAddrs_table: "gatewayAddrs = map (\<lambda>(ip, n). v4_string ip @ ''/'' @ itoa n) gateway_table"
  by code_simp

lemma gatewayAddrs_parse:
  assumes "addr \<in> set gatewayAddrs"
  obtains ip net where "ParseCIDR addr = Some (ip, net)" "v4_net net"
proof -
  obtain ip n where a: "addr = v4_string ip @ ''/'' @ itoa n" "(ip, n) \<in> set gateway_table"
    using assms by (auto simp: gatewayAddrs_table)
  have n: "n \<le> 32" and "length ip = 4" using a(2) by (auto simp: gateway_table_def)
  then obtain b c d e where ip: "ip = [b, c, d, e]" by (elim length_4E)
  let ?net = "\<lparr>net_IP = ip_Mask ip (CIDRMask n 32), net_Mask = CIDRMask n 32\<rparr>"
  have "ParseCIDR addr = Some (IPv4 b c d e, ?net)" using ParseCIDR_v4 [OF n] a(1) ip by simp
  moreover have "v4_net ?net" using n ip length_CIDRMask_32 [OF n] by (auto simp: v4_net_def ip_Mask_def)
  ultimately show ?thesis by (rule that)
qed

lemma first_free_Some:
  assumes "first_free check addrs = Some (Inr (Some (addr, net)))"
  shows "\<exists>i < length addrs. addrs ! i = addr \<and> (\<exists>ip. ParseCIDR addr = Some (ip, net)) \<and> check net = Some None \<and>
    (\<forall>j < i. \<exists>ip net e. ParseCIDR (addrs ! j) = Some (ip, net) \<and> check net = Some (Some e))"
  using assms
proof (induction addrs)
  case (Cons a as)
  then obtain ip0 net0 where p: "ParseCIDR a = Some (ip0, net0)" by (auto split: option.splits)
  show ?case
  proof (cases "check net0 = Some None")
    case True
    then show ?thesis using Cons.prems p by (auto intro!: exI [of _ 0])
  next
    case False
    then obtain e where e: "check net0 = Some (Some e)" using Cons.prems p by (auto split: option.splits)
    then obtain i where "i < length as" "as ! i = addr" "\<exists>ip. ParseCIDR addr = Some (ip, net)" "check net = Some None"
        "\<forall>j < i. \<exists>ip net e. ParseCIDR (as ! j) = Some (ip, net) \<and> check net = Some (Some e)"
      using Cons p by auto
    with p e show ?thesis by (auto intro!: exI [of _ "Suc i"] simp: nth_Cons split: nat.split)
  qed
qed simp

lemma first_free_None:
  assumes "first_free check addrs = Some (Inr None)" and "a \<in> set addrs"
  shows "\<exists>ip net e. ParseCIDR a = Some (ip, net) \<and> check net = Some (Some e)"
  using assms by (induction addrs) (auto split: option.splits)

text \<open>An address of the network is the destination of a route too.\<close>

definition collides :: "Route list \<Rightarrow> IPNet \<Rightarrow> bool" where
  "collides rs net \<longleftrightarrow> (\<exists>x \<in> set rs. \<exists>d ad. rt_Dst x = Some d \<and> length ad = 4 \<and> net_Contains net ad \<and> net_Contains d ad)"

text \<open>
  C25. With the routes of the host readable and all IPv4, the subnet chosen for the default network is the
  first of the built-in list that shares no address with the destination of any route: every entry
  before it does. The error is returned exactly when every subnet of the list collides with a route.
\<close>

theorem GetAvailableSubnet_free:
  assumes "RouteList (h_netlink h) (w_os w) = Inr rs" and "\<forall>r \<in> set rs. \<forall>d. rt_Dst r = Some d \<longrightarrow> v4_net d"
  shows "\<exists>r. GetAvailableSubnet h w = (Ret r, w) \<and> (case r of
      Inr net \<Rightarrow> \<exists>i < length gatewayAddrs. \<exists>ip. ParseCIDR (gatewayAddrs ! i) = Some (ip, net) \<and> \<not> collides rs net \<and>
        (\<forall>j < i. \<exists>ip net. ParseCIDR (gatewayAddrs ! j) = Some (ip, net) \<and> collides rs net)
    | Inl e \<Rightarrow> \<forall>j < length gatewayAddrs. \<exists>ip net. ParseCIDR (gatewayAddrs ! j) = Some (ip, net) \<and> collides rs net)"
proof -
  let ?check = "\<lambda>n. CheckRouteOverlaps (h_netlink h) n (w_os w)"
  have check: "?check n = Some (if collides rs n then Some ErrNetworkOverlaps else None)" if "v4_net n" for n
    unfolding collides_def by (rule CheckRouteOverlaps_v4 [OF that assms])
  have hit: "collides rs net" if "ParseCIDR (gatewayAddrs ! j) = Some (ip, net)" "?check net = Some (Some e)" "j < length gatewayAddrs" for j ip net e
  proof -
    have "v4_net net" by (rule gatewayAddrs_parse [OF nth_mem [OF that(3)]]) (use that(1) in simp)
    from check [OF this] that(2) show ?thesis by (simp split: if_splits)
  qed
  have total: "\<exists>x. first_free ?check as = Some (Inr x)" if "set as \<subseteq> set gatewayAddrs" for as
    using that
  proof (induction as)
    case (Cons a as)
    obtain ip net where "ParseCIDR a = Some (ip, net)" "v4_net net"
      using gatewayAddrs_parse Cons.prems by (metis list.set_intros(1) subsetD)
    then show ?case using Cons check [of net] by simp
  qed simp
  obtain x where x: "first_free ?check gatewayAddrs = Some (Inr x)" using total [of gatewayAddrs] by auto
  show ?thesis
  proof (cases x)
    case None
    have "\<exists>ip net. ParseCIDR (gatewayAddrs ! j) = Some (ip, net) \<and> collides rs net" if "j < length gatewayAddrs" for j
      using first_free_None [OF x [unfolded None] nth_mem [OF that]] hit that by blast
    then show ?thesis using x None by (simp add: GetAvailableSubnet_def gbind_def go_run gret_def)
  next
    case (Some p)
    obtain a net where p: "p = (a, net)" by (cases p)
    obtain i where i: "i < length gatewayAddrs" "gatewayAddrs ! i = a" "\<exists>ip. ParseCIDR a = Some (ip, net)" "?check net = Some None"
        "\<forall>j < i. \<exists>ip net e. ParseCIDR (gatewayAddrs ! j) = Some (ip, net) \<and> ?check net = Some (Some e)"
      using first_free_Some [of ?check gatewayAddrs a net] x Some p by auto
    have "v4_net net" by (rule gatewayAddrs_parse [OF nth_mem [OF i(1)]]) (use i(2,3) in auto)
    from check [OF this] i(4) have "\<not> collides rs net" by (simp split: if_splits)
    moreover have "GetAvailableSubnet h w = (Ret (Inr net), w)"
      using x Some p by (simp add: GetAvailableSubnet_def gbind_def go_run gret_def)
    moreover have "\<forall>j < i. \<exists>ip net. ParseCIDR (gatewayAddrs ! j) = Some (ip, net) \<and> collides rs net"
      using i(1,5) hit by (meson less_trans)
    ultimately show ?thesis using i(1-3) by auto
  qed
qed

text \<open>On a node with a route to 10.0.0.0/8 the first two entries collide, and the third is taken.\<close>

lemma gateway_entries:
  "map_option snd (ParseCIDR (gatewayAddrs ! 0)) = Some \<lparr>net_IP = [10, 1, 0, 0], net_Mask = [255, 255, 0, 0]\<rparr>"
  "map_option snd (ParseCIDR (gatewayAddrs ! 1)) = Some net10_42"
  "map_option snd (ParseCIDR (gatewayAddrs ! 2)) = Some \<lparr>net_IP = [172, 16, 42, 0], net_Mask = [255, 255, 255, 0]\<rparr>"
proof -
  have p: "map_option snd (ParseCIDR (v4_string [a, b, c, d] @ ''/'' @ itoa n)) =
      Some \<lparr>net_IP = ip_Mask [a, b, c, d] (CIDRMask n 32), net_Mask = CIDRMask n 32\<rparr>" if "n \<le> 32" for a b c d n
    using ParseCIDR_v4 [OF that] by simp
  show "map_option snd (ParseCIDR (gatewayAddrs ! 0)) = Some \<lparr>net_IP = [10, 1, 0, 0], net_Mask = [255, 255, 0, 0]\<rparr>"
    "map_option snd (ParseCIDR (gatewayAddrs ! 1)) = Some net10_42"
    "map_option snd (ParseCIDR (gatewayAddrs ! 2)) = Some \<lparr>net_IP = [172, 16, 42, 0], net_Mask = [255, 255, 255, 0]\<rparr>"
    using p [of 16 10 1 42 1] p [of 16 10 42 42 1] p [of 24 172 16 42 1]
    by (simp_all add: gatewayAddrs_table gateway_table_def CIDRMask_16 ip_Mask_def net10_42_def)
qed

theorem GetAvailableSubnet_free_witness:
  "GetAvailableSubnet host0 world0 = (Ret (Inr \<lparr>net_IP = [172, 16, 42, 0], net_Mask = [255, 255, 255, 0]\<rparr>), world0)"
proof -
  let ?rs = "[\<lparr>rt_LinkIndex = 2, rt_Dst = Some net10, rt_Gw = []\<rparr>]"
  let ?n1 = "\<lparr>net_IP = [10, 1, 0, 0], net_Mask = [255, 255, 0, 0]\<rparr>" and ?n3 = "\<lparr>net_IP = [172, 16, 42, 0], net_Mask = [255, 255, 255, 0]\<rparr>"
  have v: "v4_net ?n1" "v4_net ?n3"
    unfolding v4_net_def using CIDRMask_16 CIDRMask_24 by (auto intro: exI [of _ 16] exI [of _ 24])
  have "net_Contains net10 [10, 1, 0, 0]" "net_Contains ?n1 [10, 1, 0, 0]" "net_Contains net10 [10, 42, 0, 0]" "net_Contains net10_42 [10, 42, 0, 0]"
    using v by (simp_all add: net_Contains_v4) (simp_all add: net10_def net10_42_def)
  then have hits: "collides ?rs ?n1" "collides ?rs net10_42"
    by (auto simp: collides_def intro: exI [of _ "[10, 1, 0, 0]"] exI [of _ "[10, 42, 0, 0]"])
  have free: "\<not> collides ?rs ?n3"
    using v by (auto simp: collides_def net_Contains_v4 elim!: length_4E) (simp add: net10_def)
  have r: "RouteList (h_netlink host0) (w_os world0) = Inr ?rs" by (simp add: host0_def nl_one_route_def)
  obtain x where x: "GetAvailableSubnet host0 world0 = (Ret x, world0)" and c: "case x of
      Inr net \<Rightarrow> \<exists>i < length gatewayAddrs. \<exists>ip. ParseCIDR (gatewayAddrs ! i) = Some (ip, net) \<and> \<not> collides ?rs net \<and>
        (\<forall>j < i. \<exists>ip net. ParseCIDR (gatewayAddrs ! j) = Some (ip, net) \<and> collides ?rs net)
    | Inl e \<Rightarrow> \<forall>j < length gatewayAddrs. \<exists>ip net. ParseCIDR (gatewayAddrs ! j) = Some (ip, net) \<and> collides ?rs net"
    using GetAvailableSubnet_free [OF r] by auto
  have two: "2 < length gatewayAddrs" by (simp add: gatewayAddrs_table gateway_table_def)
  have "x = Inr ?n3"
  proof (cases x)
    case (Inl e)
    then show ?thesis using c two gateway_entries(3) free by force
  next
    case (Inr net)
    then obtain i ip where i: "ParseCIDR (gatewayAddrs ! i) = Some (ip, net)" "\<not> collides ?rs net"
        "\<forall>j < i. \<exists>ip net. ParseCIDR (gatewayAddrs ! j) = Some (ip, net) \<and> collides ?rs net"
      using c by auto
    have "i \<noteq> 0" using i(1,2) gateway_entries(1) hits(1) by (metis option.inject option.simps(9) snd_conv)
    moreover have "i \<noteq> 1" using i(1,2) gateway_entries(2) hits(2) by (metis option.inject option.simps(9) snd_conv)
    moreover have "\<not> 2 < i" using i(3) gateway_entries(3) free by force
    ultimately have "i = 2" by linarith
    then show ?thesis using i(1) gateway_entries(3) Inr by simp
  qed
  with x show ?thesis by simp
qed

end
