(* ===== verification/Reconcile.thy ===== *)
theory Reconcile
  imports NetworkProps
begin

text \<open>
  The rules a network gets on a node (\<^verbatim>\<open>setupIPTables\<close>) and the reconciliation of a node with the
  store (\<^verbatim>\<open>syncNetwork\<close>): which commands are run in which order, and what the set of gateways of
  the daemon is after a round.
\<close>

section \<open>What a read of the networks gives\<close>

text \<open>
  The networks of the store, and what \<^verbatim>\<open>GetNetworks\<close> makes of the next request: those of the store that
  serves it, or an error for a record that does not parse. A request that fails is taken for an
  empty store.
\<close>

definition stored_networks :: "consul \<Rightarrow> string + Network list" where
  "stored_networks c = unmarshal_all (map de_Value (KVSList networkStore (kvs c)))"

definition networks_seen :: "net \<Rightarrow> string + Network list" where
  "networks_seen s = (if fault (sched s (clock s)) = Up then stored_networks (served s) else Inr [])"

lemma GetNetworks_any:
  "GetNetworks w = (Ret (networks_seen (w_kv w)), w\<lparr>w_kv := tick (served (w_kv w)) (w_kv w)\<rparr>)"
proof -
  let ?s = "w_kv w" and ?es = "KVSList networkStore (kvs (served (w_kv w)))"
  have e: "KVSEndpoint (HGetRecurse networkStore) (served ?s) = (entries_resp ?es, served ?s)"
    by (simp add: KVSEndpoint_def KVSGet_handler_def)
  have "fst (GetAll networkStore ?s) = (if fault (sched ?s (clock ?s)) = Up then
      Ret (map de_Value ?es, map de_ModifyIndex ?es, ?es \<noteq> []) else Ret ([], [], False))"
    by (cases "fault (sched ?s (clock ?s))"; cases "?es = []")
       (simp_all add: GetAll_def gbind_def gret_def http_do_def e entries_resp_def success_def text_resp_def render_entry_def comp_def)
  moreover have "snd (GetAll networkStore ?s) = tick (served ?s) ?s"
    by (cases "fault (sched ?s (clock ?s))"; cases "?es = []")
       (simp_all add: GetAll_def gbind_def gret_def http_do_def e entries_resp_def success_def text_resp_def)
  ultimately show ?thesis
    by (cases "GetAll networkStore ?s") (auto simp: GetNetworks_def gbind_def on_kv_def gret_def networks_seen_def stored_networks_def)
qed

section \<open>Rules\<close>

text \<open>The commands for a network next to the networks \<open>ns\<close>.\<close>

definition network_rules :: "string \<Rightarrow> string \<Rightarrow> Network list \<Rightarrow> string list list" where
  "network_rules name ip ns =
     [''-t'', ''nat'', ''-A'', ''POSTROUTING'', ''-s'', ip, ''!'', ''-o'', name, ''-j'', ''MASQUERADE''] #
     map (\<lambda>n. [''-A'', ''FORWARD'', ''-i'', name, ''-o'', nw_Name n, ''-j'', ''DROP'']) (filter (\<lambda>n. nw_Name n \<noteq> name) ns)"

lemma network_rules_eq:
  "network_rules name ip ns = nat_rule name ip # map (\<lambda>n. drop_rule name (nw_Name n)) (filter (\<lambda>n. nw_Name n \<noteq> name) ns)"
  by (simp add: network_rules_def nat_rule_def drop_rule_def)

definition run_rules :: "'o host \<Rightarrow> string \<Rightarrow> string list list \<Rightarrow> 'o \<Rightarrow> 'o" where
  "run_rules h p rules = fold (\<lambda>r s. snd (h_exec h p r s)) rules"

lemma installRule_None:
  assumes "\<forall>s. h_LookPath h ''iptables'' s = Some p" and "installRule h args w = (Ret (out, None), w')"
  shows "w' = w\<lparr>w_os := snd (h_exec h p args (w_os w))\<rparr>"
  using assms by (auto simp: installRule_def gbind_def go_run on_os_def gret_def split: prod.splits option.splits)

lemma installRule_Ret:
  assumes "\<forall>s. h_LookPath h ''iptables'' s = Some p"
  obtains out err w' where "installRule h args w = (Ret (out, err), w')"
  using assms by (cases "h_exec h p args (w_os w)"; cases "snd (fst (h_exec h p args (w_os w)))")
    (auto simp: installRule_def gbind_def go_run on_os_def gret_def split: prod.splits option.splits)

lemma drop_rules_None:
  assumes "\<forall>s. h_LookPath h ''iptables'' s = Some p" and "drop_rules h name ns w = (Ret None, w')"
  shows "w' = w\<lparr>w_os := run_rules h p (map (\<lambda>n. drop_rule name (nw_Name n)) (filter (\<lambda>n. nw_Name n \<noteq> name) ns)) (w_os w)\<rparr>"
  using assms(2)
proof (induction ns arbitrary: w)
  case Nil
  then show ?case by (simp add: run_rules_def gret_def)
next
  case (Cons n ns)
  show ?case
  proof (cases "nw_Name n = name")
    case True
    then show ?thesis using Cons by simp
  next
    case False
    obtain out err w1 where i: "installRule h (drop_rule name (nw_Name n)) w = (Ret (out, err), w1)"
      by (rule installRule_Ret [OF assms(1)])
    with Cons.prems False have "err = None" "drop_rules h name ns w1 = (Ret None, w')"
      by (auto simp: gbind_def gret_def split: option.splits if_splits)
    moreover from this i have "w1 = w\<lparr>w_os := snd (h_exec h p (drop_rule name (nw_Name n)) (w_os w))\<rparr>"
      using installRule_None [OF assms(1)] by simp
    ultimately show ?thesis using Cons.IH [of w1] False by (simp add: run_rules_def)
  qed
qed

text \<open>
  C18. When the rules of a network are reported as installed, the commands that ran are exactly these: the
  masquerading rule of the network, then for every other network of the store that served the
  read, in its order, the rule that drops packets forwarded from this network to that one. When
  that read failed or gave a record that does not parse, only the masquerading rule ran, and the
  rules are reported as installed all the same.
\<close>

theorem setupIPTables_isolates:
  assumes "\<forall>s. h_LookPath h ''iptables'' s = Some p" and "setupIPTables h name ip w = (Ret None, w')"
  shows "w_os w' = run_rules h p (network_rules name ip
      (if fault (sched (w_kv w) (clock (w_kv w))) = Up
       then (case stored_networks (served (w_kv w)) of Inr ns \<Rightarrow> ns | Inl _ \<Rightarrow> []) else [])) (w_os w)"
proof -
  let ?ns = "case networks_seen (w_kv w) of Inl _ \<Rightarrow> [] | Inr ns \<Rightarrow> ns"
  obtain out err w1 where i: "installRule h (nat_rule name ip) w = (Ret (out, err), w1)"
    by (rule installRule_Ret [OF assms(1)])
  with assms(2) have e: "err = None" "out = []"
    by (auto simp: setupIPTables_def gbind_def gret_def split: option.splits if_splits)
  then have w1: "w1 = w\<lparr>w_os := snd (h_exec h p (nat_rule name ip) (w_os w))\<rparr>"
    using installRule_None [OF assms(1)] i by simp
  have "drop_rules h name ?ns (w1\<lparr>w_kv := tick (served (w_kv w)) (w_kv w)\<rparr>) = (Ret None, w')"
    using assms(2) i e GetNetworks_any [of w1] w1 by (simp add: setupIPTables_def gbind_def)
  from drop_rules_None [OF assms(1) this]
  have "w_os w' = run_rules h p (network_rules name ip ?ns) (w_os w)" by (simp add: w1 network_rules_eq run_rules_def)
  also have "?ns = (if fault (sched (w_kv w) (clock (w_kv w))) = Up
      then (case stored_networks (served (w_kv w)) of Inr ns \<Rightarrow> ns | Inl _ \<Rightarrow> []) else [])"
    by (simp add: networks_seen_def split: sum.split)
  finally show ?thesis .
qed

text \<open>A host that records the commands and transactions it is given.\<close>

datatype host_call = Command "string list" | Transaction "Operation list"

definition host_log :: "host_call list host" where
  "host_log = host_base\<lparr>h_transact := (\<lambda>ops s. (Some [], s @ [Transaction ops])),
     h_exec := (\<lambda>_ args s. (([], None), s @ [Command args]))\<rparr>"

definition world_log :: "host_call list world" where
  "world_log = \<lparr>w_kv = holding (key_path networkStore ''blue'') (Network_Marshal blue), w_os = [], w_ovsClient = True,
     w_cache = [], w_ContextCache = [], w_heap = [], w_daemon = daemon0, w_watch = watch_init, w_monitors = []\<rparr>"

lemma holding_serves:
  "fault (sched (holding k v) (clock (holding k v))) = Up" "served (holding k v) = cluster (holding k v)"
  by (simp_all add: holding_def idle_def quiet_env_def served_def)

lemma stored_blue: "stored_networks (cluster (holding (key_path networkStore ''blue'') (Network_Marshal blue))) = Inr [blue]"
  by (simp add: stored_networks_def holding_def KVSList_def key_path_def new_entry_def Network_Unmarshal_Marshal)

theorem setupIPTables_isolates_witness:
  "fst (setupIPTables host_log ''red'' ''10.0.42.0/24'' world_log) = Ret None \<and>
   w_os (snd (setupIPTables host_log ''red'' ''10.0.42.0/24'' world_log)) =
    [Command [''-t'', ''nat'', ''-A'', ''POSTROUTING'', ''-s'', ''10.0.42.0/24'', ''!'', ''-o'', ''red'', ''-j'', ''MASQUERADE''],
     Command [''-A'', ''FORWARD'', ''-i'', ''red'', ''-o'', ''blue'', ''-j'', ''DROP'']]"
proof -
  have look: "\<forall>s. h_LookPath host_log ''iptables'' s = Some ''/sbin/iptables''" by (simp add: host_log_def host_base_def nl_base_def)
  have inst: "installRule host_log args w = (Ret ([], None), w\<lparr>w_os := w_os w @ [Command args]\<rparr>)" for args w
    by (simp add: installRule_def gbind_def go_run host_log_def host_base_def nl_base_def on_os_def gret_def)
  have seen: "networks_seen (w_kv world_log) = Inr [blue]"
    by (simp add: networks_seen_def world_log_def holding_serves stored_blue)
  have r: "fst (setupIPTables host_log ''red'' ''10.0.42.0/24'' world_log) = Ret None"
    using seen by (simp add: setupIPTables_def gbind_def inst GetNetworks_any gret_def blue_def)
  then have "setupIPTables host_log ''red'' ''10.0.42.0/24'' world_log =
      (Ret None, snd (setupIPTables host_log ''red'' ''10.0.42.0/24'' world_log))" by (metis prod.collapse)
  from setupIPTables_isolates [OF look this] r show ?thesis
    by (simp add: network_rules_def run_rules_def host_log_def host_base_def nl_base_def world_log_def holding_serves stored_blue) (simp add: blue_def)
qed

section \<open>Reconciliation\<close>

abbreviation gateways :: "'o world \<Rightarrow> string set" where
  "gateways w \<equiv> set (d_Gateways (w_daemon w))"

interpretation dmn: world_inv "\<lambda>w. P (w_daemon w)" for P
  by unfold_locales simp_all

lemma gateways_set_gateways [simp]: "d_Gateways (w_daemon (set_gateways f w)) = f (d_Gateways (w_daemon w))"
  by (simp add: set_gateways_def)

text \<open>What a deleted port costs on the host: nothing for a port the cache does not have.\<close>

definition drop_port :: "'o host \<Rightarrow> table_cache \<Rightarrow> string \<Rightarrow> 'o \<Rightarrow> 'o" where
  "drop_port h cache k s =
     (let portUuid = portUuidForName k cache in if portUuid = [] then s
      else snd (h_transact h
        [\<lparr>op_Op = ''delete'', op_Table = ''Port'', op_Row = [], op_UUIDName = [], op_Mutations = [],
          op_Where = [(''name'', ''=='', OvsString k)]\<rparr>,
         \<lparr>op_Op = ''mutate'', op_Table = ''Bridge'', op_Row = [], op_UUIDName = [],
          op_Mutations = [(''ports'', ''delete'', OvsSet [OvsUUID portUuid])], op_Where = [(''name'', ''=='', OvsString bridgeName)]\<rparr>] s))"

lemma deletePort_Ret: "deletePort h bridgeName k w = (Ret x, w') \<Longrightarrow> w' = w\<lparr>w_os := drop_port h (w_cache w) k (w_os w)\<rparr>"
  by (auto simp: deletePort_def Transact_def drop_port_def deletePort_ops_def delete_op_def mutate_op_def op_base_def name_is_def uuid_set_def
      gbind_def go_run gret_def on_os_def gpanic_def split: prod.splits option.splits if_splits)

interpretation dc: world_inv "\<lambda>w. P (w_daemon w) (w_cache w)" for P
  by unfold_locales simp_all

lemma set_gateways_cache [simp]: "w_cache (set_gateways f w) = w_cache w" "w_os (set_gateways f w) = w_os w"
  by (simp_all add: set_gateways_def)

lemma sync_add_gateways:
  assumes "nw_Name n \<in> B"
  shows "keeps (\<lambda>w. A \<subseteq> gateways w \<and> gateways w \<subseteq> B \<and> w_cache w = c) (sync_add h render n)"
proof -
  have [keeps_intro]: "keeps (\<lambda>w. A \<subseteq> gateways w \<and> gateways w \<subseteq> B \<and> w_cache w = c) (change (set_gateways (List.insert (nw_Name n))))"
    using assms by (auto simp: keeps_def change_def)
  show ?thesis
    unfolding sync_add_def
    by (intro keeps_intro dc.keeps_on_os dc.keeps_ports dc.keeps_setupIPTables
        [where P = "\<lambda>d e. A \<subseteq> set (d_Gateways d) \<and> set (d_Gateways d) \<subseteq> B \<and> e = c"])
qed

lemma sync_add_all_gateways:
  assumes "nw_Name ` set ns \<subseteq> B"
  shows "keeps (\<lambda>w. A \<subseteq> gateways w \<and> gateways w \<subseteq> B \<and> w_cache w = c) (sync_add_all h render ns)"
  using assms
proof (induction ns)
  case (Cons n ns)
  have a: "keeps (\<lambda>w. A \<subseteq> gateways w \<and> gateways w \<subseteq> B \<and> w_cache w = c) (sync_add h render n)"
    by (rule sync_add_gateways) (use Cons.prems in simp)
  show ?case unfolding sync_add_all.simps by (intro keeps_gbind a Cons.IH) (use Cons.prems in simp)
qed (simp add: keeps_basic)

lemma sync_remove_effect:
  "sync_remove h ns ks w = (Ret (), w') \<Longrightarrow>
    gateways w' = gateways w - (set ks - nw_Name ` set ns) \<and>
    w_os w' = fold (drop_port h (w_cache w)) (filter (\<lambda>k. k \<notin> nw_Name ` set ns) ks) (w_os w)"
proof (induction ks arbitrary: w)
  case (Cons k ks)
  show ?case
  proof (cases "k \<in> nw_Name ` set ns")
    case True
    then show ?thesis using Cons by auto
  next
    case False
    with Cons.prems have "gbind (deletePort h bridgeName k) (\<lambda>_. gbind (change (set_gateways (removeAll k)))
        (\<lambda>_. sync_remove h ns ks)) w = (Ret (), w')" by simp
    then obtain x w1 where d: "deletePort h bridgeName k w = (Ret x, w1)"
      and rest: "sync_remove h ns ks (set_gateways (removeAll k) w1) = (Ret (), w')"
      by (auto elim!: gbind_RetE simp: change_def)
    then show ?thesis using Cons.IH [OF rest] deletePort_Ret [OF d] False by auto
  qed
qed (simp add: gret_def)


text \<open>A node with the gateway of a network that is gone, at a store with the network \<^verbatim>\<open>blue\<close>.\<close>

definition world_stale :: "host_call list world" where
  "world_stale = world_log\<lparr>w_cache := [(''Port'', [(''u7'', [(''name'', OvsString ''gone'')])])],
     w_daemon := daemon0\<lparr>d_Gateways := [''gone'', ''blue'']\<rparr>\<rparr>"


end
