(* ===== verification/SafeMap.thy ===== *)
theory SafeMap
  imports Prelude "HOL-Library.AList"
begin

text \<open>
  The concurrent map of \<^verbatim>\<open>server/daemon.go\<close>. Every operation runs under the lock of the map, so an
  execution of several goroutines is a sequence of operations. The contract is the locale
  \<open>string_map\<close>: the operations act on the finite map they stand for. Any sequence of calls answers
  as the abstract map would.
\<close>

type_synonym 'v SafeMap = "(string \<times> 'v) list"

definition NewSafeMap :: "'v SafeMap" where
  "NewSafeMap = []"

text \<open>\<^verbatim>\<open>Get\<close>: \<^term>\<open>None\<close> is the nil interface.\<close>

definition SafeMap_Get :: "'v SafeMap \<Rightarrow> string \<Rightarrow> 'v option" where
  "SafeMap_Get m k = (case map_of m k of Some val \<Rightarrow> Some val | None \<Rightarrow> None)"

definition SafeMap_Set :: "'v SafeMap \<Rightarrow> string \<Rightarrow> 'v \<Rightarrow> bool \<times> 'v SafeMap" where
  "SafeMap_Set m k v = (case map_of m k of
      None \<Rightarrow> (True, AList.update k v m)
    | Some val \<Rightarrow> if val \<noteq> v then (True, AList.update k v m) else (False, m))"

definition SafeMap_Check :: "'v SafeMap \<Rightarrow> string \<Rightarrow> bool" where
  "SafeMap_Check m k = (case map_of m k of Some _ \<Rightarrow> True | None \<Rightarrow> False)"

definition SafeMap_Delete :: "'v SafeMap \<Rightarrow> string \<Rightarrow> 'v SafeMap" where
  "SafeMap_Delete m k = AList.delete k m"

section \<open>Runs\<close>

datatype 'v map_op = OpGet string | OpSet string 'v | OpCheck string | OpDelete string

datatype 'v map_result = Val "'v option" | Bool bool | Unit

text \<open>The calls of a run, on the operations of any implementation.\<close>

fun map_run :: "('m \<Rightarrow> string \<Rightarrow> 'v option) \<Rightarrow> ('m \<Rightarrow> string \<Rightarrow> 'v \<Rightarrow> bool \<times> 'm) \<Rightarrow> ('m \<Rightarrow> string \<Rightarrow> bool) \<Rightarrow>
    ('m \<Rightarrow> string \<Rightarrow> 'm) \<Rightarrow> 'v map_op list \<Rightarrow> 'm \<Rightarrow> 'v map_result list \<times> 'm" where
  "map_run get put check del [] m = ([], m)"
| "map_run get put check del (OpGet k # ops) m = apfst ((#) (Val (get m k))) (map_run get put check del ops m)"
| "map_run get put check del (OpSet k v # ops) m =
     (case put m k v of (b, m') \<Rightarrow> apfst ((#) (Bool b)) (map_run get put check del ops m'))"
| "map_run get put check del (OpCheck k # ops) m = apfst ((#) (Bool (check m k))) (map_run get put check del ops m)"
| "map_run get put check del (OpDelete k # ops) m = apfst ((#) Unit) (map_run get put check del ops (del m k))"

text \<open>The specification: a partial function.\<close>

definition spec_run :: "'v map_op list \<Rightarrow> (string \<rightharpoonup> 'v) \<Rightarrow> 'v map_result list \<times> (string \<rightharpoonup> 'v)" where
  "spec_run = map_run (\<lambda>f. f) (\<lambda>f k v. (f k \<noteq> Some v, f(k \<mapsto> v))) (\<lambda>f k. k \<in> dom f) (\<lambda>f k. f(k := None))"

section \<open>The contract\<close>

locale string_map =
  fixes get :: "'m \<Rightarrow> string \<Rightarrow> 'v option" and put :: "'m \<Rightarrow> string \<Rightarrow> 'v \<Rightarrow> bool \<times> 'm"
    and check :: "'m \<Rightarrow> string \<Rightarrow> bool" and del :: "'m \<Rightarrow> string \<Rightarrow> 'm" and invar :: "'m \<Rightarrow> bool"
  assumes get_set: "get (snd (put m k v)) = (get m)(k \<mapsto> v)"
    and set_new: "fst (put m k v) \<longleftrightarrow> get m k \<noteq> Some v"
    and check_get: "check m k \<longleftrightarrow> get m k \<noteq> None"
    and get_del: "get (del m k) = (get m)(k := None)"
    and invar_set: "invar m \<Longrightarrow> invar (snd (put m k v))"
    and invar_del: "invar m \<Longrightarrow> invar (del m k)"
begin

lemma set_pair: "put m k v = (get m k \<noteq> Some v, snd (put m k v))"
  using set_new [of m k v] by (simp add: prod_eq_iff)

lemma run_refines: "spec_run ops (get m) = apsnd get (map_run get put check del ops m)"
proof (induction ops arbitrary: m)
  case Nil
  then show ?case by (simp add: spec_run_def)
next
  case (Cons x ops)
  show ?case
  proof (cases x)
    case (OpGet k)
    then show ?thesis using Cons [of m] by (simp add: spec_run_def prod_eq_iff)
  next
    case (OpSet k v)
    obtain m' where p: "put m k v = (get m k \<noteq> Some v, m')" using set_pair [of m k v] by blast
    then have "get m' = (get m)(k \<mapsto> v)" using get_set [of m k v] by simp
    then show ?thesis using OpSet Cons [of m']
      by (simp add: p spec_run_def prod_eq_iff del: fun_upd_apply)
  next
    case (OpCheck k)
    then show ?thesis using Cons [of m] check_get [of m k] by (auto simp add: spec_run_def prod_eq_iff)
  next
    case (OpDelete k)
    then show ?thesis using Cons [of "del m k"] by (simp add: spec_run_def prod_eq_iff get_del del: fun_upd_apply)
  qed
qed

lemma run_invar: "invar m \<Longrightarrow> invar (snd (map_run get put check del ops m))"
proof (induction ops arbitrary: m)
  case (Cons x ops)
  then show ?case
    by (cases x) (auto simp: invar_del split: prod.split dest: invar_set, metis invar_set snd_conv)
qed simp

end

interpretation sm: string_map SafeMap_Get SafeMap_Set SafeMap_Check SafeMap_Delete "\<lambda>m. distinct (map fst m)"
  by unfold_locales
     (auto simp: SafeMap_Get_def SafeMap_Set_def SafeMap_Check_def SafeMap_Delete_def update_conv' delete_conv'
       distinct_update distinct_delete fun_eq_iff split: option.splits)

lemma SafeMap_Get_map_of [simp]: "SafeMap_Get m = map_of m"
  by (rule ext) (simp add: SafeMap_Get_def split: option.split)

lemma SafeMap_Set_keys: "k' \<in> fst ` set (snd (SafeMap_Set m k v)) \<longleftrightarrow> k' = k \<or> k' \<in> fst ` set m"
  by (auto simp: SafeMap_Set_def dom_map_of_conv_image_fst [symmetric] update_conv' split: option.splits)

text \<open>
  C22. The map of connections under its lock behaves as a partial function: every answer of every
  sequence of Get, Set, Check and Delete calls on it, Set's report whether it changed anything
  included, is the one the partial function gives, and a key is never held twice.
\<close>

theorem SafeMap_refines_map:
  "fst (map_run SafeMap_Get SafeMap_Set SafeMap_Check SafeMap_Delete ops NewSafeMap) = fst (spec_run ops (\<lambda>_. None)) \<and>
   map_of (snd (map_run SafeMap_Get SafeMap_Set SafeMap_Check SafeMap_Delete ops NewSafeMap)) = snd (spec_run ops (\<lambda>_. None)) \<and>
   distinct (map fst (snd (map_run SafeMap_Get SafeMap_Set SafeMap_Check SafeMap_Delete ops (NewSafeMap :: 'v SafeMap))))"
proof -
  have "SafeMap_Get (NewSafeMap :: 'v SafeMap) = (\<lambda>_. None)" by (simp add: NewSafeMap_def)
  then show ?thesis
    using sm.run_refines [of ops "NewSafeMap :: 'v SafeMap"] sm.run_invar [of "NewSafeMap :: 'v SafeMap" ops]
    by (simp add: NewSafeMap_def)
qed

end
