(* ===== verification/Connections.thy ===== *)
theory Connections
  imports Reconcile SafeMap
begin

text \<open>
  Connections of containers (\<^verbatim>\<open>server/connection.go\<close>): the bridge and the tunnels to the peers, the
  port and the address a container gets, its traffic control and its counters. A connection is an
  object on the heap of the world that the map of the daemon, the channel and the monitor
  goroutines share by its address. A wait (\<^verbatim>\<open>time.Sleep\<close>) and a log line have no effect in the model.
  Neither has \<^verbatim>\<open>runtime.LockOSThread\<close>: a call runs as one step, on the thread it pins.
\<close>

section \<open>Library calls\<close>

text \<open>\<^verbatim>\<open>filepath.Clean\<close> and \<^verbatim>\<open>filepath.Join\<close> on Unix.\<close>

fun path_split :: "string \<Rightarrow> string list" where
  "path_split [] = [[]]"
| "path_split (c # cs) = (if c = CHR ''/'' then [] # path_split cs
     else (case path_split cs of [] \<Rightarrow> [[c]] | e # es \<Rightarrow> (c # e) # es))"

text \<open>The elements kept so far are in reverse order.\<close>

fun clean_elems :: "bool \<Rightarrow> string list \<Rightarrow> string list \<Rightarrow> string list" where
  "clean_elems rooted kept [] = rev kept"
| "clean_elems rooted kept (e # es) =
     (if e = [] \<or> e = ''.'' then clean_elems rooted kept es
      else if e = ''..'' then
        (case kept of
           k # ks \<Rightarrow> if k = ''..'' then clean_elems rooted (e # kept) es else clean_elems rooted ks es
         | [] \<Rightarrow> if rooted then clean_elems rooted [] es else clean_elems rooted [e] es)
      else clean_elems rooted (e # kept) es)"

fun path_concat :: "string list \<Rightarrow> string" where
  "path_concat [] = []"
| "path_concat [e] = e"
| "path_concat (e # es) = e @ ''/'' @ path_concat es"

definition path_Clean :: "string \<Rightarrow> string" where
  "path_Clean p =
     (let rooted = (p \<noteq> [] \<and> hd p = CHR ''/'');
          es = clean_elems rooted [] (path_split p)
      in if rooted then ''/'' @ path_concat es else if es = [] then ''.'' else path_concat es)"

definition path_Join :: "string list \<Rightarrow> string" where
  "path_Join elem = (case dropWhile (\<lambda>e. e = []) elem of [] \<Rightarrow> [] | es \<Rightarrow> path_Clean (path_concat es))"

text \<open>\<^verbatim>\<open>strings.Index\<close> with the rest of the string from there, and \<^verbatim>\<open>strings.Fields\<close> on ASCII text.\<close>

fun from_index :: "string \<Rightarrow> string \<Rightarrow> string option" where
  "from_index sep s =
     (if take (length sep) s = sep then Some s
      else case s of [] \<Rightarrow> None | _ # cs \<Rightarrow> from_index sep cs)"

definition is_field_space :: "char \<Rightarrow> bool" where
  "is_field_space c \<longleftrightarrow> code c \<in> {9, 10, 11, 12, 13, 32}"

function Fields :: "string \<Rightarrow> string list" where
  "Fields s =
     (let s' = dropWhile is_field_space s in
      if s' = [] then []
      else takeWhile (\<lambda>c. \<not> is_field_space c) s' # Fields (dropWhile (\<lambda>c. \<not> is_field_space c) s'))"
  by pat_completeness auto

termination
proof (relation "measure length", simp)
  fix s s' :: string
  assume s': "s' = dropWhile is_field_space s" and ne: "s' \<noteq> []"
  have "length s' \<le> length s" unfolding s' by (rule length_dropWhile_le)
  moreover have "\<not> is_field_space (hd s')" using hd_dropWhile [of is_field_space s] ne by (simp add: s')
  then have "length (dropWhile (\<lambda>c. \<not> is_field_space c) s') < length s'"
    using ne by (cases s') (auto intro: le_imp_less_Suc length_dropWhile_le)
  ultimately show "(dropWhile (\<lambda>c. \<not> is_field_space c) s', s) \<in> measure length" by simp
qed

declare Fields.simps [simp del]

text \<open>
  \<^verbatim>\<open>strconv.ParseUint(s, 10, 64)\<close> with its error dropped: 0 for a string that is no number and the
  greatest value for one that does not fit.
\<close>

definition ParseUint_value :: "string \<Rightarrow> uint" where
  "ParseUint_value s =
     (if s = [] \<or> \<not> list_all is_digit s then 0
      else if num_val s < 2 ^ 64 then of_nat (num_val s) else - 1)"

text \<open>
  \<^verbatim>\<open>float64(n)\<close> of an unsigned integer: the nearest number of 53 significant bits, ties to even. The
  products and quotients by powers of two that follow are exact.
\<close>

fun excess_bits :: "nat \<Rightarrow> nat" where
  "excess_bits n = (if n < 2 ^ 53 then 0 else Suc (excess_bits (n div 2)))"

declare excess_bits.simps [simp del] from_index.simps [simp del]

definition float64_of :: "uint \<Rightarrow> real" where
  "float64_of x =
     (let n = unat x; e = excess_bits n; q = n div 2 ^ e; r = n mod 2 ^ e
      in of_nat ((if 2 * r < 2 ^ e \<or> (2 * r = 2 ^ e \<and> even q) then q else q + 1) * 2 ^ e))"

definition slice_panic :: string where
  "slice_panic = ''runtime error: slice bounds out of range''"

definition conversion_panic :: string where
  "conversion_panic = ''interface conversion: interface is nil, not *server.Connection''"

text \<open>\<^verbatim>\<open>defer\<close> of a call to the host: it runs after the body, whatever the outcome.\<close>

definition gdefer :: "('o world, 'a) go \<Rightarrow> ('o \<Rightarrow> error \<times> 'o) \<Rightarrow> ('o world, 'a) go" where
  "gdefer m d w = (case m w of (r, w') \<Rightarrow> (r, w'\<lparr>w_os := snd (d (w_os w'))\<rparr>))"

text \<open>
  The frame that \<^verbatim>\<open>addConnection\<close>, \<^verbatim>\<open>addQos\<close> and \<^verbatim>\<open>changeQos\<close> share: handles of the own namespace and of the
  named one are opened, \<open>before\<close> runs with the second, \<open>body\<close> runs inside the named namespace, and then the
  deferred calls go back (their errors are dropped) and close both handles.
\<close>

definition in_netns ::
  "'o host \<Rightarrow> string \<Rightarrow> (string \<Rightarrow> 'a) \<Rightarrow> (int \<Rightarrow> ('o world, error) go) \<Rightarrow> ('o world, 'a) go \<Rightarrow> ('o world, 'a) go" where
  "in_netns h name fail before body =
     gbind (on_os (h_netns_Get h)) (\<lambda>r. case r of
         Inl e \<Rightarrow> gret (fail e)
       | Inr origns \<Rightarrow>
           gdefer (gbind (on_os (h_netns_GetFromName h name)) (\<lambda>r. case r of
               Inl e \<Rightarrow> gret (fail e)
             | Inr targetns \<Rightarrow>
                 gdefer (if_err (before targetns) fail
                   (if_err (on_os (h_netns_Set h targetns)) fail
                     (gdefer body (h_netns_Set h origns)))) (h_netns_Close h targetns))) (h_netns_Close h origns))"

section \<open>The bridge and the peers\<close>

definition CreateBridge :: "'o host \<Rightarrow> ('o world, string \<times> error) go" where
  "CreateBridge h =
     gbind (ask w_ovsClient) (\<lambda>up.
       if \<not> up then gret ([], Some ''OVS not connected'')
       else gbind (portExists h bridgeName) (\<lambda>(exists, err). case err of
           Some e \<Rightarrow> gret ([], Some e)
         | None \<Rightarrow>
             if exists then gret ([], None)
             else gbind (CreateOVSBridge h bridgeName) (\<lambda>(bridgeUUID, err). case err of
                 Some e \<Rightarrow> gret ([], Some e)
               | None \<Rightarrow> gbind (portExists h bridgeName) (\<lambda>(exists, err). case err of
                     Some e \<Rightarrow> gret ([], Some e)
                   | None \<Rightarrow> if exists then gret (bridgeUUID, None)
                       else gret ([], Some ''Error creating Bridge'')))))"

definition DeleteBridge :: "'o host \<Rightarrow> ('o world, error) go" where
  "DeleteBridge h =
     gbind (ask_os (h_LookPath h ''ovs-vsctl'')) (\<lambda>path. case path of
         None \<Rightarrow> gret (Some ''ovs-vsctl not found'')
       | Some p \<Rightarrow> gbind (on_os (h_exec h p [''del-br'', bridgeName])) (\<lambda>(_, err). gret err))"

definition AddPeer :: "'o host \<Rightarrow> string \<Rightarrow> ('o world, error) go" where
  "AddPeer h peerIp =
     gbind (ask w_ovsClient) (\<lambda>up.
       if \<not> up then gret (Some ''OVS not connected'')
       else gbind (addVxlanPort h bridgeName (''vxlan-'' @ peerIp) peerIp) (\<lambda>_. gret None))"

definition DeletePeer :: "'o host \<Rightarrow> string \<Rightarrow> ('o world, error) go" where
  "DeletePeer h peerIp =
     gbind (ask w_ovsClient) (\<lambda>up.
       if \<not> up then gret (Some ''OVS not connected'')
       else gbind (deletePort h bridgeName (''vxlan-'' @ peerIp)) (\<lambda>_. gret None))"

section \<open>A container's port\<close>

definition GenerateRandomName :: "'o host \<Rightarrow> string \<Rightarrow> nat \<Rightarrow> ('o world, string + string) go" where
  "GenerateRandomName h pre n =
     gbind (on_os (h_rand h)) (\<lambda>r. case r of
         Inl e \<Rightarrow> gret (Inl e)
       | Inr rnd \<Rightarrow>
           let hex = hex_EncodeToString (go_copy (replicate 32 0) rnd)
           in if length hex < n then gpanic slice_panic else gret (Inr (pre @ take n hex)))"

definition createOvsInternalPort ::
  "'o host \<Rightarrow> (Operation \<Rightarrow> string) \<Rightarrow> string \<Rightarrow> string \<Rightarrow> uint \<Rightarrow> ('o world, string \<times> error) go" where
  "createOvsInternalPort h render pre bridge tag =
     gbind (GenerateRandomName h pre 7) (\<lambda>r. case r of
         Inl e \<Rightarrow> gret ([], Some e)
       | Inr port \<Rightarrow> gbind (ask w_ovsClient) (\<lambda>up.
           if \<not> up then gret (port, Some ''OVS not connected'')
           else gbind (AddInternalPort h render bridge port tag) (\<lambda>_. gret (port, None))))"

definition generateMacAddr :: "bytes \<Rightarrow> bytes" where
  "generateMacAddr ip = [0x02, 0x42] @ go_copy (replicate 4 0) (To4 ip)"

text \<open>The last three characters; \<^term>\<open>None\<close> is the panic of the slice expression.\<close>

definition subnetPrefix :: "IPNet \<Rightarrow> string option" where
  "subnetPrefix subnet =
     (let subnetString = net_String subnet in
      if length subnetString < 3 then None else Some (drop (length subnetString - 3) subnetString))"

section \<open>Adding a connection\<close>

definition OvsConnection0 :: OvsConnection where
  "OvsConnection0 = \<lparr>oc_Name = [], oc_Ip = [], oc_Subnet = [], oc_Mac = [], oc_Gateway = []\<rparr>"

text \<open>The address: the next free one, or the requested one, which is marked as used.\<close>

definition choose_ip :: "nat \<Rightarrow> uint \<Rightarrow> string \<Rightarrow> IPNet \<Rightarrow> ('o world, bytes) go" where
  "choose_ip fuel VNI requestIp subnet =
     (if requestIp = [] then on_kv (RequestIP fuel (vni_str VNI) subnet)
      else let ip = ParseIP requestIp
           in gbind (on_kv (MarkUsed fuel (vni_str VNI) ip subnet)) (\<lambda>_. gret ip))"

text \<open>Inside the namespace of the container.\<close>

definition configure_port :: "'o host \<Rightarrow> OvsConnection \<Rightarrow> ('o world, OvsConnection \<times> error) go" where
  "configure_port h conn =
     (let fail = (\<lambda>e. (conn, Some e)); portName = oc_Name conn in
      if_err (on_os (SetMtu (h_netlink h) portName mtu)) fail
        (if_err (on_os (SetInterfaceIp (h_netlink h) portName (oc_Ip conn @ oc_Subnet conn))) fail
          (if_err (on_os (SetInterfaceMac (h_netlink h) portName (oc_Mac conn))) fail
            (if_err (on_os (InterfaceUp (h_netlink h) portName)) fail
              (if_err (on_os (SetDefaultGateway (h_netlink h) (oc_Gateway conn) portName)) fail
                (gret (conn, None)))))))"

text \<open>The port is moved into the namespace of the process \<open>nspid\<close> and configured there.\<close>

definition attach_port :: "'o host \<Rightarrow> string \<Rightarrow> OvsConnection \<Rightarrow> ('o world, OvsConnection \<times> error) go" where
  "attach_port h nspid conn =
     (let fail = (\<lambda>e. (conn, Some e)) in
      gbind (ask_os (\<lambda>s. path_Join [h_Getenv h ''PROCFS'' s, nspid, ''ns/net''])) (\<lambda>old.
      if_err (on_os (h_Symlink h old (path_Join [''/var/run/netns'', nspid]))) fail
        (in_netns h nspid fail (\<lambda>targetns. on_os (SetInterfaceInNamespaceFd (h_netlink h) (oc_Name conn) targetns)) (configure_port h conn))))"

definition addConnection ::
  "'o host \<Rightarrow> (Operation \<Rightarrow> string) \<Rightarrow> nat \<Rightarrow> string \<Rightarrow> string \<Rightarrow> string \<Rightarrow> ('o world, OvsConnection \<times> error) go" where
  "addConnection h render fuel nspid networkName requestIp =
     (if bridgeName = [] then gret (OvsConnection0, Some ''bridge is not available'')
      else gbind (GetNetwork (if networkName = [] then defaultNetwork else networkName)) (\<lambda>r. case r of
          Inl e \<Rightarrow> gret (OvsConnection0, Some e)
        | Inr bridgeNetwork \<Rightarrow>
            gbind (createOvsInternalPort h render ''ovs'' bridgeName (nw_VNI bridgeNetwork)) (\<lambda>(portName, err). case err of
                Some e \<Rightarrow> gret (OvsConnection0, Some e)
              | None \<Rightarrow> (case ParseCIDR (nw_Subnet bridgeNetwork) of
                    None \<Rightarrow> gpanic nil_panic
                  | Some (_, subnet) \<Rightarrow>
                      gbind (choose_ip fuel (nw_VNI bridgeNetwork) requestIp subnet) (\<lambda>ip.
                      gbind (gcheck slice_panic (subnetPrefix subnet)) (\<lambda>pre.
                        attach_port h nspid
                          \<lparr>oc_Name = portName, oc_Ip = ip_String ip, oc_Subnet = pre,
                           oc_Mac = mac_String (generateMacAddr ip), oc_Gateway = nw_Gateway bridgeNetwork\<rparr>))))))"

definition deleteConnection :: "'o host \<Rightarrow> nat \<Rightarrow> OvsConnection \<Rightarrow> string \<Rightarrow> ('o world, error) go" where
  "deleteConnection h fuel connection networkName =
     gbind (ask w_ovsClient) (\<lambda>up.
       if \<not> up then gret (Some ''OVS not connected'')
       else gbind (deletePort h bridgeName (oc_Name connection)) (\<lambda>_.
            gbind (GetNetwork networkName) (\<lambda>r. case r of
                Inl e \<Rightarrow> gret (Some e)
              | Inr bridgeNetwork \<Rightarrow> (case ParseCIDR (oc_Ip connection @ oc_Subnet connection) of
                    None \<Rightarrow> gpanic nil_panic
                  | Some (_, subnet) \<Rightarrow>
                      gbind (on_kv (ReleaseIP fuel (ParseIP (oc_Ip connection)) subnet (vni_str (nw_VNI bridgeNetwork))))
                        (\<lambda>_. gret None)))))"

section \<open>Requests for connections\<close>

datatype conn_action = addConn | deleteConn

text \<open>The pointer to the connection; what is sent back on the result channel is the value of the handler.\<close>

record ConnectionCtx =
  cc_Action :: conn_action
  cc_Connection :: nat

definition update_con :: "nat \<Rightarrow> (Connection \<Rightarrow> Connection) \<Rightarrow> 'o world \<Rightarrow> 'o world" where
  "update_con p f w = w\<lparr>w_heap := (w_heap w)[p := f (w_heap w ! p)]\<rparr>"

definition on_connections :: "((string \<times> nat) list \<Rightarrow> (string \<times> nat) list) \<Rightarrow> 'o world \<Rightarrow> 'o world" where
  "on_connections f w = w\<lparr>w_daemon := (w_daemon w)\<lparr>d_connections := f (d_connections (w_daemon w))\<rparr>\<rparr>"

definition start_monitor :: "nat \<Rightarrow> 'o world \<Rightarrow> 'o world" where
  "start_monitor p w = w\<lparr>w_monitors := w_monitors w @ [p]\<rparr>"

definition connHandler ::
  "'o host \<Rightarrow> (Operation \<Rightarrow> string) \<Rightarrow> nat \<Rightarrow> ConnectionCtx \<Rightarrow> ('o world, nat) go" where
  "connHandler h render fuel c =
     (let p = cc_Connection c in
      gbind (ask (\<lambda>w. w_heap w ! p)) (\<lambda>con. case cc_Action c of
          addConn \<Rightarrow>
            gbind (addConnection h render fuel (cn_ContainerPID con) (cn_Network con) (cn_RequestIp con)) (\<lambda>(connDetail, err).
              case err of
                Some e \<Rightarrow> gbind (change (update_con p (\<lambda>con. con\<lparr>cn_OvsPortID := ''-1''\<rparr>))) (\<lambda>_. gret p)
              | None \<Rightarrow>
                  gbind (change (update_con p (\<lambda>con. con\<lparr>cn_OvsPortID := oc_Name connDetail, cn_ConnectionDetail := connDetail\<rparr>))) (\<lambda>_.
                  gbind (change (on_connections (\<lambda>m. snd (SafeMap_Set m (cn_ContainerID con) p)))) (\<lambda>_.
                  gbind (change (start_monitor p)) (\<lambda>_. gret p))))
        | deleteConn \<Rightarrow>
            gbind (deleteConnection h fuel (cn_ConnectionDetail con) (cn_Network con)) (\<lambda>_.
            gbind (change (on_connections (\<lambda>m. SafeMap_Delete m (cn_ContainerID con)))) (\<lambda>_. gret p))))"

section \<open>Contexts\<close>

definition UpdateConnectionContext ::
  "'o host \<Rightarrow> (Operation \<Rightarrow> string) \<Rightarrow> string \<Rightarrow> string \<Rightarrow> string \<Rightarrow> ('o world, error) go" where
  "UpdateConnectionContext h render ovsPort key ctxt = UpdatePortContext h render ovsPort key ctxt"

text \<open>A row without \<^verbatim>\<open>other_config\<close>, or a context key without its value, is a failed type assertion.\<close>

fun context_rows :: "(string \<times> ovs_row) list \<Rightarrow> ('o world, unit) go" where
  "context_rows [] = gret ()"
| "context_rows ((_, row) # rows) =
     gbind (case map_of row ''other_config'' of
         Some (OvsMap other_config) \<Rightarrow>
           (case map_of other_config CONTEXT_KEY of
              None \<Rightarrow> gret ()
            | Some container_id \<Rightarrow> (case map_of other_config CONTEXT_VALUE of
                  None \<Rightarrow> gpanic ''interface conversion''
                | Some v \<Rightarrow> change (\<lambda>w. w\<lparr>w_ContextCache := AList.update container_id v (w_ContextCache w)\<rparr>)))
       | _ \<Rightarrow> gpanic ''interface conversion'') (\<lambda>_. context_rows rows)"

definition populateContextCache :: "('o world, unit) go" where
  "populateContextCache =
     gbind (ask w_ovsClient) (\<lambda>up.
       if \<not> up then gret ()
       else gbind (ask (\<lambda>w. GetTableCache ''Interface'' (w_cache w))) context_rows)"

text \<open>The package initialiser.\<close>

definition server_init :: "'o host \<Rightarrow> bool list \<Rightarrow> TableUpdates option \<Rightarrow> TableUpdates list \<Rightarrow> ('o world, unit) go" where
  "server_init h tries initial arrivals =
     gbind (ovs_connect h tries initial arrivals) (\<lambda>_.
     gbind (change (\<lambda>w. w\<lparr>w_ContextCache := []\<rparr>)) (\<lambda>_. populateContextCache))"

end
