(* ===== verification/ConnectionProps.thy ===== *)
theory ConnectionProps
  imports Connections
begin

text \<open>
  What is proved of connections: the texts and hardware addresses derived from an address, what a
  successful \<^verbatim>\<open>addConnection\<close> has done to the store, and that \<^verbatim>\<open>deleteConnection\<close> takes it back.
\<close>

section \<open>What the calls keep and return\<close>

context os_inv
begin

lemma keeps_gdefer [keeps_intro]: "keeps I m \<Longrightarrow> keeps I (gdefer m d)"
  by (auto simp: keeps_def gdefer_def os_change split: prod.splits)

lemma keeps_bridge [keeps_intro]:
  "keeps I (CreateBridge h)" "keeps I (DeleteBridge h)" "keeps I (AddPeer h p)" "keeps I (DeletePeer h p)"
  unfolding CreateBridge_def DeleteBridge_def AddPeer_def DeletePeer_def by (intro keeps_intro)+

lemma keeps_createOvsInternalPort [keeps_intro]:
  "keeps I (GenerateRandomName h s n)" "keeps I (createOvsInternalPort h render s b t)"
  unfolding createOvsInternalPort_def GenerateRandomName_def by (intro keeps_intro)+

lemma keeps_in_netns [keeps_intro]: "(\<And>n. keeps I (before n)) \<Longrightarrow> keeps I body \<Longrightarrow> keeps I (in_netns h name fail before body)"
  unfolding in_netns_def by (intro keeps_intro)

lemma keeps_attach_port [keeps_intro]: "keeps I (configure_port h c)" "keeps I (attach_port h pid c)"
  unfolding attach_port_def configure_port_def Let_def by (intro keeps_intro)+

end

context world_inv
begin

lemma keeps_connection [keeps_intro]:
  "keeps I (choose_ip fuel v r s)" "keeps I (addConnection h render fuel pid name ip)"
  "keeps I (deleteConnection h fuel c name)"
  unfolding choose_ip_def addConnection_def deleteConnection_def by (intro keeps_intro)+

end

lemma gives_if_err [gives_intro]: "(\<And>e. P (f e)) \<Longrightarrow> gives P k \<Longrightarrow> gives P (if_err m f k)"
  unfolding if_err_def by (intro gives_intro)

lemma gives_gdefer [gives_intro]: "gives P m \<Longrightarrow> gives P (gdefer m d)"
  by (fastforce simp: gives_def gdefer_def split: prod.splits)

lemma attach_port_gives: "gives (\<lambda>(c, _). c = conn) (attach_port h pid conn)"
  unfolding attach_port_def configure_port_def in_netns_def Let_def by (intro gives_intro) simp_all

section \<open>Hardware addresses\<close>

lemma ParseMAC_generateMacAddr: "ParseMAC (mac_String (generateMacAddr ip)) = Some (generateMacAddr ip)"
  by (rule ParseMAC_mac_String) (simp add: generateMacAddr_def)

text \<open>
  C30. The hardware address made from an IPv4 address, in its form of four bytes (as \<^verbatim>\<open>RequestIP\<close>
  returns it) or of sixteen (as \<^verbatim>\<open>net.ParseIP\<close> returns a requested one), is the prefix 02:42
  followed by the four bytes of the address: a unicast, locally administered address of six bytes
  whose text the kernel interface reads back. Two addresses get the same hardware address exactly
  when they are the same IPv4 address.
\<close>

theorem generateMacAddr_unique:
  assumes "length (To4 ip) = 4" and "length (To4 ip') = 4"
  shows "generateMacAddr ip = [0x02, 0x42] @ To4 ip \<and>
    (generateMacAddr ip = generateMacAddr ip' \<longleftrightarrow> To4 ip = To4 ip') \<and>
    ParseMAC (mac_String (generateMacAddr ip)) = Some (generateMacAddr ip) \<and>
    \<not> bit (generateMacAddr ip ! 0) 0 \<and> bit (generateMacAddr ip ! 0) 1 \<and>
    generateMacAddr (ParseIP (v4_string [a, b, c, d])) = [0x02, 0x42, a, b, c, d]"
  using assms ParseMAC_generateMacAddr [of ip]
  by (simp add: generateMacAddr_def bit_numeral_rec ParseIP_v4_string)

theorem generateMacAddr_unique_witness:
  "length (IPv4 10 0 0 2) = 16 \<and> generateMacAddr (IPv4 10 0 0 2) = [0x02, 0x42, 10, 0, 0, 2] \<and>
   generateMacAddr (IPv4 10 0 0 2) \<noteq> generateMacAddr [10, 0, 0, 3]"
proof -
  have "length (IPv4 10 0 0 2) = 16" by (simp add: IPv4_def v4InV6Prefix_def)
  with generateMacAddr_unique [of "IPv4 10 0 0 2" "[10, 0, 0, 3]" 0 0 0 0] show ?thesis by auto
qed

section \<open>The text of the mask\<close>

lemma ip_String_4 [simp]: "length ip = 4 \<Longrightarrow> ip_String ip = v4_string ip"
  by (cases "ip = []") (auto simp: ip_String_def)

lemma net_String_v4_subnet: "v4_subnet n subnet \<Longrightarrow> net_String subnet = v4_string (net_IP subnet) @ ''/'' @ itoa n"
  using net_String_v4 [of n "net_IP subnet"] by (cases subnet) (simp add: v4_subnet_def)

lemma subnetPrefix_two_digits:
  assumes "v4_subnet n subnet" and "10 \<le> n"
  shows "subnetPrefix subnet = Some (''/'' @ itoa n)"
proof -
  have "n \<le> 32" using assms(1) by (simp add: v4_subnet_def)
  then have "length (itoa n) = 2" using assms(2) by (simp add: itoa_large itoa_small)
  then show ?thesis by (simp add: subnetPrefix_def net_String_v4_subnet [OF assms(1)])
qed

lemma ParseCIDR_in_subnet:
  assumes "v4_subnet n subnet" and "length ip = 4" and "net_Contains subnet ip"
  shows "ParseCIDR (v4_string ip @ ''/'' @ itoa n) = Some (ParseIP (v4_string ip), subnet)"
proof -
  have n: "n \<le> 32" "net_Mask subnet = CIDRMask n 32" "length (net_IP subnet) = 4" using assms(1) by (auto simp: v4_subnet_def)
  obtain a b c d where ip: "ip = [a, b, c, d]" using assms(2) by (rule length_4E)
  have "read32 (band ip (CIDRMask n 32)) = read32 (net_IP subnet)"
    using subnet_contains_iff [OF assms(1,2)] assms(3) n(1) assms(2)
    by (simp add: read32_band length_CIDRMask_32 read32_CIDRMask)
  then have "band ip (CIDRMask n 32) = net_IP subnet"
    using n assms(2) by (subst (asm) read32_inj) (simp_all add: length_CIDRMask_32)
  then have "ip_Mask ip (CIDRMask n 32) = net_IP subnet"
    using assms(2) length_CIDRMask_32 [OF n(1)] by (auto simp: ip_Mask_def)
  then show ?thesis using ParseCIDR_v4 [OF n(1), of a b c d] n(2) by (simp add: ip ParseIP_v4_string)
qed

text \<open>
  For masks of ten bits and more the two texts a connection keeps, address and mask, are
  together the CIDR text of the address: it parses to the address and to the subnet of the network.
\<close>

theorem connection_text_roundtrip:
  assumes "v4_subnet n subnet" and "10 \<le> n" and "length ip = 4" and "net_Contains subnet ip"
  shows "\<exists>pre. subnetPrefix subnet = Some pre \<and> ParseCIDR (ip_String ip @ pre) = Some (ParseIP (ip_String ip), subnet)"
  using subnetPrefix_two_digits [OF assms(1,2)] ParseCIDR_in_subnet [OF assms(1,3,4)] assms(3) by simp

theorem connection_text_roundtrip_witness:
  "\<exists>pre. subnetPrefix net24 = Some pre \<and> ParseCIDR (ip_String [192, 168, 7, 2] @ pre) = Some (ParseIP (ip_String [192, 168, 7, 2]), net24)"
  by (rule connection_text_roundtrip [OF v4_subnet_net24])
     (simp_all add: net24_def net_Contains_def networkNumberAndMask_def To4_def)

lemma digit_0: "digit 0 = CHR ''0''"
  by (simp add: digit_def char_of_def bit_Suc_0_iff)

text \<open>
  C37. For a mask of less than ten bits the last three characters of the subnet's text begin with the
  last digit of its address: the text handed to the kernel for the address \<open>a.b.c.d\<close> parses, as
  long as it parses at all, to the address \<open>a.b.c.(10 d)\<close>.
\<close>

theorem one_digit_mask_wrong_address:
  assumes "v4_subnet n subnet" and "n < 10" and "0 < unat d" and "10 * unat d < 256"
  shows "\<exists>pre ipn. subnetPrefix subnet = Some pre \<and> ParseIPNet (ip_String [a, b, c, d] @ pre) = Some ipn \<and>
    net_IP ipn = IPv4 a b c (of_nat (10 * unat d)) \<and> net_IP ipn \<noteq> IPv4 a b c d"
proof -
  have n: "n \<le> 32" "net_Mask subnet = CIDRMask n 32" "length (net_IP subnet) = 4"
      "band (net_IP subnet) (CIDRMask n 32) = net_IP subnet"
    using assms(1) by (auto simp: v4_subnet_def)
  obtain x y z t where ip: "net_IP subnet = [x, y, z, t]" using n(3) by (rule length_4E)
  have "n \<in> {0,1,2,3,4,5,6,7,8,9}" using assms(2) by auto
  then have "CIDRMask n 32 ! 3 = 0" by (auto simp: CIDRMask_def cidr_bytes_numeral)
  then have "t = 0" using n(4) length_CIDRMask_32 [OF n(1)] unfolding ip by (auto elim!: length_4E)
  then have "net_String subnet = (itoa (unat x) @ ''.'' @ itoa (unat y) @ ''.'' @ itoa (unat z) @ ''.'') @ ''0/'' @ itoa n"
      (is "_ = ?front @ _")
    using net_String_v4_subnet [OF assms(1)] by (simp add: ip v4_string_def itoa_small digit_0)
  moreover have "length (itoa n) = 1" using assms(2) by (simp add: itoa_small)
  then have "length (?front @ ''0/'' @ itoa n) - 3 = length ?front" by simp
  ultimately have pre: "subnetPrefix subnet = Some (''0/'' @ itoa n)"
    unfolding subnetPrefix_def Let_def by (simp only: drop_append) simp
  have ten: "itoa (10 * unat d) = itoa (unat d) @ ''0''" using assms(3) by (simp add: itoa_large digit_0)
  have u: "unat (of_nat (10 * unat d) :: byte) = 10 * unat d" using assms(4) by (simp add: unat_of_nat del: of_nat_mult)
  have "ip_String [a, b, c, d] @ ''0/'' @ itoa n = v4_string [a, b, c, of_nat (10 * unat d)] @ ''/'' @ itoa n"
    by (simp add: v4_string_def u ten del: of_nat_mult)
  then have p: "ParseCIDR (ip_String [a, b, c, d] @ ''0/'' @ itoa n) = Some (IPv4 a b c (of_nat (10 * unat d)),
      \<lparr>net_IP = ip_Mask [a, b, c, of_nat (10 * unat d)] (CIDRMask n 32), net_Mask = CIDRMask n 32\<rparr>)"
    using ParseCIDR_v4 [OF n(1)] by metis
  have "(of_nat (10 * unat d) :: byte) \<noteq> d"
  proof
    assume "(of_nat (10 * unat d) :: byte) = d"
    then have "10 * unat d = unat d" using u by metis
    with assms(3) show False by simp
  qed
  with p pre show ?thesis by (auto simp: ParseIPNet_def IPv4_def)
qed

theorem one_digit_mask_wrong_address_witness:
  "\<exists>pre ipn. subnetPrefix net8 = Some pre \<and> ParseIPNet (ip_String [10, 0, 0, 2] @ pre) = Some ipn \<and>
    net_IP ipn = IPv4 10 0 0 20"
  using one_digit_mask_wrong_address [OF v4_subnet_net8, of 2 10 0 0] by auto

section \<open>Adding and deleting a connection\<close>

lemma ParseCIDR_net_String:
  assumes "v4_subnet n subnet"
  shows "ParseCIDR (net_String subnet) = Some (ParseIP (v4_string (net_IP subnet)), subnet)"
proof -
  have "net_Contains subnet (net_IP subnet)"
    using first_in_own_net(2) [OF v4_subnet_net [OF assms]] assms unfolding v4_subnet_def by (metis (full_types))
  then show ?thesis using ParseCIDR_in_subnet [OF assms] assms
    by (simp add: net_String_v4_subnet [OF assms] v4_subnet_def)
qed

lemma GetNetwork_stored:
  assumes "alone (w_kv w)" and "value_at (cluster (w_kv w)) (key_path networkStore name) = Some (Network_Marshal nw)"
  shows "GetNetwork name w = (Ret (Inr nw), w\<lparr>w_kv := tick (cluster (w_kv w)) (w_kv w)\<rparr>)"
  using GetNetwork_run [OF assms(1), of name] assms(2) by (simp add: Network_Unmarshal_Marshal)

lemma own_stateD:
  assumes "own_state w' = own_state w"
  shows "w_ovsClient w' = w_ovsClient w" "w_cache w' = w_cache w" "w_heap w' = w_heap w" "w_daemon w' = w_daemon w"
  using assms by (simp_all add: own_state_def)

text \<open>The connection record of a slot of the pool.\<close>

definition slot_connection :: "Network \<Rightarrow> IPNet \<Rightarrow> string \<Rightarrow> nat \<Rightarrow> OvsConnection" where
  "slot_connection nw subnet port k =
     \<lparr>oc_Name = port, oc_Ip = ip_String (slot_addr subnet k), oc_Subnet = the (subnetPrefix subnet),
      oc_Mac = mac_String (generateMacAddr (slot_addr subnet k)), oc_Gateway = nw_Gateway nw\<rparr>"

lemma addConnection_store:
  assumes "w_ok w" and "alone (w_kv w)" and "name \<noteq> []"
    and "value_at (cluster (w_kv w)) (key_path networkStore name) = Some (Network_Marshal nw)"
    and "nw_Subnet nw = net_String subnet" and "v4_subnet n subnet"
    and "length (pool (cluster (w_kv w)) (vni_str (nw_VNI nw)) subnet) \<le> maxKVSize"
    and "used (pool (cluster (w_kv w)) (vni_str (nw_VNI nw)) subnet) \<noteq> {..<8 * length (pool (cluster (w_kv w)) (vni_str (nw_VNI nw)) subnet)}"
    and "addConnection h render (Suc fuel) pid name [] w = (Ret (conn, err), w')" and "err = None \<or> conn \<noteq> OvsConnection0"
  obtains port k a' where "conn = slot_connection nw subnet port k"
    "k < 8 * length (pool (cluster (w_kv w)) (vni_str (nw_VNI nw)) subnet)"
    "k \<notin> used (pool (cluster (w_kv w)) (vni_str (nw_VNI nw)) subnet)"
    "\<forall>j < k. j \<in> used (pool (cluster (w_kv w)) (vni_str (nw_VNI nw)) subnet)"
    "value_at (cluster (w_kv w')) = (value_at (cluster (w_kv w)))(ip_path (vni_str (nw_VNI nw)) subnet \<mapsto> a')"
    "length a' = length (pool (cluster (w_kv w)) (vni_str (nw_VNI nw)) subnet)"
    "used a' = insert k (used (pool (cluster (w_kv w)) (vni_str (nw_VNI nw)) subnet))"
    "w_ok w'" "alone (w_kv w')" "own_state w' = own_state w"
proof -
  let ?V = "vni_str (nw_VNI nw)" and ?s1 = "tick (cluster (w_kv w)) (w_kv w)"
  let ?w1 = "w\<lparr>w_kv := ?s1\<rparr>"
  have s1: "net_ok ?s1" "alone ?s1" using assms(1,2) by (auto simp: w_ok_def net_ok_def alone_def)
  have g: "GetNetwork name w = (Ret (Inr nw), ?w1)" by (rule GetNetwork_stored [OF assms(2,4)])
  have cidr: "ParseCIDR (nw_Subnet nw) = Some (ParseIP (v4_string (net_IP subnet)), subnet)"
    unfolding assms(5) by (rule ParseCIDR_net_String [OF assms(6)])
  from assms(9,10) g cidr assms(3) obtain port w2 where
    port: "createOvsInternalPort h render ''ovs'' bridgeName (nw_VNI nw) ?w1 = (Ret (port, None), w2)"
    and rest: "gbind (choose_ip (Suc fuel) (nw_VNI nw) [] subnet) (\<lambda>ip. gbind (gcheck slice_panic (subnetPrefix subnet))
        (\<lambda>pre. attach_port h pid \<lparr>oc_Name = port, oc_Ip = ip_String ip, oc_Subnet = pre,
           oc_Mac = mac_String (generateMacAddr ip), oc_Gateway = nw_Gateway nw\<rparr>)) w2 = (Ret (conn, err), w')"
    by (auto simp: addConnection_def bridgeName_def gret_def elim!: gbind_RetE split: option.splits)
  have kv2: "w_kv w2 = ?s1"
    using keepsD [OF kvs.keeps_createOvsInternalPort(2) _ port, of ?s1] by simp
  obtain k a' s3 where k: "k < 8 * length (pool (cluster (w_kv w)) ?V subnet)" "k \<notin> used (pool (cluster (w_kv w)) ?V subnet)"
      "\<forall>j < k. j \<in> used (pool (cluster (w_kv w)) ?V subnet)"
      "RequestIP (Suc fuel) ?V subnet ?s1 = (Ret (slot_addr subnet k), s3)" "net_ok s3" "sched s3 = sched ?s1"
      "value_at (cluster s3) = (value_at (cluster (w_kv w)))(ip_path ?V subnet \<mapsto> a')"
      "length a' = length (pool (cluster (w_kv w)) ?V subnet)" "used a' = insert k (used (pool (cluster (w_kv w)) ?V subnet))"
    using RequestIP_least [OF s1(1) alone_quiet [OF s1(2)] assms(6), of ?V fuel] assms(7,8) unfolding tick_simps by metis
  let ?w3 = "w2\<lparr>w_kv := s3\<rparr>"
  obtain pre where pre: "subnetPrefix subnet = Some pre"
    and att: "attach_port h pid \<lparr>oc_Name = port, oc_Ip = ip_String (slot_addr subnet k), oc_Subnet = pre,
           oc_Mac = mac_String (generateMacAddr (slot_addr subnet k)), oc_Gateway = nw_Gateway nw\<rparr> ?w3 = (Ret (conn, err), w')"
    using rest k(4) kv2
    by (auto simp: choose_ip_def on_kv_def gbind_def gcheck_def gpanic_def gret_def simp del: RequestIP.simps split: option.splits)
  have "conn = slot_connection nw subnet port k"
    using givesD [OF attach_port_gives att] by (simp add: slot_connection_def pre)
  moreover have kv': "w_kv w' = s3" using keepsD [OF kvs.keeps_attach_port(2) _ att, of s3] by simp
  moreover have "own_state w' = own_state w"
    using keepsD [OF own.keeps_connection(2) _ assms(9), of "own_state w"] by simp
  moreover have "alone s3" by (rule alone_cong [OF s1(2) k(6)])
  ultimately show ?thesis using that [of port k a'] k by (simp add: w_ok_def)
qed

text \<open>
  C15. A container that was connected without asking for an address has the lowest free address of
  its network's pool, which is marked as used for the network's VNI and nothing else in
  the store has changed; port name, mask and gateway are those of the network.
\<close>

theorem addConnection_takes_free_address:
  assumes "w_ok w" and "alone (w_kv w)" and "name \<noteq> []"
    and "value_at (cluster (w_kv w)) (key_path networkStore name) = Some (Network_Marshal nw)"
    and "nw_Subnet nw = net_String subnet" and "v4_subnet n subnet"
    and "length (pool (cluster (w_kv w)) (vni_str (nw_VNI nw)) subnet) \<le> maxKVSize"
    and "used (pool (cluster (w_kv w)) (vni_str (nw_VNI nw)) subnet) \<noteq> {..<8 * length (pool (cluster (w_kv w)) (vni_str (nw_VNI nw)) subnet)}"
    and "addConnection h render (Suc fuel) pid name [] w = (Ret (conn, None), w')"
  shows "\<exists>port k. conn = slot_connection nw subnet port k \<and>
    k \<notin> used (pool (cluster (w_kv w)) (vni_str (nw_VNI nw)) subnet) \<and>
    (\<forall>j < k. j \<in> used (pool (cluster (w_kv w)) (vni_str (nw_VNI nw)) subnet)) \<and>
    used (pool (cluster (w_kv w')) (vni_str (nw_VNI nw)) subnet) = insert k (used (pool (cluster (w_kv w)) (vni_str (nw_VNI nw)) subnet)) \<and>
    (\<forall>p. p \<noteq> ip_path (vni_str (nw_VNI nw)) subnet \<longrightarrow> value_at (cluster (w_kv w')) p = value_at (cluster (w_kv w)) p)"
proof -
  obtain port k a' where r: "conn = slot_connection nw subnet port k"
    "k \<notin> used (pool (cluster (w_kv w)) (vni_str (nw_VNI nw)) subnet)"
    "\<forall>j < k. j \<in> used (pool (cluster (w_kv w)) (vni_str (nw_VNI nw)) subnet)"
    "value_at (cluster (w_kv w')) = (value_at (cluster (w_kv w)))(ip_path (vni_str (nw_VNI nw)) subnet \<mapsto> a')"
    "used a' = insert k (used (pool (cluster (w_kv w)) (vni_str (nw_VNI nw)) subnet))"
    by (rule addConnection_store [OF assms]) simp
  from pool_written [OF r(4)] r show ?thesis by (intro exI [of _ port] exI [of _ k]) simp
qed

lemma deleteConnection_run:
  assumes "w_ok w" and "alone (w_kv w)" and "w_ovsClient w" and "\<forall>ops s. fst (h_transact h ops s) \<noteq> None"
    and "value_at (cluster (w_kv w)) (key_path networkStore name) = Some (Network_Marshal nw)"
    and "v4_subnet n subnet" and "10 \<le> n" and "k + 1 < 2 ^ (32 - n)"
    and "value_at (cluster (w_kv w)) (ip_path (vni_str (nw_VNI nw)) subnet) = Some a" and "length a \<le> maxKVSize"
    and "k < 8 * length a"
  obtains a' w' where "deleteConnection h (Suc fuel) (slot_connection nw subnet port k) name w = (Ret None, w')"
    "value_at (cluster (w_kv w')) = (value_at (cluster (w_kv w)))(ip_path (vni_str (nw_VNI nw)) subnet \<mapsto> a')"
    "length a' = length a" "used a' = used a - {k}"
proof -
  let ?V = "vni_str (nw_VNI nw)" and ?ip = "slot_addr subnet k" and ?s1 = "tick (cluster (w_kv w)) (w_kv w)"
  obtain os' where dp: "deletePort h bridgeName port w = (Ret (), w\<lparr>w_os := os'\<rparr>)"
    using deletePort_returns [of w h bridgeName port] assms(3,4) by auto
  have g: "GetNetwork name (w\<lparr>w_os := os'\<rparr>) = (Ret (Inr nw), w\<lparr>w_os := os', w_kv := ?s1\<rparr>)"
    using GetNetwork_stored [of "w\<lparr>w_os := os'\<rparr>" name nw] assms(2,5) by simp
  have cidr: "ParseCIDR (v4_string ?ip @ CHR ''/'' # itoa n) = Some (ParseIP (v4_string ?ip), subnet)"
    using ParseCIDR_in_subnet [OF assms(6) _ slot_addr_in_subnet [OF assms(6,8)]] by simp
  obtain x y z t where xyz: "?ip = [x, y, z, t]" by (rule length_4E [of ?ip]) simp
  have "k < 2 ^ 32" using assms(10,11) by (simp add: maxKVSize_def)
  then have slot: "unat (ip_slot (ParseIP (v4_string ?ip)) subnet) = k"
    using ip_slot_slot_addr [of subnet k] by (simp add: xyz ParseIP_v4_string ip_slot_def of_nat_32_bound)
  have s1: "net_ok ?s1" "alone ?s1" using assms(1,2) by (auto simp: w_ok_def net_ok_def alone_def)
  have v1: "value_at (cluster ?s1) (ip_path ?V subnet) = Some a" using assms(9) by simp
  have b1: "unat (ip_slot (ParseIP (v4_string ?ip)) subnet) < 8 * length a" using slot assms(11) by simp
  obtain a' s2 where r: "ReleaseIP (Suc fuel) (ParseIP (v4_string ?ip)) subnet ?V ?s1 = (Ret True, s2)"
      "value_at (cluster s2) = (value_at (cluster ?s1))(ip_path ?V subnet \<mapsto> a')"
      "length a' = length a" "used a' = used a - {unat (ip_slot (ParseIP (v4_string ?ip)) subnet)}"
    by (rule ReleaseIP_quiet [OF s1(1) alone_quiet [OF s1(2)] v1 assms(10) b1])
  have "deleteConnection h (Suc fuel) (slot_connection nw subnet port k) name w = (Ret None, w\<lparr>w_os := os', w_kv := s2\<rparr>)"
    using dp g cidr r(1) assms(3) subnetPrefix_two_digits [OF assms(6,7)]
    by (simp add: deleteConnection_def slot_connection_def gbind_def go_run on_kv_def gret_def del: ReleaseIP.simps)
  with that [of "w\<lparr>w_os := os', w_kv := s2\<rparr>" a'] r slot show ?thesis by simp
qed

text \<open>
  C8. A connection that was added without a requested address, to a network with a mask of ten bits or
  more and with room left in its subnet, and is then deleted, with nobody else at the store: its address is
  given back. The stored pool is bit for bit the one the addition started from, and no other key
  of the store is touched. (For a requested address that was in use before, deletion clears
  a bit the addition did not set.)
\<close>

theorem add_delete_connection:
  assumes "w_ok w" and "alone (w_kv w)" and "name \<noteq> []"
    and "value_at (cluster (w_kv w)) (key_path networkStore name) = Some (Network_Marshal nw)"
    and "nw_Subnet nw = net_String subnet" and "v4_subnet n subnet"
    and "length (pool (cluster (w_kv w)) (vni_str (nw_VNI nw)) subnet) \<le> maxKVSize"
    and "used (pool (cluster (w_kv w)) (vni_str (nw_VNI nw)) subnet) \<noteq> {..<8 * length (pool (cluster (w_kv w)) (vni_str (nw_VNI nw)) subnet)}"
    and "addConnection h render (Suc fuel) pid name [] w = (Ret (conn, None), w')"
    and "w_ovsClient w" and "\<forall>ops s. fst (h_transact h ops s) \<noteq> None" and "10 \<le> n"
    and "card (used (pool (cluster (w_kv w)) (vni_str (nw_VNI nw)) subnet)) + 1 < 2 ^ (32 - n)"
  shows "\<exists>w''. deleteConnection h (Suc fuel') conn name w' = (Ret None, w'') \<and>
    value_at (cluster (w_kv w'')) = (value_at (cluster (w_kv w)))
      (ip_path (vni_str (nw_VNI nw)) subnet \<mapsto> pool (cluster (w_kv w)) (vni_str (nw_VNI nw)) subnet)"
proof -
  let ?V = "vni_str (nw_VNI nw)" and ?p = "pool (cluster (w_kv w)) (vni_str (nw_VNI nw)) subnet"
  obtain port k a' where r: "conn = slot_connection nw subnet port k" "k < 8 * length ?p" "k \<notin> used ?p"
    "\<forall>j < k. j \<in> used ?p" "value_at (cluster (w_kv w')) = (value_at (cluster (w_kv w)))(ip_path ?V subnet \<mapsto> a')"
    "length a' = length ?p" "used a' = insert k (used ?p)" "w_ok w'" "alone (w_kv w')" "own_state w' = own_state w"
    by (rule addConnection_store [OF assms(1-9)]) simp
  have "k \<le> card (used ?p)" using least_free_le_card [OF _ r(4)] by simp
  then have bound: "k + 1 < 2 ^ (32 - n)" using assms(13) by simp
  have pool': "value_at (cluster (w_kv w')) (ip_path ?V subnet) = Some a'" by (simp add: r(5))
  have net': "value_at (cluster (w_kv w')) (key_path networkStore name) = Some (Network_Marshal nw)"
    using r(5) assms(4) by simp
  have up: "w_ovsClient w'" using own_stateD(1) [OF r(10)] assms(10) by simp
  obtain a'' w'' where d: "deleteConnection h (Suc fuel') conn name w' = (Ret None, w'')"
    "value_at (cluster (w_kv w'')) = (value_at (cluster (w_kv w')))(ip_path ?V subnet \<mapsto> a'')"
    "length a'' = length a'" "used a'' = used a' - {k}"
    unfolding r(1)
    by (rule deleteConnection_run [OF r(8,9) up assms(11) net' assms(6,12) bound pool'])
       (use r(2,6) assms(7) in simp_all)
  have "a'' = ?p" using d(3,4) r(3,6,7) by (intro used_eqI) auto
  with d(1,2) r(5) show ?thesis by (intro exI [of _ w'']) simp
qed

section \<open>A concrete connection\<close>

lemma host0_answers: "ovs_answers host0"
  by (simp add: ovs_answers_def host0_def)

lemma os_unit [simp]: "(w :: unit world)\<lparr>w_os := x\<rparr> = w"
  by (cases w) simp

lemma ParseCIDR_zero: "ParseCIDR ''0.0.0.0/0'' \<noteq> None"
  using ParseCIDR_v4 [of 0 0 0 0 0] by (simp add: v4_string_def itoa_small digit_0)

lemma attach_port_host0:
  assumes "ParseIPNet (oc_Ip c @ oc_Subnet c) \<noteq> None" and "ParseMAC (oc_Mac c) \<noteq> None" and "ParseIP (oc_Gateway c) \<noteq> []"
  shows "attach_port host0 pid c w = (Ret (c, None), w)"
proof -
  obtain ipn hw dst where p: "ParseIPNet (oc_Ip c @ oc_Subnet c) = Some ipn" "ParseMAC (oc_Mac c) = Some hw" "ParseCIDR ''0.0.0.0/0'' = Some dst"
    using assms ParseCIDR_zero by auto
  obtain x net where dst: "dst = (x, net)" by (cases dst)
  have nl: "SetMtu nl_one_route i m s = (None, s)" "InterfaceUp nl_one_route i s = (None, s)"
      "SetInterfaceInNamespaceFd nl_one_route i fd s = (None, s)"
      "SetInterfaceIp nl_one_route i (oc_Ip c @ oc_Subnet c) s = (None, s)" "SetInterfaceMac nl_one_route i (oc_Mac c) s = (None, s)"
      "SetDefaultGateway nl_one_route (oc_Gateway c) i s = (None, s)" for i m fd s
    using assms(3) p dst unfolding SetMtu_def InterfaceUp_def SetInterfaceInNamespaceFd_def SetInterfaceIp_def SetInterfaceMac_def
      SetDefaultGateway_def with_link_def by (simp_all add: nl_one_route_def)
  show ?thesis
    by (simp add: attach_port_def configure_port_def in_netns_def Let_def go_run gbind_def gdefer_def host0_def if_err_def nl gret_def on_os_def)
qed

lemma hex_digit_0: "hex_digit 0 = CHR ''0''"
  using digit_0 by (simp add: hex_digit_def digit_def)

lemma hex_zeros: "hex_EncodeToString (replicate n 0) = replicate (2 * n) CHR ''0''"
  by (induction n) (simp_all add: hex_EncodeToString_def hex2_def hex_digit_0)

lemma createOvsInternalPort_zeros:
  fixes h :: "unit host"
  assumes "w_ovsClient w" and "ovs_answers h" and "h_rand h = h_rand host0"
  shows "createOvsInternalPort h render pre b t w = (Ret (pre @ replicate 7 CHR ''0'', None), w)"
proof -
  have hex: "length (hex_EncodeToString (replicate 32 0)) = 64" "take 7 (hex_EncodeToString (replicate 32 0)) = replicate 7 CHR ''0''"
    by (simp_all only: hex_zeros) simp_all
  have "h_rand host0 s = (Inr (replicate 32 0), s)" for s by (simp add: host0_def)
  then have g: "GenerateRandomName h pre 7 w = (Ret (Inr (pre @ replicate 7 CHR ''0'')), w)"
    using hex by (simp add: GenerateRandomName_def gbind_def on_os_def assms(3) gret_def)
  obtain err s' where a: "AddInternalPort h render b (pre @ replicate 7 CHR ''0'') t w = (Ret err, w\<lparr>w_os := s'\<rparr>)"
    by (rule AddInternalPort_answers [OF assms(2,1)])
  show ?thesis using g a assms(1) unfolding createOvsInternalPort_def gbind_def by (simp add: go_run)
qed

definition green :: Network where
  "green = \<lparr>nw_Name = ''green'', nw_Subnet = net_String net24, nw_Gateway = v4_string [192, 168, 7, 1], nw_VNI = 1\<rparr>"

definition world_green :: "unit world" where
  "world_green = world0\<lparr>w_kv := holding (key_path networkStore ''green'') (Network_Marshal green)\<rparr>"

lemma green_subnet: "nw_Subnet green = net_String net24" and green_gateway: "ParseIP (nw_Gateway green) \<noteq> []"
  by (simp_all add: green_def ParseIP_v4_string)

lemma world_green_simps:
  "w_ok world_green" "alone (w_kv world_green)" "w_ovsClient world_green"
  "value_at (cluster (w_kv world_green)) (key_path networkStore ''green'') = Some (Network_Marshal green)"
  by (simp_all add: world_green_def w_ok_def)

lemma pool_green: "pool (cluster (w_kv world_green)) V net24 = fresh_pool net24"
  by (simp add: pool_def world_green_def)

lemma addConnection_green:
  fixes h :: "unit host"
  assumes "ovs_answers h" and "h_rand h = h_rand host0"
    and "\<And>c w. ParseIPNet (oc_Ip c @ oc_Subnet c) \<noteq> None \<Longrightarrow> ParseMAC (oc_Mac c) \<noteq> None \<Longrightarrow> ParseIP (oc_Gateway c) \<noteq> [] \<Longrightarrow>
      attach_port h pid c w = (Ret (c, err), w)"
    and "w_kv v = w_kv world_green" and "w_ovsClient v"
  obtains w' where "addConnection h render (Suc fuel) pid ''green'' [] v =
    (Ret (slot_connection green net24 ''ovs0000000'' 0, err), w')"
proof -
  let ?s = "w_kv world_green" and ?V = "vni_str (nw_VNI green)" and ?c = "slot_connection green net24 ''ovs0000000'' 0"
  let ?w1 = "v\<lparr>w_kv := tick (cluster ?s) ?s\<rparr>"
  have t1: "net_ok (tick (cluster ?s) ?s)" "alone (tick (cluster ?s) ?s)" "w_ovsClient ?w1"
    using world_green_simps assms(5) by (auto simp: w_ok_def net_ok_def alone_def)
  have p1: "length (pool (cluster (tick (cluster ?s) ?s)) ?V net24) \<le> maxKVSize"
      "used (pool (cluster (tick (cluster ?s) ?s)) ?V net24) \<noteq> {..<8 * length (pool (cluster (tick (cluster ?s) ?s)) ?V net24)}"
    by (simp_all add: pool_green maxKVSize_def)
  obtain k s2 where k: "\<forall>j < k. j \<in> used (pool (cluster (tick (cluster ?s) ?s)) ?V net24)"
      "RequestIP (Suc fuel) ?V net24 (tick (cluster ?s) ?s) = (Ret (slot_addr net24 k), s2)"
    by (rule RequestIP_least [OF t1(1) alone_quiet [OF t1(2)] v4_subnet_net24 p1])
  have k0: "k = 0" using k(1) by (auto simp: pool_green)
  have sub: "net_Contains net24 (slot_addr net24 0)" using slot_addr_in_subnet [OF v4_subnet_net24, of 0] by simp
  have pre: "subnetPrefix net24 = Some (''/'' @ itoa 24)" by (rule subnetPrefix_two_digits [OF v4_subnet_net24]) simp
  have att: "attach_port h pid ?c w = (Ret (?c, err), w)" for w
    by (rule assms(3)) (use ParseCIDR_in_subnet [OF v4_subnet_net24 _ sub] pre in
        \<open>simp_all add: slot_connection_def ParseIPNet_def ParseMAC_generateMacAddr green_gateway\<close>)
  have "createOvsInternalPort h render ''ovs'' bridgeName (nw_VNI green) ?w1 = (Ret (''ovs0000000'', None), ?w1)"
    using createOvsInternalPort_zeros [OF t1(3) assms(1,2), of render "''ovs''" bridgeName "nw_VNI green"] by (simp add: numeral_eq_Suc)
  then have "addConnection h render (Suc fuel) pid ''green'' [] v = (Ret (?c, err), ?w1\<lparr>w_kv := s2\<rparr>)"
    using GetNetwork_stored [of v "''green''" green] world_green_simps(2,4) assms(4) ParseCIDR_net_String [OF v4_subnet_net24] k(2) pre att
    by (simp add: addConnection_def bridgeName_def gbind_def green_subnet choose_ip_def on_kv_def go_run k0 slot_connection_def
        del: RequestIP.simps)
  then show ?thesis by (rule that)
qed

theorem addConnection_takes_free_address_witness:
  "\<exists>conn w' port. addConnection host0 (\<lambda>_. []) 1 ''4711'' ''green'' [] world_green = (Ret (conn, None), w') \<and>
    conn = slot_connection green net24 port 0"
proof -
  obtain w' where a: "addConnection host0 (\<lambda>_. []) (Suc 0) ''4711'' ''green'' [] world_green =
      (Ret (slot_connection green net24 ''ovs0000000'' 0, None), w')"
    by (rule addConnection_green [OF host0_answers refl attach_port_host0 refl world_green_simps(3)])
  show ?thesis
    using addConnection_takes_free_address [OF world_green_simps(1,2) _ world_green_simps(4) green_subnet v4_subnet_net24 _ _ a] a
    by (auto simp: pool_green maxKVSize_def)
qed

theorem add_delete_connection_witness:
  "\<exists>conn w' w''. addConnection host0 (\<lambda>_. []) 1 ''4711'' ''green'' [] world_green = (Ret (conn, None), w') \<and>
    deleteConnection host0 1 conn ''green'' w' = (Ret None, w'') \<and>
    value_at (cluster (w_kv w'')) (ip_path (vni_str (nw_VNI green)) net24) = Some (fresh_pool net24)"
proof -
  obtain w' where a: "addConnection host0 (\<lambda>_. []) (Suc 0) ''4711'' ''green'' [] world_green =
      (Ret (slot_connection green net24 ''ovs0000000'' 0, None), w')"
    by (rule addConnection_green [OF host0_answers refl attach_port_host0 refl world_green_simps(3)])
  have "\<forall>ops s. fst (h_transact host0 ops s) \<noteq> None" by (simp add: host0_def)
  from add_delete_connection [OF world_green_simps(1,2) _ world_green_simps(4) green_subnet v4_subnet_net24 _ _ a world_green_simps(3) this, of 0] a
  show ?thesis by (auto simp: pool_green maxKVSize_def)
qed

section \<open>Failures\<close>

text \<open>
  C38. An addition that fails after the address was chosen (the first component of the result is then
  no longer empty) leaves the address marked as used: nothing gives it back.
\<close>

theorem addConnection_failure_leaks:
  assumes "w_ok w" and "alone (w_kv w)" and "name \<noteq> []"
    and "value_at (cluster (w_kv w)) (key_path networkStore name) = Some (Network_Marshal nw)"
    and "nw_Subnet nw = net_String subnet" and "v4_subnet n subnet"
    and "length (pool (cluster (w_kv w)) (vni_str (nw_VNI nw)) subnet) \<le> maxKVSize"
    and "used (pool (cluster (w_kv w)) (vni_str (nw_VNI nw)) subnet) \<noteq> {..<8 * length (pool (cluster (w_kv w)) (vni_str (nw_VNI nw)) subnet)}"
    and "addConnection h render (Suc fuel) pid name [] w = (Ret (conn, Some e), w')" and "conn \<noteq> OvsConnection0"
  shows "\<exists>port k. conn = slot_connection nw subnet port k \<and>
    k \<notin> used (pool (cluster (w_kv w)) (vni_str (nw_VNI nw)) subnet) \<and>
    k \<in> used (pool (cluster (w_kv w')) (vni_str (nw_VNI nw)) subnet)"
proof -
  obtain port k a' where r: "conn = slot_connection nw subnet port k"
    "k \<notin> used (pool (cluster (w_kv w)) (vni_str (nw_VNI nw)) subnet)"
    "value_at (cluster (w_kv w')) = (value_at (cluster (w_kv w)))(ip_path (vni_str (nw_VNI nw)) subnet \<mapsto> a')"
    "used a' = insert k (used (pool (cluster (w_kv w)) (vni_str (nw_VNI nw)) subnet))"
    by (rule addConnection_store [OF assms(1-9)]) (use assms(10) in simp)
  from pool_written [OF r(3)] r show ?thesis by (intro exI [of _ port] exI [of _ k]) simp
qed

definition host_no_link :: "unit host" where
  "host_no_link = host0\<lparr>h_Symlink := (\<lambda>_ _ s. (Some ''file exists'', s))\<rparr>"

theorem addConnection_failure_leaks_witness:
  "\<exists>conn w'. addConnection host_no_link (\<lambda>_. []) 1 ''4711'' ''green'' [] world_green = (Ret (conn, Some ''file exists''), w') \<and>
    used (pool (cluster (w_kv world_green)) (vni_str (nw_VNI green)) net24) = {} \<and>
    used (pool (cluster (w_kv w')) (vni_str (nw_VNI green)) net24) \<noteq> {}"
proof -
  have h: "ovs_answers host_no_link" "h_rand host_no_link = h_rand host0"
    using host0_answers by (simp_all add: host_no_link_def ovs_answers_def)
  have att: "attach_port host_no_link ''4711'' c w = (Ret (c, Some ''file exists''), w)" for c w
    by (simp add: attach_port_def Let_def gbind_def go_run host_no_link_def)
  obtain w' where a: "addConnection host_no_link (\<lambda>_. []) (Suc 0) ''4711'' ''green'' [] world_green =
      (Ret (slot_connection green net24 ''ovs0000000'' 0, Some ''file exists''), w')"
    by (rule addConnection_green [OF h att refl world_green_simps(3)])
  have "slot_connection green net24 ''ovs0000000'' 0 \<noteq> OvsConnection0" by (simp add: slot_connection_def OvsConnection0_def)
  from addConnection_failure_leaks [OF world_green_simps(1,2) _ world_green_simps(4) green_subnet v4_subnet_net24 _ _ a this]
  obtain port k where k: "slot_connection green net24 ''ovs0000000'' 0 = slot_connection green net24 port k"
      "k \<in> used (pool (cluster (w_kv w')) (vni_str (nw_VNI green)) net24)"
    by (auto simp: pool_green maxKVSize_def)
  show ?thesis using a k(2) by (auto simp: pool_green)
qed

lemma createOvsInternalPort_answers:
  assumes "ovs_answers h" and "\<forall>s. \<exists>r s'. h_rand h s = (Inr r, s')" and "w_ovsClient w"
  obtains port os' where "createOvsInternalPort h render pre b t w = (Ret (port, None), w\<lparr>w_os := os'\<rparr>)"
proof -
  obtain r s1 where r: "h_rand h (w_os w) = (Inr r, s1)" using assms(2) by blast
  have len: "length (hex_EncodeToString x) = 2 * length x" for x
    by (induction x) (simp_all add: hex_EncodeToString_def)
  let ?p = "pre @ take 7 (hex_EncodeToString (go_copy (replicate 32 0) r))"
  have up: "w_ovsClient (w\<lparr>w_os := s1\<rparr>)" using assms(3) by simp
  obtain err s2 where a: "AddInternalPort h render b ?p t (w\<lparr>w_os := s1\<rparr>) = (Ret err, w\<lparr>w_os := s1\<rparr>\<lparr>w_os := s2\<rparr>)"
    by (rule AddInternalPort_answers [OF assms(1) up])
  have "GenerateRandomName h pre 7 w = (Ret (Inr ?p), w\<lparr>w_os := s1\<rparr>)"
    by (simp add: GenerateRandomName_def gbind_def on_os_def r len gret_def)
  then show ?thesis using that [of ?p s2] a assms(3) unfolding createOvsInternalPort_def gbind_def by (simp add: go_run)
qed

text \<open>
  C39. On a node whose database and random source answer (nothing else of the host matters), with nobody
  else at the store and a pool stored for the network: a request for an address whose offset lies
  outside that pool (the network address, an address of another network) panics in the goroutine that
  handles connections, after the port was created, and the daemon ends.
\<close>

theorem foreign_request_panics:
  assumes "alone (w_kv w)" and "w_ovsClient w" and "\<forall>ops s. fst (h_transact h ops s) \<noteq> None" and "\<forall>s. \<exists>r s'. h_rand h s = (Inr r, s')"
    and "value_at (cluster (w_kv w)) (key_path networkStore (cn_Network (w_heap w ! p))) = Some (Network_Marshal nw)"
    and "cn_Network (w_heap w ! p) \<noteq> []" and "nw_Subnet nw = net_String subnet" and "v4_subnet n subnet"
    and "value_at (cluster (w_kv w)) (ip_path (vni_str (nw_VNI nw)) subnet) = Some a"
    and "cn_RequestIp (w_heap w ! p) \<noteq> []" and "8 * length a \<le> unat (ip_slot (ParseIP (cn_RequestIp (w_heap w ! p))) subnet)"
  shows "fst (connHandler h render (Suc fuel) \<lparr>cc_Action = addConn, cc_Connection = p\<rparr> w) = Panic index_panic"
proof -
  let ?c = "w_heap w ! p" and ?s1 = "tick (cluster (w_kv w)) (w_kv w)"
  let ?w1 = "w\<lparr>w_kv := ?s1\<rparr>" and ?ip = "ParseIP (cn_RequestIp ?c)"
  have cidr: "ParseCIDR (nw_Subnet nw) = Some (ParseIP (v4_string (net_IP subnet)), subnet)"
    unfolding assms(7) by (rule ParseCIDR_net_String [OF assms(8)])
  have ans: "ovs_answers h" using assms(3) by (simp add: ovs_answers_def)
  have q: "quiet_for (Suc 0) ?s1" using assms(1) by (intro alone_quiet) (simp add: alone_def)
  obtain port os' where port: "createOvsInternalPort h render ''ovs'' bridgeName (nw_VNI nw) ?w1 = (Ret (port, None), ?w1\<lparr>w_os := os'\<rparr>)"
    by (rule createOvsInternalPort_answers [OF ans assms(4), of ?w1]) (use assms(2) in simp)
  have mu: "MarkUsed (Suc fuel) (vni_str (nw_VNI nw)) ?ip subnet ?s1 = (Panic index_panic, tick (cluster ?s1) ?s1)"
    by (rule foreign_slot_panics(2)) (use q assms(9,11) in auto)
  show ?thesis
    using GetNetwork_stored [OF assms(1,5)] assms(6,10) port cidr mu
    by (simp add: connHandler_def addConnection_def bridgeName_def gbind_def go_run choose_ip_def on_kv_def Let_def del: MarkUsed.simps)
qed

definition Connection0 :: Connection where
  "Connection0 = \<lparr>cn_ContainerID = [], cn_ContainerName = [], cn_ContainerPID = [], cn_RequestIp = [], cn_Network = [],
     cn_OvsPortID = [], cn_BandWidth = [], cn_Delay = [], cn_RXTotal = 0, cn_TXTotal = 0, cn_RXRate = 0, cn_TXRate = 0,
     cn_ConnectionDetail = OvsConnection0\<rparr>"

theorem foreign_request_panics_witness:
  "\<exists>w :: unit world. cn_RequestIp (w_heap w ! 0) = v4_string [192, 168, 7, 0] \<and>
    fst (connHandler host0 (\<lambda>_. []) 1 \<lparr>cc_Action = addConn, cc_Connection = 0\<rparr> w) = Panic index_panic"
proof -
  obtain w' where a: "addConnection host0 (\<lambda>_. []) (Suc 0) ''4711'' ''green'' [] world_green =
      (Ret (slot_connection green net24 ''ovs0000000'' 0, None), w')"
    by (rule addConnection_green [OF host0_answers refl attach_port_host0 refl world_green_simps(3)])
  obtain v where v: "value_at (cluster (w_kv w')) = (value_at (cluster (w_kv world_green)))(ip_path (vni_str (nw_VNI green)) net24 \<mapsto> v)"
      "length v = 32" "alone (w_kv w')" "own_state w' = own_state world_green"
    by (rule addConnection_store [OF world_green_simps(1,2) _ world_green_simps(4) green_subnet v4_subnet_net24 _ _ a])
       (auto simp: pool_green maxKVSize_def)
  define w where "w = w'\<lparr>w_heap := [Connection0\<lparr>cn_Network := ''green'', cn_RequestIp := v4_string [192, 168, 7, 0]\<rparr>]\<rparr>"
  have "ip_slot (ParseIP (v4_string [192, 168, 7, 0])) net24 = ip_slot (net_IP net24) net24"
    by (simp add: ParseIP_v4_string ip_slot_def net24_def)
  then have "unat (ip_slot (ParseIP (cn_RequestIp (w_heap w ! 0))) net24) = 2 ^ 32 - 1" by (simp add: w_def)
  moreover have "v4_string [192, 168, 7, 0] \<noteq> []" by (simp add: v4_string_def)
  ultimately have "fst (connHandler host0 (\<lambda>_. []) (Suc 0) \<lparr>cc_Action = addConn, cc_Connection = 0\<rparr> w) = Panic index_panic"
    using v own_stateD(1) [OF v(4)] world_green_simps
    by (intro foreign_request_panics [OF _ _ _ _ _ _ green_subnet v4_subnet_net24]) (auto simp: w_def host0_def)
  then show ?thesis by (intro exI [of _ w]) (simp add: w_def)
qed

end
