(* ===== verification/Qos.thy ===== *)
theory Qos
  imports ConnectionProps
begin

text \<open>
  Traffic control and counters of a container's port (\<^verbatim>\<open>addQos\<close>, \<^verbatim>\<open>changeQos\<close>, \<^verbatim>\<open>getInterfaceInfo\<close>
  in \<^verbatim>\<open>server/connection.go\<close>), and the network namespace of the thread that all the calls into a
  container change for a while.
\<close>

section \<open>Traffic control\<close>

definition installQos :: "'o host \<Rightarrow> string list \<Rightarrow> ('o world, string \<times> error) go" where
  "installQos h args =
     gbind (ask_os (h_LookPath h ''tc'')) (\<lambda>path. case path of
         None \<Rightarrow> gret ([], Some ''tc not found'')
       | Some p \<Rightarrow> gbind (on_os (h_exec h p args)) (\<lambda>(output, err). case err of
           Some e \<Rightarrow> gret ([], Some (''tc failed: tc '' @ join_sp args @ '': '' @ output @ '' ('' @ e @ '')''))
         | None \<Rightarrow> gret (output, None)))"

definition delay_args :: "string \<Rightarrow> string \<Rightarrow> string \<Rightarrow> string list" where
  "delay_args verb dev delay =
     [''qdisc'', verb, ''dev'', dev, ''root'', ''handle'', ''1:0'', ''netem'', ''delay'', delay @ ''ms'']"

definition bw_args :: "string \<Rightarrow> string \<Rightarrow> string \<Rightarrow> string list" where
  "bw_args verb dev bw =
     [''qdisc'', verb, ''dev'', dev, ''parent'', ''1:1'', ''handle'', ''10:'', ''tbf'', ''rate'', bw @ ''kbit'',
      ''buffer'', ''1600'', ''limit'', ''3000'']"

text \<open>One command, and the field that records what it installed.\<close>

definition install_delay :: "'o host \<Rightarrow> nat \<Rightarrow> string \<Rightarrow> string \<Rightarrow> ('o world, error) go" where
  "install_delay h p verb delay =
     gbind (ask (\<lambda>w. cn_OvsPortID (w_heap w ! p))) (\<lambda>dev.
     gbind (installQos h (delay_args verb dev delay)) (\<lambda>(_, err). case err of
         Some e \<Rightarrow> gret (Some e)
       | None \<Rightarrow> gbind (change (update_con p (\<lambda>con. con\<lparr>cn_Delay := delay\<rparr>))) (\<lambda>_. gret None)))"

definition install_bw :: "'o host \<Rightarrow> nat \<Rightarrow> string \<Rightarrow> string \<Rightarrow> ('o world, error) go" where
  "install_bw h p verb bw =
     gbind (ask (\<lambda>w. cn_OvsPortID (w_heap w ! p))) (\<lambda>dev.
     gbind (installQos h (bw_args verb dev bw)) (\<lambda>(_, err). case err of
         Some e \<Rightarrow> gret (Some e)
       | None \<Rightarrow> gbind (change (update_con p (\<lambda>con. con\<lparr>cn_BandWidth := bw\<rparr>))) (\<lambda>_. gret None)))"

text \<open>A body that runs in the namespace of the container.\<close>

definition in_container :: "'o host \<Rightarrow> nat \<Rightarrow> ('o world, error) go \<Rightarrow> ('o world, error) go" where
  "in_container h p body =
     gbind (ask (\<lambda>w. cn_ContainerPID (w_heap w ! p))) (\<lambda>pid. in_netns h pid Some (\<lambda>_. gret None) body)"

definition addQos :: "'o host \<Rightarrow> string \<Rightarrow> string \<Rightarrow> string \<Rightarrow> ('o world, error) go" where
  "addQos h containerId bw delay =
     gbind (ask (\<lambda>w. SafeMap_Get (d_connections (w_daemon w)) containerId)) (\<lambda>con. case con of
         None \<Rightarrow> gpanic conversion_panic
       | Some p \<Rightarrow> in_container h p
           (if_err (install_delay h p ''add'' (if delay \<noteq> [] then delay else ''0'')) Some
             (install_bw h p ''add'' (if bw \<noteq> [] then bw else ''8000000''))))"

text \<open>\<^verbatim>\<open>changeQos\<close> drops the failure of the type assertion: the nil pointer is used after \<^verbatim>\<open>netns.Get\<close>.\<close>

definition changeQos :: "'o host \<Rightarrow> string \<Rightarrow> string \<Rightarrow> string \<Rightarrow> ('o world, error) go" where
  "changeQos h containerId bw delay =
     gbind (ask (\<lambda>w. SafeMap_Get (d_connections (w_daemon w)) containerId)) (\<lambda>con. case con of
         None \<Rightarrow> gbind (on_os (h_netns_Get h)) (\<lambda>r. case r of
             Inl e \<Rightarrow> gret (Some e) | Inr origns \<Rightarrow> gdefer (gpanic nil_panic) (h_netns_Close h origns))
       | Some p \<Rightarrow> in_container h p
           (if_err (if delay \<noteq> [] then install_delay h p ''change'' delay else gret None) Some
             (if bw \<noteq> [] then install_bw h p ''change'' bw else gret None)))"

section \<open>Counters\<close>

text \<open>One turn of the monitor; \<^term>\<open>False\<close> ends it.\<close>

definition getInterfaceInfo :: "'o host \<Rightarrow> nat \<Rightarrow> real \<Rightarrow> ('o world, bool) go" where
  "getInterfaceInfo h p interval =
     gbind (ask (\<lambda>w. w_heap w ! p)) (\<lambda>con.
     gbind (ask_os (h_ReadFile h (''/hostproc/'' @ cn_ContainerPID con @ ''/net/dev''))) (\<lambda>data. case data of
         Inl _ \<Rightarrow> gret False
       | Inr ss \<Rightarrow> gbind (gcheck slice_panic (from_index (cn_OvsPortID con) ss)) (\<lambda>line.
           let aa = Fields line in
           if length aa \<le> 9 then gpanic index_panic
           else let rx = ParseUint_value (aa ! 1) div 1024; tx = ParseUint_value (aa ! 9) div 1024 in
             gbind (ask (\<lambda>w. SafeMap_Check (d_connections (w_daemon w)) (cn_ContainerID con))) (\<lambda>ok.
               if \<not> ok then gret False
               else gbind (change (update_con p (\<lambda>c. c\<lparr>cn_RXTotal := rx, cn_TXTotal := tx,
                        cn_RXRate := float64_of (rx - cn_RXTotal c) * 8 / interval,
                        cn_TXRate := float64_of (tx - cn_TXTotal c) * 8 / interval\<rparr>))) (\<lambda>_. gret True)))))"

section \<open>The namespace of the thread\<close>

text \<open>
  What can be seen of the thread: the network namespace it is in, its open namespace handles with the
  namespace each refers to, and how many calls of \<^verbatim>\<open>netns.Set\<close> have failed so far.
\<close>

record thread =
  th_ns :: int
  th_fds :: "int \<Rightarrow> int option"
  th_refused :: nat

text \<open>
  What the kernel promises of these. \<^verbatim>\<open>netns.Get\<close> and \<^verbatim>\<open>netns.GetFromName\<close> open a fresh handle, the first one of the
  current namespace; \<^verbatim>\<open>netns.Set\<close> enters the namespace of an open handle, or fails, for whatever reason, and the
  thread stays where it is; \<^verbatim>\<open>Close\<close> gives the handle up. No other call concerns them: the
  database, the random source, symbolic links, commands and the settings of a link.
\<close>

definition netns_laws :: "'o host \<Rightarrow> ('o \<Rightarrow> thread) \<Rightarrow> bool" where
  "netns_laws h th \<longleftrightarrow>
     (\<forall>s. case h_netns_Get h s of
         (Inr n, t) \<Rightarrow> th_fds (th s) n = None \<and> th t = (th s)\<lparr>th_fds := (th_fds (th s))(n \<mapsto> th_ns (th s))\<rparr>
       | (Inl _, t) \<Rightarrow> th t = th s) \<and>
     (\<forall>name s. case h_netns_GetFromName h name s of
         (Inr n, t) \<Rightarrow> th_fds (th s) n = None \<and> (\<exists>k. th t = (th s)\<lparr>th_fds := (th_fds (th s))(n \<mapsto> k)\<rparr>)
       | (Inl _, t) \<Rightarrow> th t = th s) \<and>
     (\<forall>n s. case h_netns_Set h n s of
         (None, t) \<Rightarrow> (\<exists>k. th_fds (th s) n = Some k \<and> th t = (th s)\<lparr>th_ns := k\<rparr>)
       | (Some _, t) \<Rightarrow> th t = (th s)\<lparr>th_refused := Suc (th_refused (th s))\<rparr>) \<and>
     (\<forall>n s. th (snd (h_netns_Close h n s)) = (th s)\<lparr>th_fds := (th_fds (th s))(n := None)\<rparr>) \<and>
     (\<forall>ops s. th (snd (h_transact h ops s)) = th s) \<and> (\<forall>s. th (snd (h_rand h s)) = th s) \<and>
     (\<forall>a b s. th (snd (h_Symlink h a b s)) = th s) \<and> (\<forall>p as s. th (snd (h_exec h p as s)) = th s) \<and>
     (\<forall>l n s. th (snd (LinkSetNsFd (h_netlink h) l n s)) = th s) \<and> (\<forall>l m s. th (snd (LinkSetMTU (h_netlink h) l m s)) = th s) \<and>
     (\<forall>l a s. th (snd (AddrAdd (h_netlink h) l a s)) = th s) \<and> (\<forall>l a s. th (snd (LinkSetHardwareAddr (h_netlink h) l a s)) = th s) \<and>
     (\<forall>l s. th (snd (LinkSetUp (h_netlink h) l s)) = th s) \<and> (\<forall>r s. th (snd (RouteAdd (h_netlink h) r s)) = th s)"

lemma netns_lawsD:
  assumes "netns_laws h th"
  shows "h_netns_Get h s = (Inr n, t) \<Longrightarrow> th_fds (th s) n = None \<and> th t = (th s)\<lparr>th_fds := (th_fds (th s))(n \<mapsto> th_ns (th s))\<rparr>"
    "h_netns_Get h s = (Inl e, t) \<Longrightarrow> th t = th s"
    "h_netns_GetFromName h name s = (Inr n, t) \<Longrightarrow> th_fds (th s) n = None \<and> (\<exists>k. th t = (th s)\<lparr>th_fds := (th_fds (th s))(n \<mapsto> k)\<rparr>)"
    "h_netns_GetFromName h name s = (Inl e, t) \<Longrightarrow> th t = th s"
    "h_netns_Set h n s = (None, t) \<Longrightarrow> \<exists>k. th_fds (th s) n = Some k \<and> th t = (th s)\<lparr>th_ns := k\<rparr>"
    "h_netns_Set h n s = (Some e, t) \<Longrightarrow> th t = (th s)\<lparr>th_refused := Suc (th_refused (th s))\<rparr>"
    "th (snd (h_netns_Close h n s)) = (th s)\<lparr>th_fds := (th_fds (th s))(n := None)\<rparr>"
proof -
  note L = assms [unfolded netns_laws_def]
  note get = L [THEN conjunct1, THEN spec, of s] and from_name = spec [OF spec [OF L [THEN conjunct2, THEN conjunct1], of name], of s]
    and set = spec [OF spec [OF L [THEN conjunct2, THEN conjunct2, THEN conjunct1], of n], of s]
    and close = spec [OF spec [OF L [THEN conjunct2, THEN conjunct2, THEN conjunct2, THEN conjunct1], of n], of s]
  show "h_netns_Get h s = (Inr n, t) \<Longrightarrow> th_fds (th s) n = None \<and> th t = (th s)\<lparr>th_fds := (th_fds (th s))(n \<mapsto> th_ns (th s))\<rparr>"
    "h_netns_Get h s = (Inl e, t) \<Longrightarrow> th t = th s" using get by simp_all
  show "h_netns_GetFromName h name s = (Inr n, t) \<Longrightarrow> th_fds (th s) n = None \<and> (\<exists>k. th t = (th s)\<lparr>th_fds := (th_fds (th s))(n \<mapsto> k)\<rparr>)"
    "h_netns_GetFromName h name s = (Inl e, t) \<Longrightarrow> th t = th s" using from_name by simp_all
  show "h_netns_Set h n s = (None, t) \<Longrightarrow> \<exists>k. th_fds (th s) n = Some k \<and> th t = (th s)\<lparr>th_ns := k\<rparr>"
    "h_netns_Set h n s = (Some e, t) \<Longrightarrow> th t = (th s)\<lparr>th_refused := Suc (th_refused (th s))\<rparr>" using set by simp_all
  show "th (snd (h_netns_Close h n s)) = (th s)\<lparr>th_fds := (th_fds (th s))(n := None)\<rparr>" by (rule close)
qed

text \<open>
  The thread is back: it has the handles it had, and it is in the namespace in which it was unless a
  call of \<^verbatim>\<open>netns.Set\<close> failed meanwhile.
\<close>

definition came_back :: "thread \<Rightarrow> thread \<Rightarrow> bool" where
  "came_back x y \<longleftrightarrow> th_fds y = th_fds x \<and> th_refused x \<le> th_refused y \<and> (th_refused y = th_refused x \<longrightarrow> th_ns y = th_ns x)"

lemma back_refl [simp]: "came_back x x"
  by (simp add: came_back_def)

lemma back_trans: "came_back x y \<Longrightarrow> came_back y z \<Longrightarrow> came_back x z"
  by (auto simp: came_back_def)

text \<open>Calls that do not concern the thread, as an invariant of the world.\<close>

lemma th_on_os: "(\<And>s. th (snd (f s)) = th s) \<Longrightarrow> keeps (\<lambda>w. P (th (w_os w))) (on_os f)"
  by (auto simp: keeps_def on_os_def split: prod.splits) (metis snd_conv)

lemma th_with_link: "(\<And>l s. th (snd (f l s)) = th s) \<Longrightarrow> th (snd (with_link nl name f s)) = th s"
  by (simp add: with_link_def split: sum.split)

lemma th_on_kv [keeps_intro]: "keeps (\<lambda>w. P (th (w_os w))) (on_kv m)"
  by (auto simp: keeps_def on_kv_def split: prod.splits)

lemma th_change [keeps_intro]: "(\<And>w. w_os (f w) = w_os w) \<Longrightarrow> keeps (\<lambda>w. P (th (w_os w))) (change f)"
  by (simp add: keeps_def change_def)

lemma th_calls:
  assumes "netns_laws h th"
  shows "keeps (\<lambda>w. P (th (w_os w))) (on_os (SetInterfaceInNamespaceFd (h_netlink h) i fd))"
    "keeps (\<lambda>w. P (th (w_os w))) (on_os (h_Symlink h a b))" "keeps (\<lambda>w. P (th (w_os w))) (on_os (h_rand h))"
    "keeps (\<lambda>w. P (th (w_os w))) (on_os (h_transact h ops))" "keeps (\<lambda>w. P (th (w_os w))) (on_os (h_exec h c as))"
    "keeps (\<lambda>w. P (th (w_os w))) (on_os (SetMtu (h_netlink h) i m))" "keeps (\<lambda>w. P (th (w_os w))) (on_os (InterfaceUp (h_netlink h) i))"
  unfolding SetInterfaceInNamespaceFd_def SetMtu_def InterfaceUp_def
  by (intro th_on_os th_with_link; use assms in \<open>simp add: netns_laws_def\<close>)+

lemma th_link_calls:
  assumes "netns_laws h th"
  shows "keeps (\<lambda>w. P (th (w_os w))) (on_os (SetInterfaceIp (h_netlink h) i t))"
    "keeps (\<lambda>w. P (th (w_os w))) (on_os (SetInterfaceMac (h_netlink h) i t))"
    "keeps (\<lambda>w. P (th (w_os w))) (on_os (SetDefaultGateway (h_netlink h) t i))"
proof -
  have "th (snd (AddrAdd (h_netlink h) l a s)) = th s" "th (snd (LinkSetHardwareAddr (h_netlink h) l m s)) = th s"
      "th (snd (RouteAdd (h_netlink h) r s)) = th s" for l a m r s
    using assms by (simp_all add: netns_laws_def)
  then have "th (snd (SetInterfaceIp (h_netlink h) i t s)) = th s" "th (snd (SetInterfaceMac (h_netlink h) i t s)) = th s"
      "th (snd (SetDefaultGateway (h_netlink h) t i s)) = th s" for s
    by (auto simp: SetInterfaceIp_def SetInterfaceMac_def SetDefaultGateway_def with_link_def Let_def split: option.splits sum.splits)
  then show "keeps (\<lambda>w. P (th (w_os w))) (on_os (SetInterfaceIp (h_netlink h) i t))"
      "keeps (\<lambda>w. P (th (w_os w))) (on_os (SetInterfaceMac (h_netlink h) i t))"
      "keeps (\<lambda>w. P (th (w_os w))) (on_os (SetDefaultGateway (h_netlink h) t i))"
    by (simp_all add: th_on_os)
qed

lemma th_port:
  assumes "netns_laws h th"
  shows "keeps (\<lambda>w. P (th (w_os w))) (createOvsInternalPort h render pre b t)" "keeps (\<lambda>w. P (th (w_os w))) (configure_port h c)"
  unfolding createOvsInternalPort_def GenerateRandomName_def AddInternalPort_def Transact_def configure_port_def Let_def
  by (intro keeps_intro th_calls [OF assms] th_link_calls [OF assms])+

lemma th_store: "keeps (\<lambda>w. P (th (w_os w))) (GetNetwork name)" "keeps (\<lambda>w. P (th (w_os w))) (choose_ip fuel v r s)"
  unfolding GetNetwork_def choose_ip_def by (intro keeps_intro)+

lemma th_install:
  assumes "netns_laws h th"
  shows "keeps (\<lambda>w. P (th (w_os w))) (install_delay h p verb d)" "keeps (\<lambda>w. P (th (w_os w))) (install_bw h p verb b)"
  unfolding install_delay_def install_bw_def installQos_def by (intro keeps_intro th_calls [OF assms]; simp add: update_con_def)+

lemma th_same:
  assumes "\<And>P. keeps (\<lambda>w. P (th (w_os w))) m" and "m w = (r, w')"
  shows "th (w_os w') = th (w_os w)"
  by (rule keepsD [OF assms(1) [of "\<lambda>x. x = th (w_os w)"] refl assms(2)])

text \<open>The visit to the other namespace, from a thread whose handle \<open>origns\<close> is that of its own one.\<close>

lemma visit_back:
  assumes "netns_laws h th" and "\<And>P n. keeps (\<lambda>w. P (th (w_os w))) (before n)" and "\<And>P. keeps (\<lambda>w. P (th (w_os w))) body"
    and "th_fds (th (w_os w)) origns = Some (th_ns (th (w_os w)))"
  shows "came_back (th (w_os w)) (th (w_os (snd (if_err (before targetns) fail
    (if_err (on_os (h_netns_Set h targetns)) fail (gdefer body (h_netns_Set h origns))) w))))"
proof -
  obtain r w1 where b: "before targetns w = (r, w1)" by fastforce
  have t1: "th (w_os w1) = th (w_os w)" by (rule th_same [where th = th, OF assms(2) b])
  obtain e s2 where e: "h_netns_Set h targetns (w_os w1) = (e, s2)" by fastforce
  obtain q w3 where q: "body (w1\<lparr>w_os := s2\<rparr>) = (q, w3)" by fastforce
  have t3: "th (w_os w3) = th s2" using th_same [where th = th, OF assms(3) q] by simp
  obtain e' s4 where e': "h_netns_Set h origns (w_os w3) = (e', s4)" by fastforce
  have "came_back (th (w_os w)) (th s4)" if none: "e = None"
  proof -
    obtain k where k: "th s2 = (th (w_os w))\<lparr>th_ns := k\<rparr>" using netns_lawsD(5) [OF assms(1)] e none t1 by metis
    show ?thesis
    proof (cases e')
      case None
      then have "th s4 = (th (w_os w))\<lparr>th_ns := th_ns (th (w_os w))\<rparr>"
        using netns_lawsD(5) [OF assms(1)] e' t3 k assms(4) by fastforce
      then show ?thesis by simp
    next
      case (Some x)
      then have "th_fds (th s4) = th_fds (th (w_os w))" "th_refused (th s4) = Suc (th_refused (th (w_os w)))"
        using netns_lawsD(6) [OF assms(1)] e' t3 k by fastforce+
      then show ?thesis by (simp add: came_back_def)
    qed
  qed
  moreover have "came_back (th (w_os w)) (th s2)" if "e = Some x" for x
    using netns_lawsD(6) [OF assms(1)] e that t1 by (fastforce simp: came_back_def)
  ultimately show ?thesis
    using b t1 e q e' by (cases r; cases e) (auto simp: if_err_def gbind_def on_os_def gret_def gdefer_def split: option.splits)
qed

lemma close_back:
  assumes "netns_laws h th" and "th_fds x n = None" and "came_back (x\<lparr>th_fds := (th_fds x)(n \<mapsto> k)\<rparr>) (th (w_os (snd (m w))))"
  shows "came_back x (th (w_os (snd (gdefer m (h_netns_Close h n) w))))"
  using assms netns_lawsD(7) [OF assms(1)] by (auto simp: came_back_def gdefer_def fun_upd_idem split: prod.splits)

lemma in_netns_back:
  assumes "netns_laws h th" and "\<And>P n. keeps (\<lambda>w. P (th (w_os w))) (before n)" and "\<And>P. keeps (\<lambda>w. P (th (w_os w))) body"
  shows "came_back (th (w_os w)) (th (w_os (snd (in_netns h name fail before body w))))"
proof (cases "h_netns_Get h (w_os w)")
  case (Pair r s1)
  show ?thesis
  proof (cases r)
    case (Inl e)
    then show ?thesis using Pair netns_lawsD(2) [OF assms(1)] by (simp add: in_netns_def gbind_def on_os_def gret_def)
  next
    case (Inr origns)
    let ?x = "th (w_os w)" and ?visit = "\<lambda>targetns. if_err (before targetns) fail
      (if_err (on_os (h_netns_Set h targetns)) fail (gdefer body (h_netns_Set h origns)))"
    let ?inner = "gbind (on_os (h_netns_GetFromName h name)) (\<lambda>r. case r of Inl e \<Rightarrow> gret (fail e)
      | Inr targetns \<Rightarrow> gdefer (?visit targetns) (h_netns_Close h targetns))"
    have o: "th_fds ?x origns = None" "th s1 = ?x\<lparr>th_fds := (th_fds ?x)(origns \<mapsto> th_ns ?x)\<rparr>"
      using netns_lawsD(1) [OF assms(1)] Pair Inr by blast+
    have "came_back (th s1) (th (w_os (snd (?inner (w\<lparr>w_os := s1\<rparr>)))))"
    proof (cases "h_netns_GetFromName h name s1")
      case (Pair r2 s2)
      show ?thesis
      proof (cases r2)
        case (Inl e)
        then show ?thesis using Pair netns_lawsD(4) [OF assms(1)] by (simp add: gbind_def on_os_def gret_def)
      next
        case (Inr targetns)
        obtain k where t: "th_fds (th s1) targetns = None" "th s2 = (th s1)\<lparr>th_fds := (th_fds (th s1))(targetns \<mapsto> k)\<rparr>"
          using netns_lawsD(3) [OF assms(1)] Pair Inr by blast
        then have "th_fds (th s2) origns = Some (th_ns (th s2))" using o(2) by auto
        from visit_back [OF assms, where w = "w\<lparr>w_os := s2\<rparr>" and origns = origns and targetns = targetns and fail = fail] this
        have "came_back (th s2) (th (w_os (snd (?visit targetns (w\<lparr>w_os := s2\<rparr>)))))" by simp
        from close_back [OF assms(1) t(1), where m = "?visit targetns" and w = "w\<lparr>w_os := s2\<rparr>", OF this [unfolded t(2)]] show ?thesis
          using Pair Inr by (simp add: gbind_def on_os_def)
      qed
    qed
    from close_back [OF assms(1) o(1), where m = ?inner and w = "w\<lparr>w_os := s1\<rparr>", OF this [unfolded o(2)]] show ?thesis
      using Pair Inr by (simp add: in_netns_def gbind_def on_os_def)
  qed
qed

lemma back_in_netns:
  assumes "netns_laws h th" and "\<And>P n. keeps (\<lambda>w. P (th (w_os w))) (before n)" and "\<And>P. keeps (\<lambda>w. P (th (w_os w))) body"
  shows "keeps (\<lambda>w. came_back x (th (w_os w))) (in_netns h name fail before body)"
  by (rule keepsI) (rule back_trans, assumption, rule in_netns_back, (rule assms)+)

text \<open>The nil pointer in \<^verbatim>\<open>changeQos\<close>: the handle that was opened is closed while the panic unwinds.\<close>

lemma nil_back:
  fixes h :: "'o host"
  assumes "netns_laws h th"
  shows "keeps (\<lambda>w. came_back x (th (w_os w))) (gbind (on_os (h_netns_Get h)) (\<lambda>r. case r of
    Inl e \<Rightarrow> gret (Some e) | Inr origns \<Rightarrow> gdefer (gpanic nil_panic) (h_netns_Close h origns)))"
proof (rule keepsI)
  fix w :: "'o world"
  assume w: "came_back x (th (w_os w))"
  obtain r s1 where g: "h_netns_Get h (w_os w) = (r, s1)" by fastforce
  show "came_back x (th (w_os (snd (gbind (on_os (h_netns_Get h)) (\<lambda>r. case r of
    Inl e \<Rightarrow> gret (Some e) | Inr origns \<Rightarrow> gdefer (gpanic nil_panic) (h_netns_Close h origns)) w))))"
  proof (cases r)
    case (Inl e)
    then show ?thesis using w g netns_lawsD(2) [OF assms] by (simp add: gbind_def on_os_def gret_def)
  next
    case (Inr n)
    then have "th_fds (th (w_os w)) n = None" "th s1 = (th (w_os w))\<lparr>th_fds := (th_fds (th (w_os w)))(n \<mapsto> th_ns (th (w_os w)))\<rparr>"
      using netns_lawsD(1) [OF assms] g by blast+
    then show ?thesis using w g Inr netns_lawsD(7) [OF assms]
      by (simp add: gbind_def on_os_def gdefer_def gpanic_def came_back_def fun_upd_idem)
  qed
qed

text \<open>
  C7. On success, error and panic alike, adding a connection, adding traffic control and changing it leave
  the thread with the namespace handles it had before, and in the network namespace in which they
  found it, unless a call of \<^verbatim>\<open>netns.Set\<close> failed during the call. (The error of the deferred call that goes back
  is ignored: then the thread stays in the namespace of the container.)
\<close>

theorem namespace_restored:
  assumes "netns_laws h th"
  shows "came_back (th (w_os w)) (th (w_os (snd (addConnection h render fuel pid name ip w)))) \<and>
    came_back (th (w_os w)) (th (w_os (snd (addQos h containerId bw delay w)))) \<and>
    came_back (th (w_os w)) (th (w_os (snd (changeQos h containerId bw delay w))))"
proof -
  have a: "keeps (\<lambda>w. came_back x (th (w_os w))) (addConnection h render fuel pid name ip)" for x
    unfolding addConnection_def attach_port_def Let_def
    by (intro keeps_intro th_store th_port(1) [OF assms] th_calls(2) [OF assms] back_in_netns [OF assms] th_calls(1) [OF assms] th_port(2) [OF assms])
  have b: "keeps (\<lambda>w. came_back x (th (w_os w))) (addQos h containerId bw delay)" for x
    unfolding addQos_def in_container_def by (intro keeps_intro back_in_netns [OF assms] th_install [OF assms])
  have c: "keeps (\<lambda>w. came_back x (th (w_os w))) (changeQos h containerId bw delay)" for x
    unfolding changeQos_def in_container_def by (intro keeps_intro back_in_netns [OF assms] th_install [OF assms] nil_back [OF assms])
  show ?thesis using a b c by (simp add: keeps_def)
qed

text \<open>
  A host with two namespaces, 1 of the node and 2 of the container: its state is the thread and the
  commands it was given, with the namespace each of them ran in.
\<close>

record ns_state =
  ns_thread :: thread
  ns_log :: "(int \<times> string list) list"

definition fresh_fd :: "(int \<Rightarrow> int option) \<Rightarrow> int" where
  "fresh_fd fds = (if fds 3 = None then 3 else if fds 4 = None then 4 else 5)"

definition open_fd :: "int \<Rightarrow> ns_state \<Rightarrow> (string + int) \<times> ns_state" where
  "open_fd k s = (let x = ns_thread s; n = fresh_fd (th_fds x) in
     if th_fds x n = None then (Inr n, s\<lparr>ns_thread := x\<lparr>th_fds := (th_fds x)(n \<mapsto> k)\<rparr>\<rparr>) else (Inl ''too many open files'', s))"

definition host_ns :: "ns_state host" where
  "host_ns = host_base
     \<lparr>h_exec := (\<lambda>_ args s. (([], None), s\<lparr>ns_log := ns_log s @ [(th_ns (ns_thread s), args)]\<rparr>)),
      h_netns_Get := (\<lambda>s. open_fd (th_ns (ns_thread s)) s), h_netns_GetFromName := (\<lambda>_. open_fd 2),
      h_netns_Set := (\<lambda>n s. let x = ns_thread s in case th_fds x n of
          Some k \<Rightarrow> (None, s\<lparr>ns_thread := x\<lparr>th_ns := k\<rparr>\<rparr>)
        | None \<Rightarrow> (Some ''bad file descriptor'', s\<lparr>ns_thread := x\<lparr>th_refused := Suc (th_refused x)\<rparr>\<rparr>)),
      h_netns_Close := (\<lambda>n s. let x = ns_thread s in (None, s\<lparr>ns_thread := x\<lparr>th_fds := (th_fds x)(n := None)\<rparr>\<rparr>))\<rparr>"

definition world_ns :: "ns_state world" where
  "world_ns = \<lparr>w_kv = idle, w_os = \<lparr>ns_thread = \<lparr>th_ns = 1, th_fds = \<lambda>_. None, th_refused = 0\<rparr>, ns_log = []\<rparr>,
     w_ovsClient = True, w_cache = [], w_ContextCache = [],
     w_heap = [Connection0\<lparr>cn_ContainerID := ''c1'', cn_ContainerPID := ''4711'', cn_OvsPortID := ''ovs0000000''\<rparr>],
     w_daemon = daemon0\<lparr>d_connections := [(''c1'', 0)]\<rparr>, w_watch = watch_init, w_monitors = []\<rparr>"

lemma netns_laws_host_ns: "netns_laws host_ns ns_thread"
  by (auto simp: netns_laws_def host_ns_def host_base_def nl_base_def open_fd_def Let_def split: option.split)

lemma addQos_world_ns:
  "fst (addQos host_ns ''c1'' ''100'' [] world_ns) = Ret None"
  "map fst (ns_log (w_os (snd (addQos host_ns ''c1'' ''100'' [] world_ns)))) = [2, 2]"
  "th_refused (ns_thread (w_os (snd (addQos host_ns ''c1'' ''100'' [] world_ns)))) = 0"
  by (simp_all add: addQos_def world_ns_def gbind_def go_run in_container_def in_netns_def if_err_def install_delay_def install_bw_def
        installQos_def gdefer_def host_ns_def host_base_def on_os_def gret_def update_con_def open_fd_def fresh_fd_def Let_def)

theorem namespace_restored_witness:
  "fst (addQos host_ns ''c1'' ''100'' [] world_ns) = Ret None \<and>
   map fst (ns_log (w_os (snd (addQos host_ns ''c1'' ''100'' [] world_ns)))) = [2, 2] \<and>
   ns_thread (w_os (snd (addQos host_ns ''c1'' ''100'' [] world_ns))) = ns_thread (w_os world_ns)"
proof -
  let ?x = "ns_thread (w_os world_ns)" and ?y = "ns_thread (w_os (snd (addQos host_ns ''c1'' ''100'' [] world_ns)))"
  have "came_back ?x ?y" using namespace_restored [OF netns_laws_host_ns] by blast
  moreover have "th_refused ?y = th_refused ?x" using addQos_world_ns(3) by (simp add: world_ns_def)
  ultimately have "?y = ?x" by (simp add: came_back_def)
  with addQos_world_ns(1,2) show ?thesis by blast
qed

section \<open>What is recorded of traffic control\<close>

text \<open>An observer of the commands that were run: every command is noted, and the namespace calls run none.\<close>

definition exec_log :: "'o host \<Rightarrow> ('o \<Rightarrow> string list list) \<Rightarrow> bool" where
  "exec_log h cmds \<longleftrightarrow> (\<forall>p args s. cmds (snd (h_exec h p args s)) = cmds s @ [args]) \<and>
     (\<forall>s. cmds (snd (h_netns_Get h s)) = cmds s) \<and> (\<forall>name s. cmds (snd (h_netns_GetFromName h name s)) = cmds s) \<and>
     (\<forall>n s. cmds (snd (h_netns_Set h n s)) = cmds s) \<and> (\<forall>n s. cmds (snd (h_netns_Close h n s)) = cmds s)"

lemma installQos_log:
  assumes "exec_log h cmds" and "installQos h args w = (Ret (out, None), w')"
  shows "own_state w' = own_state w \<and> cmds (w_os w') = cmds (w_os w) @ [args]"
proof -
  obtain c where c: "h_LookPath h ''tc'' (w_os w) = Some c"
    using assms(2) by (auto simp: installQos_def gbind_def go_run gret_def split: option.splits)
  then have "w' = w\<lparr>w_os := snd (h_exec h c args (w_os w))\<rparr>"
    using assms(2) by (auto simp: installQos_def gbind_def go_run gret_def on_os_def split: option.splits prod.splits)
  then show ?thesis using assms(1) by (simp add: exec_log_def own_state_def)
qed

lemma install_one:
  assumes "exec_log h cmds" and "gbind (ask f) (\<lambda>dev. gbind (installQos h (args dev)) (\<lambda>(_, err). case err of
      Some e \<Rightarrow> gret (Some e) | None \<Rightarrow> gbind (change (update_con p g)) (\<lambda>_. gret None))) w = (Ret None, w')"
  shows "w_heap w' = (w_heap w)[p := g (w_heap w ! p)] \<and> cmds (w_os w') = cmds (w_os w) @ [args (f w)]"
proof -
  obtain out err w1 where i: "installQos h (args (f w)) w = (Ret (out, err), w1)"
    and r: "(case err of Some e \<Rightarrow> gret (Some e) | None \<Rightarrow> gbind (change (update_con p g)) (\<lambda>_. gret None)) w1 = (Ret None, w')"
    using assms(2) by (auto elim!: gbind_RetE simp: ask_def)
  from r have e: "err = None" "w' = update_con p g w1" by (cases err; auto simp: gbind_def go_run gret_def)+
  have "own_state w1 = own_state w" "cmds (w_os w1) = cmds (w_os w) @ [args (f w)]"
    using installQos_log [OF assms(1)] i e(1) by blast+
  then show ?thesis using own_stateD(3) [of w1 w] by (simp add: e(2) update_con_def)
qed

lemma install_effect:
  assumes "exec_log h cmds"
  shows "install_delay h p verb delay w = (Ret None, w') \<Longrightarrow>
      w_heap w' = (w_heap w)[p := (w_heap w ! p)\<lparr>cn_Delay := delay\<rparr>] \<and>
      cmds (w_os w') = cmds (w_os w) @ [delay_args verb (cn_OvsPortID (w_heap w ! p)) delay]"
    "install_bw h p verb bw w = (Ret None, w') \<Longrightarrow>
      w_heap w' = (w_heap w)[p := (w_heap w ! p)\<lparr>cn_BandWidth := bw\<rparr>] \<and>
      cmds (w_os w') = cmds (w_os w) @ [bw_args verb (cn_OvsPortID (w_heap w ! p)) bw]"
  unfolding install_delay_def install_bw_def by (erule install_one [OF assms])+

lemma own_state_os [simp]: "own_state (w\<lparr>w_os := x\<rparr>) = own_state w"
  by (simp add: own_state_def)

lemma in_container_None:
  assumes "exec_log h cmds" and "in_container h p body w = (Ret None, w')"
  obtains w1 w2 where "w_heap w1 = w_heap w" "cmds (w_os w1) = cmds (w_os w)" "body w1 = (Ret None, w2)"
    "w_heap w' = w_heap w2" "cmds (w_os w') = cmds (w_os w2)"
proof -
  obtain n s1 where g: "h_netns_Get h (w_os w) = (Inr n, s1)"
    using assms(2) by (cases "h_netns_Get h (w_os w)"; cases "fst (h_netns_Get h (w_os w))")
      (auto simp: in_container_def in_netns_def gbind_def go_run on_os_def gret_def)
  obtain m s2 where f: "h_netns_GetFromName h (cn_ContainerPID (w_heap w ! p)) s1 = (Inr m, s2)"
    using assms(2) g by (cases "h_netns_GetFromName h (cn_ContainerPID (w_heap w ! p)) s1"; cases "fst (h_netns_GetFromName h (cn_ContainerPID (w_heap w ! p)) s1)")
      (auto simp: in_container_def in_netns_def gbind_def go_run on_os_def gret_def gdefer_def)
  obtain s3 where t: "h_netns_Set h m s2 = (None, s3)"
    using assms(2) g f by (cases "h_netns_Set h m s2"; cases "fst (h_netns_Set h m s2)")
      (auto simp: in_container_def in_netns_def gbind_def go_run on_os_def gret_def gdefer_def if_err_def)
  obtain r w2 where b: "body (w\<lparr>w_os := s3\<rparr>) = (r, w2)" by fastforce
  have "r = Ret None" "w' = w2\<lparr>w_os := snd (h_netns_Close h n (snd (h_netns_Close h m (snd (h_netns_Set h n (w_os w2))))))\<rparr>"
    using assms(2) g f t b by (auto simp: in_container_def in_netns_def gbind_def go_run on_os_def gret_def gdefer_def if_err_def)
  moreover have "cmds s1 = cmds (w_os w)" "cmds s2 = cmds s1" "cmds s3 = cmds s2"
    using assms(1) g f t unfolding exec_log_def by (metis snd_conv)+
  ultimately show ?thesis using that [of "w\<lparr>w_os := s3\<rparr>" w2] b assms(1) by (simp add: exec_log_def)
qed

lemma addQos_container:
  "map_of (d_connections (w_daemon w)) containerId = Some p \<Longrightarrow> addQos h containerId bw delay w =
    in_container h p (if_err (install_delay h p ''add'' (if delay \<noteq> [] then delay else ''0'')) Some
      (install_bw h p ''add'' (if bw \<noteq> [] then bw else ''8000000''))) w"
  "map_of (d_connections (w_daemon w)) containerId = Some p \<Longrightarrow> changeQos h containerId bw delay w =
    in_container h p (if_err (if delay \<noteq> [] then install_delay h p ''change'' delay else gret None) Some
      (if bw \<noteq> [] then install_bw h p ''change'' bw else gret None)) w"
  by (simp_all add: addQos_def changeQos_def gbind_def go_run)

text \<open>
  C32. When traffic control is reported as added, exactly two commands have run, \<^verbatim>\<open>tc qdisc add\<close> for the delay
  and for the rate of the container's port, with the given values and the defaults 0 ms and
  8000000 kbit for an empty parameter; the connection records these values, and nothing else of any
  connection has changed. A reported change has run \<^verbatim>\<open>tc qdisc change\<close> with exactly the parameters that
  were given, and records them.
\<close>

theorem qos_recorded:
  assumes "map_of (d_connections (w_daemon w)) containerId = Some p" and "p < length (w_heap w)" and "exec_log h cmds"
  shows "(\<forall>w'. addQos h containerId bw delay w = (Ret None, w') \<longrightarrow>
      (let d = if delay \<noteq> [] then delay else ''0''; b = if bw \<noteq> [] then bw else ''8000000''; port = cn_OvsPortID (w_heap w ! p)
       in w_heap w' = (w_heap w)[p := (w_heap w ! p)\<lparr>cn_Delay := d, cn_BandWidth := b\<rparr>] \<and>
         cmds (w_os w') = cmds (w_os w) @
          [[''qdisc'', ''add'', ''dev'', port, ''root'', ''handle'', ''1:0'', ''netem'', ''delay'', d @ ''ms''],
           [''qdisc'', ''add'', ''dev'', port, ''parent'', ''1:1'', ''handle'', ''10:'', ''tbf'', ''rate'', b @ ''kbit'',
            ''buffer'', ''1600'', ''limit'', ''3000'']])) \<and>
    (\<forall>w'. changeQos h containerId bw delay w = (Ret None, w') \<longrightarrow>
      (let port = cn_OvsPortID (w_heap w ! p)
       in w_heap w' = (w_heap w)[p := (w_heap w ! p)
          \<lparr>cn_Delay := if delay \<noteq> [] then delay else cn_Delay (w_heap w ! p),
           cn_BandWidth := if bw \<noteq> [] then bw else cn_BandWidth (w_heap w ! p)\<rparr>] \<and>
         cmds (w_os w') = cmds (w_os w) @
          (if delay \<noteq> [] then [[''qdisc'', ''change'', ''dev'', port, ''root'', ''handle'', ''1:0'', ''netem'', ''delay'', delay @ ''ms'']] else []) @
          (if bw \<noteq> [] then [[''qdisc'', ''change'', ''dev'', port, ''parent'', ''1:1'', ''handle'', ''10:'', ''tbf'', ''rate'', bw @ ''kbit'',
            ''buffer'', ''1600'', ''limit'', ''3000'']] else [])))"
proof (intro conjI allI impI)
  fix w' assume "addQos h containerId bw delay w = (Ret None, w')"
  from in_container_None [OF assms(3) this [unfolded addQos_container(1) [OF assms(1)]]]
  obtain w1 w2 where o: "w_heap w1 = w_heap w" "cmds (w_os w1) = cmds (w_os w)" "w_heap w' = w_heap w2" "cmds (w_os w') = cmds (w_os w2)"
    and "if_err (install_delay h p ''add'' (if delay \<noteq> [] then delay else ''0'')) Some
      (install_bw h p ''add'' (if bw \<noteq> [] then bw else ''8000000'')) w1 = (Ret None, w2)" by blast
  then show "let d = if delay \<noteq> [] then delay else ''0''; b = if bw \<noteq> [] then bw else ''8000000''; port = cn_OvsPortID (w_heap w ! p)
       in w_heap w' = (w_heap w)[p := (w_heap w ! p)\<lparr>cn_Delay := d, cn_BandWidth := b\<rparr>] \<and>
         cmds (w_os w') = cmds (w_os w) @
          [[''qdisc'', ''add'', ''dev'', port, ''root'', ''handle'', ''1:0'', ''netem'', ''delay'', d @ ''ms''],
           [''qdisc'', ''add'', ''dev'', port, ''parent'', ''1:1'', ''handle'', ''10:'', ''tbf'', ''rate'', b @ ''kbit'',
            ''buffer'', ''1600'', ''limit'', ''3000'']]"
    using assms(2) by (auto simp: if_err_def gret_def Let_def delay_args_def bw_args_def elim!: gbind_RetE split: option.splits
        dest!: install_effect [OF assms(3)])
next
  fix w' assume "changeQos h containerId bw delay w = (Ret None, w')"
  from in_container_None [OF assms(3) this [unfolded addQos_container(2) [OF assms(1)]]]
  obtain w1 w2 where o: "w_heap w1 = w_heap w" "cmds (w_os w1) = cmds (w_os w)" "w_heap w' = w_heap w2" "cmds (w_os w') = cmds (w_os w2)"
    and "if_err (if delay \<noteq> [] then install_delay h p ''change'' delay else gret None) Some
      (if bw \<noteq> [] then install_bw h p ''change'' bw else gret None) w1 = (Ret None, w2)" by blast
  then show "let port = cn_OvsPortID (w_heap w ! p)
       in w_heap w' = (w_heap w)[p := (w_heap w ! p)
          \<lparr>cn_Delay := if delay \<noteq> [] then delay else cn_Delay (w_heap w ! p),
           cn_BandWidth := if bw \<noteq> [] then bw else cn_BandWidth (w_heap w ! p)\<rparr>] \<and>
         cmds (w_os w') = cmds (w_os w) @
          (if delay \<noteq> [] then [[''qdisc'', ''change'', ''dev'', port, ''root'', ''handle'', ''1:0'', ''netem'', ''delay'', delay @ ''ms'']] else []) @
          (if bw \<noteq> [] then [[''qdisc'', ''change'', ''dev'', port, ''parent'', ''1:1'', ''handle'', ''10:'', ''tbf'', ''rate'', bw @ ''kbit'',
            ''buffer'', ''1600'', ''limit'', ''3000'']] else [])"
    using assms(2) by (auto simp: if_err_def gret_def Let_def delay_args_def bw_args_def elim!: gbind_RetE split: option.splits if_splits
        dest!: install_effect [OF assms(3)])
qed

lemma exec_log_host_ns: "exec_log host_ns (\<lambda>s. map snd (ns_log s))"
  by (auto simp: exec_log_def host_ns_def host_base_def open_fd_def Let_def split: option.split)

theorem qos_recorded_witness:
  "w_heap (snd (addQos host_ns ''c1'' ''100'' [] world_ns)) =
    [(w_heap world_ns ! 0)\<lparr>cn_Delay := ''0'', cn_BandWidth := ''100''\<rparr>] \<and>
   map snd (ns_log (w_os (snd (addQos host_ns ''c1'' ''100'' [] world_ns)))) =
    [[''qdisc'', ''add'', ''dev'', ''ovs0000000'', ''root'', ''handle'', ''1:0'', ''netem'', ''delay'', ''0ms''],
     [''qdisc'', ''add'', ''dev'', ''ovs0000000'', ''parent'', ''1:1'', ''handle'', ''10:'', ''tbf'', ''rate'', ''100kbit'',
      ''buffer'', ''1600'', ''limit'', ''3000'']]"
proof -
  have add: "addQos host_ns ''c1'' ''100'' [] world_ns = (Ret None, snd (addQos host_ns ''c1'' ''100'' [] world_ns))"
    using addQos_world_ns(1) by (metis prod.collapse)
  have w: "map_of (d_connections (w_daemon world_ns)) ''c1'' = Some 0" "0 < length (w_heap world_ns)"
      "cn_OvsPortID (w_heap world_ns ! 0) = ''ovs0000000''" "ns_log (w_os world_ns) = []" "(w_heap world_ns)[0 := c] = [c]" for c
    by (simp_all add: world_ns_def)
  from qos_recorded [OF w(1,2) exec_log_host_ns, THEN conjunct1, rule_format, OF add] show ?thesis by (simp add: w Let_def)
qed

section \<open>Rates\<close>

lemma excess_bits_le: "n < 2 ^ (53 + k) \<Longrightarrow> excess_bits n \<le> k"
proof (induction k arbitrary: n)
  case 0
  then show ?case by (simp add: excess_bits.simps)
next
  case (Suc k)
  from Suc.prems have "n < 2 ^ (53 + k) * 2" by (simp add: power_add)
  then have "n div 2 < 2 ^ (53 + k)" by (rule less_mult_imp_div_less)
  then show ?case using Suc.IH [of "n div 2"] by (subst excess_bits.simps) simp
qed

lemma float64_of_exact: "unat x < 2 ^ 53 \<Longrightarrow> float64_of x = of_nat (unat x)"
  using excess_bits_le [of "unat x" 0] by (simp add: float64_of_def Let_def)

lemma float64_of_lower: "of_nat (unat x) - 2048 \<le> float64_of x"
proof -
  let ?n = "unat x" and ?e = "excess_bits (unat x)"
  have "unat x < 2 ^ 64" using unsigned_less [of x] by simp
  then have "?e \<le> 11" using excess_bits_le [of ?n 11] by simp
  then have "(2 :: nat) ^ ?e \<le> 2 ^ 11" by (rule power_increasing) simp
  then have e: "(2 :: nat) ^ ?e \<le> 2048" by simp
  have "?n mod 2 ^ ?e < 2 ^ ?e" by (rule mod_less_divisor) simp
  then have "?n mod 2 ^ ?e \<le> 2048" using e by (rule less_imp_le [OF less_le_trans])
  moreover have "?n = ?n div 2 ^ ?e * 2 ^ ?e + ?n mod 2 ^ ?e" by (rule div_mult_mod_eq [symmetric])
  ultimately have "?n \<le> ?n div 2 ^ ?e * 2 ^ ?e + 2048" by linarith
  also have "\<dots> \<le> (if 2 * (?n mod 2 ^ ?e) < 2 ^ ?e \<or> 2 * (?n mod 2 ^ ?e) = 2 ^ ?e \<and> even (?n div 2 ^ ?e)
      then ?n div 2 ^ ?e else ?n div 2 ^ ?e + 1) * 2 ^ ?e + 2048" by simp
  finally have "real ?n \<le> real (\<dots>)" by (rule of_nat_mono)
  then show ?thesis by (simp add: float64_of_def Let_def)
qed

lemma kbytes_bound: "unat (x div 1024 :: uint) < 2 ^ 54"
proof -
  have "unat x < 2 ^ 54 * 1024" using unsigned_less [of x, where ?'a = nat] by simp
  then show ?thesis unfolding unat_div by (simp add: less_mult_imp_div_less)
qed

lemma getInterfaceInfo_True:
  assumes "getInterfaceInfo h p interval w = (Ret True, w')" and "p < length (w_heap w)"
  obtains ss line where
    "h_ReadFile h (''/hostproc/'' @ cn_ContainerPID (w_heap w ! p) @ ''/net/dev'') (w_os w) = Inr ss"
    "from_index (cn_OvsPortID (w_heap w ! p)) ss = Some line"
    "w_heap w' ! p = (w_heap w ! p)\<lparr>cn_RXTotal := ParseUint_value (Fields line ! 1) div 1024,
      cn_TXTotal := ParseUint_value (Fields line ! 9) div 1024,
      cn_RXRate := float64_of (ParseUint_value (Fields line ! 1) div 1024 - cn_RXTotal (w_heap w ! p)) * 8 / interval,
      cn_TXRate := float64_of (ParseUint_value (Fields line ! 9) div 1024 - cn_TXTotal (w_heap w ! p)) * 8 / interval\<rparr>"
proof -
  from assms(1) obtain ss line where r: "h_ReadFile h (''/hostproc/'' @ cn_ContainerPID (w_heap w ! p) @ ''/net/dev'') (w_os w) = Inr ss"
      "from_index (cn_OvsPortID (w_heap w ! p)) ss = Some line"
      "w' = update_con p (\<lambda>c. c\<lparr>cn_RXTotal := ParseUint_value (Fields line ! 1) div 1024,
        cn_TXTotal := ParseUint_value (Fields line ! 9) div 1024,
        cn_RXRate := float64_of (ParseUint_value (Fields line ! 1) div 1024 - cn_RXTotal c) * 8 / interval,
        cn_TXRate := float64_of (ParseUint_value (Fields line ! 9) div 1024 - cn_TXTotal c) * 8 / interval\<rparr>) w"
    unfolding getInterfaceInfo_def
    by (auto elim!: gbind_RetE simp: ask_def ask_os_def change_def gret_def gpanic_def gcheck_def Let_def
        split: sum.splits option.splits if_splits)
  show ?thesis by (rule that [OF r(1,2)]) (use r(3) assms(2) in \<open>simp add: update_con_def\<close>)
qed

text \<open>
  The rate over a turn of two seconds, from the totals in KB before and after it: exact for a total that
  did not go down (up to 2^53 KB), and at least 2^64 for one that did.
\<close>

definition rate_of :: "uint \<Rightarrow> uint \<Rightarrow> real \<Rightarrow> bool" where
  "rate_of old new rate \<longleftrightarrow>
     (if unat old \<le> unat new then unat new - unat old < 2 ^ 53 \<longrightarrow> rate = 4 * of_nat (unat new - unat old) else 2 ^ 64 \<le> rate)"

lemma rate_of_difference:
  assumes "unat old < 2 ^ 54"
  shows "rate_of old new (float64_of (new - old) * 8 / 2)"
proof (cases "unat old \<le> unat new")
  case True
  then have "unat (new - old) = unat new - unat old" by (simp add: unat_sub word_le_nat_alt)
  with True show ?thesis by (simp add: rate_of_def float64_of_exact)
next
  case False
  then have "unat (new - old) = 2 ^ 64 + unat new - unat old"
    using unat_sub_if_size [of new old] by (simp add: word_size word_le_nat_alt)
  then have "2 ^ 63 \<le> unat (new - old)" using assms by simp
  then have "(2 ^ 63 :: real) \<le> of_nat (unat (new - old))" by (metis of_nat_le_iff of_nat_numeral of_nat_power)
  then show ?thesis using float64_of_lower [of "new - old"] False by (simp add: rate_of_def)
qed

text \<open>
  C31. After a turn of the monitor the totals are the fields 1 (received) and 9 (sent) of the port's line in
  the counters of the container, in KB and below 2^54. Of both, a total that did not go down gives the
  exact rate in Kb/s over the two seconds of a turn (for a difference below 2^53 KB); a total
  that went down, as after the interface was made anew, gives a rate of at least 2^64 instead of
  none, because the difference of the counters wraps.
\<close>

theorem monitor_rates:
  assumes "getInterfaceInfo h p 2 w = (Ret True, w')" and "p < length (w_heap w)"
    and "unat (cn_RXTotal (w_heap w ! p)) < 2 ^ 54" and "unat (cn_TXTotal (w_heap w ! p)) < 2 ^ 54"
  shows "(\<exists>ss line. h_ReadFile h (''/hostproc/'' @ cn_ContainerPID (w_heap w ! p) @ ''/net/dev'') (w_os w) = Inr ss \<and>
      from_index (cn_OvsPortID (w_heap w ! p)) ss = Some line \<and>
      cn_RXTotal (w_heap w' ! p) = ParseUint_value (Fields line ! 1) div 1024 \<and>
      cn_TXTotal (w_heap w' ! p) = ParseUint_value (Fields line ! 9) div 1024) \<and>
    unat (cn_RXTotal (w_heap w' ! p)) < 2 ^ 54 \<and> unat (cn_TXTotal (w_heap w' ! p)) < 2 ^ 54 \<and>
    rate_of (cn_RXTotal (w_heap w ! p)) (cn_RXTotal (w_heap w' ! p)) (cn_RXRate (w_heap w' ! p)) \<and>
    rate_of (cn_TXTotal (w_heap w ! p)) (cn_TXTotal (w_heap w' ! p)) (cn_TXRate (w_heap w' ! p))"
proof -
  obtain ss line where r: "h_ReadFile h (''/hostproc/'' @ cn_ContainerPID (w_heap w ! p) @ ''/net/dev'') (w_os w) = Inr ss"
      "from_index (cn_OvsPortID (w_heap w ! p)) ss = Some line"
    and eq: "w_heap w' ! p = (w_heap w ! p)\<lparr>cn_RXTotal := ParseUint_value (Fields line ! 1) div 1024,
      cn_TXTotal := ParseUint_value (Fields line ! 9) div 1024,
      cn_RXRate := float64_of (ParseUint_value (Fields line ! 1) div 1024 - cn_RXTotal (w_heap w ! p)) * 8 / 2,
      cn_TXRate := float64_of (ParseUint_value (Fields line ! 9) div 1024 - cn_TXTotal (w_heap w ! p)) * 8 / 2\<rparr>"
    by (rule getInterfaceInfo_True [OF assms(1,2)])
  have f: "cn_RXTotal (w_heap w' ! p) = ParseUint_value (Fields line ! 1) div 1024"
      "cn_TXTotal (w_heap w' ! p) = ParseUint_value (Fields line ! 9) div 1024"
      "cn_RXRate (w_heap w' ! p) = float64_of (ParseUint_value (Fields line ! 1) div 1024 - cn_RXTotal (w_heap w ! p)) * 8 / 2"
      "cn_TXRate (w_heap w' ! p) = float64_of (ParseUint_value (Fields line ! 9) div 1024 - cn_TXTotal (w_heap w ! p)) * 8 / 2"
    by (simp_all add: eq)
  show ?thesis unfolding f using r
    by (intro conjI exI [of _ ss] exI [of _ line] refl kbytes_bound rate_of_difference assms(3,4))
qed

definition dev_text :: string where
  "dev_text = ''lo: 7 ovs0: 5120 0 0 0 0 0 0 0 4096''"

definition host_dev :: "unit host" where
  "host_dev = host0\<lparr>h_ReadFile := (\<lambda>_ _. Inr dev_text)\<rparr>"

definition world_dev :: "unit world" where
  "world_dev = world0\<lparr>w_heap := [Connection0\<lparr>cn_ContainerID := ''c1'', cn_OvsPortID := ''ovs0'', cn_RXTotal := 10, cn_TXTotal := 1\<rparr>],
     w_daemon := daemon0\<lparr>d_connections := [(''c1'', 0)]\<rparr>\<rparr>"

lemma dev_text_fields:
  "from_index ''ovs0'' dev_text = Some ''ovs0: 5120 0 0 0 0 0 0 0 4096''"
  "Fields ''ovs0: 5120 0 0 0 0 0 0 0 4096'' = [''ovs0:'', ''5120'', ''0'', ''0'', ''0'', ''0'', ''0'', ''0'', ''0'', ''4096'']"
  "ParseUint_value ''5120'' div 1024 = 5" "ParseUint_value ''4096'' div 1024 = 4"
  by (simp_all add: dev_text_def from_index.simps Fields.simps is_field_space_def ParseUint_value_def num_val_def digit_val_def is_digit_def)

lemma getInterfaceInfo_dev:
  obtains w' where "getInterfaceInfo host_dev 0 2 world_dev = (Ret True, w')"
    "cn_RXTotal (w_heap w' ! 0) = 5" "cn_TXTotal (w_heap w' ! 0) = 4"
  using that
  by (simp add: getInterfaceInfo_def gbind_def go_run host_dev_def world_dev_def SafeMap_Check_def update_con_def dev_text_fields)

theorem monitor_rates_witness:
  "\<exists>w'. getInterfaceInfo host_dev 0 2 world_dev = (Ret True, w') \<and> 2 ^ 64 \<le> cn_RXRate (w_heap w' ! 0) \<and>
    cn_TXRate (w_heap w' ! 0) = 12"
proof -
  obtain w' where g: "getInterfaceInfo host_dev 0 2 world_dev = (Ret True, w')"
      "cn_RXTotal (w_heap w' ! 0) = 5" "cn_TXTotal (w_heap w' ! 0) = 4"
    by (rule getInterfaceInfo_dev)
  have "rate_of 10 5 (cn_RXRate (w_heap w' ! 0))" "rate_of 1 4 (cn_TXRate (w_heap w' ! 0))"
    using monitor_rates [OF g(1)] g(2,3) by (simp_all add: world_dev_def)
  with g(1) show ?thesis by (simp add: rate_of_def)
qed

end
