(* ===== verification/Backend.thy ===== *)
theory Backend
  imports Qos
begin

text \<open>
  The daemon and its cluster side (\<^verbatim>\<open>server/daemon.go\<close>, \<^verbatim>\<open>server/backend.go\<close>): start of the embedded
  agent, joining and leaving, and the listener that keeps a tunnel to every other node. The bodies
  of the goroutines that \<^verbatim>\<open>Run\<close> starts are definitions of their own; a goroutine that loops is
  given by one turn of its loop.
\<close>

section \<open>The agent\<close>

definition dataDir :: string where
  "dataDir = ''/tmp/cxy/''"

definition on_watch :: "(unit watch_state, 'a) go \<Rightarrow> ('o world, 'a) go" where
  "on_watch m w = (case m (w_watch w) of (r, s) \<Rightarrow> (r, w\<lparr>w_watch := s\<rparr>))"

definition InitAgent :: "(string \<Rightarrow> string + (string + string list)) \<Rightarrow> bool \<Rightarrow> ('o world, error) go" where
  "InitAgent iface early =
     gbind (ask w_daemon) (\<lambda>d.
     gbind (on_watch (StartAgent iface early (d_isServer d) (d_expServerNum d) (d_bindInterface d) dataDir)) (\<lambda>(_, err).
       if err = None then
         gbind (change (\<lambda>w. w\<lparr>w_watch := RegisterForNodeUpdates () (w_watch w)\<rparr>)) (\<lambda>_. gret None)
       else gret err))"

definition join :: "'o host \<Rightarrow> string \<Rightarrow> ('o world, error) go" where
  "join h addr = on_os (Join (h_cli h) addr)"

definition leave :: "'o host \<Rightarrow> ('o world, error) go" where
  "leave h = if_err (on_os (Leave (h_cli h))) Some (if_err (on_os (h_RemoveAll h dataDir)) Some (gret None))"

text \<open>What the node handler does with one message.\<close>

definition nodeHandler :: "'o host \<Rightarrow> NodeCtx \<Rightarrow> ('o world, unit) go" where
  "nodeHandler h context = (case nc_action context of
      nodeJoin \<Rightarrow> gbind (join h (nc_param context)) (\<lambda>_. gret ())
    | nodeLeave \<Rightarrow> gbind (leave h) (\<lambda>_. gret ()))"

section \<open>The listener\<close>

text \<open>
  The listener marks the daemon as ready and sends on \<^verbatim>\<open>readyChan\<close>. Here the send adds to the number
  of signals not yet received; that it waits for the receiver is in \<open>Startup\<close>.
\<close>

definition mark_ready :: "'o world \<Rightarrow> 'o world" where
  "mark_ready w = w\<lparr>w_daemon := (w_daemon w)\<lparr>d_isReady := True\<rparr>\<rparr>"

definition signal_ready :: "'o world \<Rightarrow> 'o world" where
  "signal_ready w = w\<lparr>w_daemon := (w_daemon w)\<lparr>d_isReady := True, d_readyChan := d_readyChan (w_daemon w) + 1\<rparr>\<rparr>"

text \<open>What the listener does once it has passed the check of \<^verbatim>\<open>isReady\<close>.\<close>

definition Listener_peers :: "'o host \<Rightarrow> NotifyUpdateType \<Rightarrow> string \<Rightarrow> ('o world, unit) go" where
  "Listener_peers h nType nodeAddr =
     (if nType = NOTIFY_UPDATE_ADD then
        gbind (ask_os (MyIP (h_netlink h))) (\<lambda>r.
          let myIp = (case r of Inl _ \<Rightarrow> [] | Inr ip \<Rightarrow> ip) in
          if nodeAddr \<noteq> myIp then gbind (AddPeer h nodeAddr) (\<lambda>_. gret ()) else gret ())
      else if nType = NOTIFY_UPDATE_DELETE then gbind (DeletePeer h nodeAddr) (\<lambda>_. gret ())
      else gret ())"

definition Listener_NotifyNodeUpdate :: "'o host \<Rightarrow> NotifyUpdateType \<Rightarrow> string \<Rightarrow> ('o world, unit) go" where
  "Listener_NotifyNodeUpdate h nType nodeAddr =
     gbind (ask (\<lambda>w. d_isReady (w_daemon w))) (\<lambda>ready.
     gbind (if \<not> ready then change signal_ready else gret ()) (\<lambda>_. Listener_peers h nType nodeAddr))"

text \<open>The call a notification is: the listener ignores keys and stores.\<close>

definition notify :: "'o host \<Rightarrow> notification \<Rightarrow> ('o world, unit) go" where
  "notify h n = (case n of
      NotifyNodeUpdate nType nodeAddr \<Rightarrow> Listener_NotifyNodeUpdate h nType nodeAddr
    | NotifyKeyUpdate _ _ _ \<Rightarrow> gret ())"

fun notify_all :: "'o host \<Rightarrow> notification list \<Rightarrow> ('o world, unit) go" where
  "notify_all h [] = gret ()"
| "notify_all h (n # ns) = gbind (notify h n) (\<lambda>_. notify_all h ns)"

text \<open>A turn of the plan that watches the nodes, with the calls it makes.\<close>

definition node_watch :: "'o host \<Rightarrow> nat \<Rightarrow> (nat \<times> watch_data) option \<Rightarrow> ('o world, unit) go" where
  "node_watch h a out =
     gbind (on_watch (\<lambda>st. case plan_round a out st of
         None \<Rightarrow> (Panic ''interface conversion'', st) | Some (calls, st') \<Rightarrow> (Ret calls, st'))) (\<lambda>calls.
       notify_all h (map snd calls))"

section \<open>The daemon\<close>

definition NewDaemon :: Daemon where
  "NewDaemon = \<lparr>d_bridgeConf = \<lparr>bc_BridgeIP = [], bc_BridgeName = [], bc_BridgeCIDR = [], bc_BridgeMTU = 0\<rparr>,
     d_isServer = False, d_connections = NewSafeMap, d_bindInterface = [], d_clusterChan = [], d_isReady = False,
     d_readyChan = 0, d_Gateways = [], d_expServerNum = ''1''\<rparr>"

text \<open>The flags of the command line that \<^verbatim>\<open>Run\<close> reads.\<close>

record cli_flags =
  fl_iface :: string
  fl_server :: bool
  fl_expectedServerNum :: string

text \<open>\<^verbatim>\<open>Run\<close> up to the start of its goroutines; the failure of \<^verbatim>\<open>Mkdir\<close> is only logged.\<close>

definition Run :: "'o host \<Rightarrow> cli_flags \<Rightarrow> ('o world, unit) go" where
  "Run h ctx =
     gbind (change (\<lambda>w. w\<lparr>w_daemon := (w_daemon w)\<lparr>d_isServer := fl_server ctx, d_expServerNum := fl_expectedServerNum ctx\<rparr>\<rparr>)) (\<lambda>_.
     gbind (on_os (h_Mkdir h ''/var/run/netns'')) (\<lambda>_. gret ()))"

definition Run_agent :: "cli_flags \<Rightarrow> (string \<Rightarrow> string + (string + string list)) \<Rightarrow> bool \<Rightarrow> ('o world, unit) go" where
  "Run_agent ctx iface early =
     gbind (change (\<lambda>w. w\<lparr>w_daemon := (w_daemon w)\<lparr>d_bindInterface := fl_iface ctx\<rparr>\<rparr>)) (\<lambda>_.
     gbind (InitAgent iface early) (\<lambda>_. gret ()))"

text \<open>The bridge goroutine before and after it received the ready signal, and the signal handler.\<close>

definition Run_bridge :: "'o host \<Rightarrow> ('o world, unit) go" where
  "Run_bridge h = gbind (CreateBridge h) (\<lambda>_. gret ())"

definition receive_ready :: "'o world \<Rightarrow> 'o world" where
  "receive_ready w = w\<lparr>w_daemon := (w_daemon w)\<lparr>d_readyChan := d_readyChan (w_daemon w) - 1\<rparr>\<rparr>"

text \<open>The value says whether \<^verbatim>\<open>CreateDefaultNetwork\<close> was called; its error is only logged.\<close>

definition Run_default :: "'o host \<Rightarrow> (Operation \<Rightarrow> string) \<Rightarrow> nat \<Rightarrow> ('o world, bool) go" where
  "Run_default h render fuel =
     gbind (ask (\<lambda>w. d_isServer (w_daemon w))) (\<lambda>isServer.
       if isServer then gbind (CreateDefaultNetwork h render fuel) (\<lambda>_. gret True) else gret False)"

definition Run_ready :: "'o host \<Rightarrow> (Operation \<Rightarrow> string) \<Rightarrow> nat \<Rightarrow> ('o world, bool) go" where
  "Run_ready h render fuel = gbind (change receive_ready) (\<lambda>_. Run_default h render fuel)"

definition Run_signal :: "'o host \<Rightarrow> ('o world, unit) go" where
  "Run_signal h = gbind (DeleteBridge h) (\<lambda>_. gret ())"

section \<open>Tunnels\<close>

datatype peer_cmd = AddTunnel string | RemoveTunnel string

definition peer_cmds :: "string \<Rightarrow> notification \<Rightarrow> peer_cmd list" where
  "peer_cmds me n = (case n of
      NotifyNodeUpdate NOTIFY_UPDATE_ADD a \<Rightarrow> if a \<noteq> me then [AddTunnel a] else []
    | NotifyNodeUpdate NOTIFY_UPDATE_DELETE a \<Rightarrow> [RemoveTunnel a]
    | _ \<Rightarrow> [])"

text \<open>The tunnels that a sequence of commands leaves, and its effect on the database.\<close>

fun tunnel :: "peer_cmd \<Rightarrow> string set \<Rightarrow> string set" where
  "tunnel (AddTunnel a) T = insert a T"
| "tunnel (RemoveTunnel a) T = T - {a}"

fun run_cmd :: "'o host \<Rightarrow> table_cache \<Rightarrow> peer_cmd \<Rightarrow> 'o \<Rightarrow> 'o" where
  "run_cmd h cache (AddTunnel a) s = snd (h_transact h (addVxlanPort_ops bridgeName (''vxlan-'' @ a) a) s)"
| "run_cmd h cache (RemoveTunnel a) s =
     (let u = portUuidForName (''vxlan-'' @ a) cache
      in if u = [] then s else snd (h_transact h (deletePort_ops bridgeName (''vxlan-'' @ a) u) s))"

lemma tunnels_learn: "fold tunnel (peer_cmds me n) (V - {me}) = learn n V - {me}"
  by (cases "(n, V)" rule: learn.cases) (auto simp: peer_cmds_def)

lemma fold_tunnels_learn: "fold tunnel (concat (map (peer_cmds me) ns)) (V - {me}) = fold learn ns V - {me}"
  by (induction ns arbitrary: V) (simp_all add: tunnels_learn)

definition is_node_update :: "notification \<Rightarrow> bool" where
  "is_node_update n = (case n of NotifyNodeUpdate _ _ \<Rightarrow> True | _ \<Rightarrow> False)"

text \<open>The state after a notification: the database has run its commands, and the first one signals readiness.\<close>

definition notified :: "'o host \<Rightarrow> string \<Rightarrow> notification \<Rightarrow> 'o world \<Rightarrow> 'o world" where
  "notified h me n w =
     (let w' = w\<lparr>w_os := fold (run_cmd h (w_cache w)) (peer_cmds me n) (w_os w)\<rparr>
      in if is_node_update n \<and> \<not> d_isReady (w_daemon w) then signal_ready w' else w')"

lemma notify_run:
  assumes "w_ovsClient w" and "\<forall>ops s. fst (h_transact h ops s) \<noteq> None" and "\<forall>s. MyIP (h_netlink h) s = Inr me"
  shows "notify h n w = (Ret (), notified h me n w)"
proof -
  have tr: "Transact h ops v = (Ret (the (fst (h_transact h ops (w_os v)))), v\<lparr>w_os := snd (h_transact h ops (w_os v))\<rparr>)"
    if "w_ovsClient v" for ops v
  proof -
    obtain r where "fst (h_transact h ops (w_os v)) = Some r" using assms(2) by blast
    then show ?thesis using that
      by (cases "h_transact h ops (w_os v)") (simp add: Transact_def gbind_def go_run)
  qed
  have add: "AddPeer h a v = (Ret None, v\<lparr>w_os := run_cmd h (w_cache v) (AddTunnel a) (w_os v)\<rparr>)" if "w_ovsClient v" for a v
    by (simp add: AddPeer_def addVxlanPort_def gbind_def go_run tr that)
  have del: "DeletePeer h a v = (Ret None, v\<lparr>w_os := run_cmd h (w_cache v) (RemoveTunnel a) (w_os v)\<rparr>)" if "w_ovsClient v" for a v
    by (simp add: DeletePeer_def deletePort_def gbind_def go_run tr that Let_def)
  define v where "v = (if is_node_update n \<and> \<not> d_isReady (w_daemon w) then signal_ready w else w)"
  have v: "w_ovsClient v" "w_cache v = w_cache w" "w_os v = w_os w"
    using assms(1) by (simp_all add: v_def signal_ready_def)
  have eff: "notified h me n w = v\<lparr>w_os := fold (run_cmd h (w_cache v)) (peer_cmds me n) (w_os v)\<rparr>"
    by (simp add: notified_def v_def signal_ready_def Let_def)
  show ?thesis
  proof (cases n)
    case (NotifyNodeUpdate t a)
    then have "notify h n w = (if t = NOTIFY_UPDATE_ADD then if a \<noteq> me then gbind (AddPeer h a) (\<lambda>_. gret ()) v else (Ret (), v)
        else if t = NOTIFY_UPDATE_DELETE then gbind (DeletePeer h a) (\<lambda>_. gret ()) v else (Ret (), v))"
      using assms(3) by (auto simp: notify_def Listener_NotifyNodeUpdate_def Listener_peers_def v_def is_node_update_def gbind_def [of "ask _"] 
          gbind_def [of "ask_os _"] gbind_def [of "change _"] go_run)
    then show ?thesis unfolding eff
      by (cases t) (simp_all add: NotifyNodeUpdate add [OF v(1)] del [OF v(1)] peer_cmds_def gbind_def gret_def)
  next
    case (NotifyKeyUpdate t k b)
    then show ?thesis by (simp add: notify_def notified_def peer_cmds_def is_node_update_def gret_def)
  qed
qed

lemma notified_simps [simp]:
  "w_ovsClient (notified h me n w) = w_ovsClient w" "w_cache (notified h me n w) = w_cache w"
  "w_os (notified h me n w) = fold (run_cmd h (w_cache w)) (peer_cmds me n) (w_os w)"
  "w_kv (notified h me n w) = w_kv w"
  by (simp_all add: notified_def Let_def signal_ready_def)

lemma notify_all_run:
  assumes "\<forall>ops s. fst (h_transact h ops s) \<noteq> None" and "\<forall>s. MyIP (h_netlink h) s = Inr me" and "w_ovsClient w"
  shows "notify_all h ns w = (Ret (), fold (notified h me) ns w)"
  using assms(3)
proof (induction ns arbitrary: w)
  case (Cons n ns)
  then show ?case using notify_run [OF Cons.prems assms(1,2), of n] by (simp add: gbind_def)
qed (simp add: gret_def)

lemma fold_notified_os:
  "w_os (fold (notified h me) ns w) = fold (run_cmd h (w_cache w)) (concat (map (peer_cmds me) ns)) (w_os w)"
  by (induction ns arbitrary: w) simp_all

text \<open>
  C5. The tunnels follow the membership of the cluster: when the listener handles what the node
  watch tells it, over any history of node lists, failed queries and repeated indexes, the
  calls that add and remove peers, in their order, ask for a tunnel exactly to every node of the last
  list other than the node itself, and what has happened at the database is what these calls do there
  (a removal does nothing there as long as the cache of rows does not have the port).
\<close>

theorem tunnels_follow_membership:
  assumes "Some 0 \<notin> set is" and "w_ovsClient w" and "\<forall>ops s. fst (h_transact h ops s) \<noteq> None"
    and "\<forall>s. MyIP (h_netlink h) s = Inr me"
  shows "\<exists>calls st' w'. plan_run 0 (map (node_query hist) is) (RegisterForNodeUpdates () watch_init) = Some (calls, st') \<and>
    notify_all h (map snd calls) w = (Ret (), w') \<and>
    (let cmds = concat (map (peer_cmds me \<circ> snd) calls)
     in w_os w' = fold (run_cmd h (w_cache w)) cmds (w_os w) \<and>
        fold tunnel cmds {} = (if last_index is 0 = 0 then {} else addresses (hist (last_index is 0)) - {me}))"
proof -
  obtain calls st' where r: "plan_run 0 (map (node_query hist) is) (RegisterForNodeUpdates () watch_init) = Some (calls, st')"
      "view () calls {} = (if last_index is 0 = 0 then {} else addresses (hist (last_index is 0)))"
    using plan_run_from_init [OF assms(1), of hist "()"] by blast
  have "filter (\<lambda>c. fst c = ()) calls = calls" by simp
  then have "fold learn (map snd calls) {} = view () calls {}" by (simp add: view_def)
  then have "fold tunnel (concat (map (peer_cmds me \<circ> snd) calls)) {} =
      (if last_index is 0 = 0 then {} else addresses (hist (last_index is 0)) - {me})"
    using fold_tunnels_learn [of me "map snd calls" "{}"] r(2) by simp
  with r(1) notify_all_run [OF assms(3,4,2)] fold_notified_os [of h me "map snd calls" w] show ?thesis
    by (auto simp: Let_def)
qed

definition host_me :: "unit host" where
  "host_me = host0\<lparr>h_netlink := nl_one_route\<lparr>Interfaces :=
     (\<lambda>_. Inr [\<lparr>if_Up = True, if_Loopback = False, if_Addrs = Inr [[10, 0, 0, 1]]\<rparr>])\<rparr>\<rparr>"

lemma host_me_laws:
  "\<forall>ops s. fst (h_transact host_me ops s) \<noteq> None" "\<forall>s. MyIP (h_netlink host_me) s = Inr (v4_string [10, 0, 0, 1])"
  by (simp_all add: host_me_def host0_def nl_one_route_def MyIP_def IsLoopback_def)

theorem tunnels_follow_membership_witness:
  "\<exists>calls st'. plan_run 0 (map (node_query (\<lambda>i. [\<lparr>node_Name = ''a'', node_Address = v4_string [10, 0, 0, 1]\<rparr>,
        \<lparr>node_Name = ''b'', node_Address = itoa i\<rparr>])) [Some 3, None, Some 5]) (RegisterForNodeUpdates () watch_init) = Some (calls, st') \<and>
    fst (notify_all host_me (map snd calls) world0) = Ret () \<and>
    fold tunnel (concat (map (peer_cmds (v4_string [10, 0, 0, 1]) \<circ> snd) calls)) {} = {itoa 5}"
proof -
  let ?hist = "\<lambda>i. [\<lparr>node_Name = ''a'', node_Address = v4_string [10, 0, 0, 1]\<rparr>, \<lparr>node_Name = ''b'', node_Address = itoa i\<rparr>]"
  have "itoa 5 \<noteq> v4_string [10, 0, 0, 1]" using v4_string_chars(1) [of "[10, 0, 0, 1]"] itoa_not_char [of "CHR ''.''" 5] by auto
  then have "addresses (?hist (last_index [Some 3, None, Some 5] 0)) - {v4_string [10, 0, 0, 1]} = {itoa 5}"
    by (auto simp: addresses_def)
  with tunnels_follow_membership [OF _ _ host_me_laws, of "[Some 3, None, Some 5]" world0 ?hist]
  show ?thesis by fastforce
qed

section \<open>Readiness\<close>

lemma fold_notified_ready:
  "d_isReady (w_daemon (fold (notified h me) ns w)) = (d_isReady (w_daemon w) \<or> (\<exists>n \<in> set ns. is_node_update n))"
  "d_readyChan (w_daemon (fold (notified h me) ns w)) = d_readyChan (w_daemon w) +
     (if \<not> d_isReady (w_daemon w) \<and> (\<exists>n \<in> set ns. is_node_update n) then 1 else 0)"
  by (induction ns arbitrary: w) (auto simp: notified_def Let_def signal_ready_def)

text \<open>
  The goroutine that waits for the data store is woken exactly once: the first notification about
  a node sends the signal, later ones do not, and without a notification about a node none is sent.
\<close>

theorem ready_signalled_once:
  assumes "w_ovsClient w" and "\<forall>ops s. fst (h_transact h ops s) \<noteq> None" and "\<forall>s. MyIP (h_netlink h) s = Inr me"
    and "\<not> d_isReady (w_daemon w)" and "d_readyChan (w_daemon w) = 0"
  shows "\<exists>w'. notify_all h ns w = (Ret (), w') \<and>
    d_isReady (w_daemon w') = (\<exists>n \<in> set ns. is_node_update n) \<and>
    d_readyChan (w_daemon w') = (if \<exists>n \<in> set ns. is_node_update n then 1 else 0)"
  using notify_all_run [OF assms(2,3,1), of ns] fold_notified_ready [of h me ns w] assms(4,5) by auto

theorem ready_signalled_once_witness:
  "\<exists>w'. notify_all host_me [NotifyNodeUpdate NOTIFY_UPDATE_ADD ''10.0.0.9'', NotifyNodeUpdate NOTIFY_UPDATE_DELETE ''10.0.0.9''] world0 = (Ret (), w') \<and>
    d_readyChan (w_daemon w') = 1"
  using ready_signalled_once [OF _ host_me_laws, of world0
      "[NotifyNodeUpdate NOTIFY_UPDATE_ADD ''10.0.0.9'', NotifyNodeUpdate NOTIFY_UPDATE_DELETE ''10.0.0.9'']"]
  by (auto simp: daemon0_def is_node_update_def)

end
