(* ===== verification/Api.thy ===== *)
theory Api
  imports Backend
begin

text \<open>
  The HTTP interface (\<^verbatim>\<open>server/api.go\<close>): decoding of request bodies and query strings, the router
  and every handler. A response is its status and the value whose JSON text (or the text) is
  written; headers are left out. The parameter \<open>pf\<close> is \<^verbatim>\<open>strconv.ParseFloat\<close>, which the decoder calls
  for the two rates a client may send.
\<close>

section \<open>Requests and responses\<close>

text \<open>
  A request as \<^verbatim>\<open>net/http\<close> hands it over: \<open>rq_Body\<close> is \<^term>\<open>None\<close> for a nil body, \<open>rq_FormValue\<close> the
  form that \<^verbatim>\<open>FormValue\<close> reads.
\<close>

record http_request =
  rq_Method :: string
  rq_Path :: string
  rq_URL :: string
  rq_RawQuery :: string
  rq_Body :: "string option"
  rq_FormValue :: "string \<Rightarrow> string"

datatype resp_body =
    RespNone
  | RespText string
  | RespConf BridgeConf
  | RespNetworks "Network list"
  | RespNetwork "Network option"
  | RespConnections "(string \<times> Connection) list"
  | RespConnection Connection

record api_response =
  rs_Status :: nat
  rs_Body :: resp_body

record HttpErr =
  he_code :: nat
  he_message :: string

type_synonym 'o handler_result = "('o world, HttpErr + resp_body) go"

definition http_error :: "nat \<Rightarrow> string \<Rightarrow> 'o handler_result" where
  "http_error status msg = gret (Inl \<lparr>he_code = status, he_message = msg\<rparr>)"

definition version :: string where
  "version = ''10.0''"

section \<open>Bodies\<close>

definition store_real :: "(string \<Rightarrow> real option) \<Rightarrow> json \<Rightarrow> real \<Rightarrow> real \<times> bool" where
  "store_real pf v old = (case v of
      JNum s \<Rightarrow> (case pf s of Some x \<Rightarrow> (x, False) | None \<Rightarrow> (old, True))
    | JNull \<Rightarrow> (old, False)
    | _ \<Rightarrow> (old, True))"

text \<open>\<^verbatim>\<open>strconv.ParseInt(s, 10, 64)\<close>.\<close>

definition ParseInt :: "string \<Rightarrow> int option" where
  "ParseInt s =
     (let neg = (s \<noteq> [] \<and> hd s = CHR ''-''); ds = (if neg then tl s else s) in
      if ds = [] \<or> \<not> list_all is_digit ds then None
      else let n = int (num_val ds) in
        if neg then (if n \<le> 2 ^ 63 then Some (- n) else None) else (if n < 2 ^ 63 then Some n else None))"

definition store_int :: "json \<Rightarrow> int \<Rightarrow> int \<times> bool" where
  "store_int v old = (case v of
      JNum s \<Rightarrow> (case ParseInt s of Some n \<Rightarrow> (n, False) | None \<Rightarrow> (old, True))
    | JNull \<Rightarrow> (old, False)
    | _ \<Rightarrow> (old, True))"

definition OvsConnection_field :: "string \<times> json \<Rightarrow> OvsConnection \<times> bool \<Rightarrow> OvsConnection \<times> bool" where
  "OvsConnection_field = (\<lambda>(k, v) (c, bad).
     if lower k = ''name'' then (let (x, b) = store_str v (oc_Name c) in (c\<lparr>oc_Name := x\<rparr>, bad \<or> b))
     else if lower k = ''ip'' then (let (x, b) = store_str v (oc_Ip c) in (c\<lparr>oc_Ip := x\<rparr>, bad \<or> b))
     else if lower k = ''subnet'' then (let (x, b) = store_str v (oc_Subnet c) in (c\<lparr>oc_Subnet := x\<rparr>, bad \<or> b))
     else if lower k = ''mac'' then (let (x, b) = store_str v (oc_Mac c) in (c\<lparr>oc_Mac := x\<rparr>, bad \<or> b))
     else if lower k = ''gateway'' then (let (x, b) = store_str v (oc_Gateway c) in (c\<lparr>oc_Gateway := x\<rparr>, bad \<or> b))
     else (c, bad))"

definition store_ovs :: "json \<Rightarrow> OvsConnection \<Rightarrow> OvsConnection \<times> bool" where
  "store_ovs v old = (case v of
      JObj ms \<Rightarrow> fold OvsConnection_field ms (old, False)
    | JNull \<Rightarrow> (old, False)
    | _ \<Rightarrow> (old, True))"

definition Connection_field :: "(string \<Rightarrow> real option) \<Rightarrow> string \<times> json \<Rightarrow> Connection \<times> bool \<Rightarrow> Connection \<times> bool" where
  "Connection_field pf = (\<lambda>(k, v) (c, bad).
     if lower k = ''containerid'' then (let (x, b) = store_str v (cn_ContainerID c) in (c\<lparr>cn_ContainerID := x\<rparr>, bad \<or> b))
     else if lower k = ''containername'' then (let (x, b) = store_str v (cn_ContainerName c) in (c\<lparr>cn_ContainerName := x\<rparr>, bad \<or> b))
     else if lower k = ''containerpid'' then (let (x, b) = store_str v (cn_ContainerPID c) in (c\<lparr>cn_ContainerPID := x\<rparr>, bad \<or> b))
     else if lower k = ''requestip'' then (let (x, b) = store_str v (cn_RequestIp c) in (c\<lparr>cn_RequestIp := x\<rparr>, bad \<or> b))
     else if lower k = ''network'' then (let (x, b) = store_str v (cn_Network c) in (c\<lparr>cn_Network := x\<rparr>, bad \<or> b))
     else if lower k = ''ovsportid'' then (let (x, b) = store_str v (cn_OvsPortID c) in (c\<lparr>cn_OvsPortID := x\<rparr>, bad \<or> b))
     else if lower k = ''bandwidth'' then (let (x, b) = store_str v (cn_BandWidth c) in (c\<lparr>cn_BandWidth := x\<rparr>, bad \<or> b))
     else if lower k = ''delay'' then (let (x, b) = store_str v (cn_Delay c) in (c\<lparr>cn_Delay := x\<rparr>, bad \<or> b))
     else if lower k = ''rxkbytes'' then (let (x, b) = store_uint v (cn_RXTotal c) in (c\<lparr>cn_RXTotal := x\<rparr>, bad \<or> b))
     else if lower k = ''txkbytes'' then (let (x, b) = store_uint v (cn_TXTotal c) in (c\<lparr>cn_TXTotal := x\<rparr>, bad \<or> b))
     else if lower k = ''rxrate'' then (let (x, b) = store_real pf v (cn_RXRate c) in (c\<lparr>cn_RXRate := x\<rparr>, bad \<or> b))
     else if lower k = ''txrate'' then (let (x, b) = store_real pf v (cn_TXRate c) in (c\<lparr>cn_TXRate := x\<rparr>, bad \<or> b))
     else if lower k = ''ovs_connectiondetails'' then
       (let (x, b) = store_ovs v (cn_ConnectionDetail c) in (c\<lparr>cn_ConnectionDetail := x\<rparr>, bad \<or> b))
     else (c, bad))"

definition BridgeConf0 :: BridgeConf where
  "BridgeConf0 = \<lparr>bc_BridgeIP = [], bc_BridgeName = [], bc_BridgeCIDR = [], bc_BridgeMTU = 0\<rparr>"

definition BridgeConf_field :: "string \<times> json \<Rightarrow> BridgeConf \<times> bool \<Rightarrow> BridgeConf \<times> bool" where
  "BridgeConf_field = (\<lambda>(k, v) (c, bad).
     if lower k = ''bridgeip'' then (let (x, b) = store_str v (bc_BridgeIP c) in (c\<lparr>bc_BridgeIP := x\<rparr>, bad \<or> b))
     else if lower k = ''bridgename'' then (let (x, b) = store_str v (bc_BridgeName c) in (c\<lparr>bc_BridgeName := x\<rparr>, bad \<or> b))
     else if lower k = ''bridgecidr'' then (let (x, b) = store_str v (bc_BridgeCIDR c) in (c\<lparr>bc_BridgeCIDR := x\<rparr>, bad \<or> b))
     else if lower k = ''bridgemtu'' then (let (x, b) = store_int v (bc_BridgeMTU c) in (c\<lparr>bc_BridgeMTU := x\<rparr>, bad \<or> b))
     else (c, bad))"

text \<open>\<^verbatim>\<open>json.NewDecoder(r.Body).Decode\<close> into a struct.\<close>

definition Decode :: "(string \<times> json \<Rightarrow> 'a \<times> bool \<Rightarrow> 'a \<times> bool) \<Rightarrow> 'a \<Rightarrow> string \<Rightarrow> string + 'a" where
  "Decode field zero s = (case parse_value s of
      None \<Rightarrow> Inl json_syntax_error
    | Some (v, _) \<Rightarrow> (case v of
          JObj ms \<Rightarrow> (let (x, bad) = fold field ms (zero, False) in if bad then Inl json_type_error else Inr x)
        | JNull \<Rightarrow> Inr zero
        | _ \<Rightarrow> Inl json_type_error))"

section \<open>Query strings\<close>

fun query_unescape :: "string \<Rightarrow> string option" where
  "query_unescape [] = Some []"
| "query_unescape (c # cs) =
     (if c = CHR ''%'' then
        (case cs of
           x # y # r \<Rightarrow> (case (hex_val x, hex_val y) of
               (Some a, Some b) \<Rightarrow> map_option ((#) (char_of (a * 16 + b))) (query_unescape r)
             | _ \<Rightarrow> None)
         | _ \<Rightarrow> None)
      else map_option ((#) (if c = CHR ''+'' then CHR '' '' else c)) (query_unescape cs))"

fun split_amp :: "string \<Rightarrow> string list" where
  "split_amp [] = [[]]"
| "split_amp (c # cs) = (if c = CHR ''&'' \<or> c = CHR '';'' then [] # split_amp cs
     else (case split_amp cs of [] \<Rightarrow> [[c]] | e # es \<Rightarrow> (c # e) # es))"

definition parse_pair :: "string \<Rightarrow> (string \<times> string) option" where
  "parse_pair s =
     (let key = takeWhile (\<lambda>c. c \<noteq> CHR ''='') s; val = drop (length key + 1) s in
      case query_unescape key of
        None \<Rightarrow> None
      | Some k \<Rightarrow> map_option (Pair k) (query_unescape val))"

text \<open>\<^verbatim>\<open>url.ParseQuery\<close>: \<^term>\<open>None\<close> when some pair could not be unescaped.\<close>

definition ParseQuery :: "string \<Rightarrow> (string \<times> string) list option" where
  "ParseQuery q =
     (let pairs = map parse_pair (filter (\<lambda>s. s \<noteq> []) (split_amp q))
      in if None \<in> set pairs then None else Some (map the pairs))"

section \<open>Handlers\<close>

definition getVersion :: "'o handler_result" where
  "getVersion = gret (Inr (RespText version))"

definition getConf :: "'o handler_result" where
  "getConf = gbind (ask (\<lambda>w. d_bridgeConf (w_daemon w))) (\<lambda>conf. gret (Inr (RespConf conf)))"

definition setConf :: "http_request \<Rightarrow> 'o handler_result" where
  "setConf r = (case rq_Body r of
      None \<Rightarrow> http_error 400 ''SetConf request has no body''
    | Some body \<Rightarrow> (case Decode BridgeConf_field BridgeConf0 body of
        Inl _ \<Rightarrow> http_error 500 ''setConf json decode failed''
      | Inr cfg \<Rightarrow> gbind (change (\<lambda>w. w\<lparr>w_daemon := (w_daemon w)\<lparr>d_bridgeConf := cfg\<rparr>\<rparr>)) (\<lambda>_. gret (Inr RespNone))))"

definition getNets :: "'o handler_result" where
  "getNets = gbind GetNetworks (\<lambda>n. case n of
      Inl e \<Rightarrow> http_error 500 e
    | Inr networks \<Rightarrow> gret (Inr (RespNetworks networks)))"

definition getNet :: "string \<Rightarrow> 'o handler_result" where
  "getNet name = gbind (GetNetwork name) (\<lambda>n. case n of
      Inl e \<Rightarrow> http_error 404 e
    | Inr network \<Rightarrow> gret (Inr (RespNetwork (Some network))))"

definition createNet :: "'o host \<Rightarrow> (Operation \<Rightarrow> string) \<Rightarrow> nat \<Rightarrow> http_request \<Rightarrow> 'o handler_result" where
  "createNet h render fuel r = (case rq_Body r of
      None \<Rightarrow> http_error 400 ''request body is empty''
    | Some body \<Rightarrow> (case Network_Decode body of
        Inl e \<Rightarrow> http_error 500 e
      | Inr network \<Rightarrow> (case ParseCIDR (nw_Subnet network) of
          None \<Rightarrow> http_error 500 (''invalid CIDR address: '' @ nw_Subnet network)
        | Some (_, cidr) \<Rightarrow> gbind (CreateNetwork h render fuel (nw_Name network) cidr) (\<lambda>(newNet, err). case err of
            Some e \<Rightarrow> http_error 500 e
          | None \<Rightarrow> gret (Inr (RespNetwork newNet))))))"

definition delNet :: "'o host \<Rightarrow> nat \<Rightarrow> string \<Rightarrow> 'o handler_result" where
  "delNet h fuel name = gbind (DeleteNetwork h fuel name) (\<lambda>err. case err of
      Some e \<Rightarrow> http_error 500 e
    | None \<Rightarrow> gret (Inr RespNone))"

definition send_cluster :: "NodeCtx \<Rightarrow> 'o world \<Rightarrow> 'o world" where
  "send_cluster c w = w\<lparr>w_daemon := (w_daemon w)\<lparr>d_clusterChan := d_clusterChan (w_daemon w) @ [c]\<rparr>\<rparr>"

definition joinCluster :: "http_request \<Rightarrow> 'o handler_result" where
  "joinCluster r =
     (if rq_RawQuery r = [] then http_error 400 ''address missing''
      else case ParseQuery (rq_RawQuery r) of
          None \<Rightarrow> http_error 400 ''parse query string error''
        | Some query \<Rightarrow> (case map_of query ''address'' of
            None \<Rightarrow> http_error 400 ''address parameter not exist''
          | Some addr \<Rightarrow>
              if addr = [] then http_error 400 ''address parameter not exist''
              else gbind (change (send_cluster \<lparr>nc_param = addr, nc_action = nodeJoin\<rparr>)) (\<lambda>_. gret (Inr RespNone))))"

definition leaveCluster :: "'o handler_result" where
  "leaveCluster = gbind (change (send_cluster \<lparr>nc_param = [], nc_action = nodeLeave\<rparr>)) (\<lambda>_. gret (Inr RespNone))"

definition getConns :: "'o handler_result" where
  "getConns = gbind (ask (\<lambda>w. map (\<lambda>(k, p). (k, w_heap w ! p)) (d_connections (w_daemon w)))) (\<lambda>cs. gret (Inr (RespConnections cs)))"

definition getConn :: "string \<Rightarrow> 'o handler_result" where
  "getConn containerId =
     gbind (ask (\<lambda>w. SafeMap_Get (d_connections (w_daemon w)) containerId)) (\<lambda>con. case con of
         None \<Rightarrow> http_error 404 containerId
       | Some p \<Rightarrow> gbind (ask (\<lambda>w. w_heap w ! p)) (\<lambda>c. gret (Inr (RespConnection c))))"

text \<open>A new object on the heap.\<close>

definition new_connection :: "Connection \<Rightarrow> ('o world, nat) go" where
  "new_connection c w = (Ret (length (w_heap w)), w\<lparr>w_heap := w_heap w @ [c]\<rparr>)"

definition createConn ::
  "'o host \<Rightarrow> (Operation \<Rightarrow> string) \<Rightarrow> (string \<Rightarrow> real option) \<Rightarrow> nat \<Rightarrow> http_request \<Rightarrow> 'o handler_result" where
  "createConn h render pf fuel r = (case rq_Body r of
      None \<Rightarrow> http_error 400 ''request body is empty''
    | Some body \<Rightarrow> (case Decode (Connection_field pf) Connection0 body of
        Inl e \<Rightarrow> http_error 500 e
      | Inr con \<Rightarrow>
          gbind (new_connection (if cn_Network con = [] then con\<lparr>cn_Network := defaultNetwork\<rparr> else con)) (\<lambda>p.
          gbind (connHandler h render fuel \<lparr>cc_Action = addConn, cc_Connection = p\<rparr>) (\<lambda>res.
          gbind (ask (\<lambda>w. w_heap w ! res)) (\<lambda>c.
            if cn_OvsPortID c = ''-1'' then http_error 400 ''resp body not valid''
            else gret (Inr (RespConnection c)))))))"

definition delConn :: "'o host \<Rightarrow> (Operation \<Rightarrow> string) \<Rightarrow> nat \<Rightarrow> string \<Rightarrow> 'o handler_result" where
  "delConn h render fuel containerId =
     gbind (ask (\<lambda>w. SafeMap_Get (d_connections (w_daemon w)) containerId)) (\<lambda>con. case con of
         None \<Rightarrow> http_error 404 ''container not found''
       | Some p \<Rightarrow> gbind (connHandler h render fuel \<lparr>cc_Action = deleteConn, cc_Connection = p\<rparr>) (\<lambda>_. gret (Inr RespNone)))"

definition createQos :: "'o host \<Rightarrow> http_request \<Rightarrow> string \<Rightarrow> 'o handler_result" where
  "createQos h r containerId =
     (let bw = rq_FormValue r ''bw''; delay = rq_FormValue r ''delay'' in
      if bw = [] \<and> delay = [] then http_error 400 ''bw and delay is empty''
      else gbind (ask (\<lambda>w. SafeMap_Check (d_connections (w_daemon w)) containerId)) (\<lambda>ok.
        if \<not> ok then http_error 404 ''container not found''
        else gbind (addQos h containerId bw delay) (\<lambda>err. case err of
            Some e \<Rightarrow> http_error 500 e
          | None \<Rightarrow> gret (Inr RespNone))))"

definition updateQos :: "'o host \<Rightarrow> http_request \<Rightarrow> string \<Rightarrow> 'o handler_result" where
  "updateQos h r containerId =
     (let bw = rq_FormValue r ''bw''; delay = rq_FormValue r ''delay'' in
      if bw = [] \<and> delay = [] then http_error 400 ''bw and delay is empty''
      else gbind (ask (\<lambda>w. SafeMap_Check (d_connections (w_daemon w)) containerId)) (\<lambda>ok.
        if \<not> ok then http_error 404 ''container not found''
        else gbind (changeQos h containerId bw delay) (\<lambda>err. case err of
            Some e \<Rightarrow> http_error 500 e
          | None \<Rightarrow> gret (Inr RespNone))))"

section \<open>The router\<close>

datatype HttpApiFunc =
    GetVersion | GetConf | GetNets | GetNet | GetConns | GetConn
  | SetConf | CreateNet | JoinCluster | LeaveCluster | CreateConn | CreateQos
  | UpdateQos | DelNet | DelConn

text \<open>Method, fixed part of the path, whether a variable \<^verbatim>\<open>{x:.*}\<close> follows it, and the handler.\<close>

definition routes :: "(string \<times> string \<times> bool \<times> HttpApiFunc) list" where
  "routes =
    [(''GET'', ''/version'', False, GetVersion), (''GET'', ''/configuration'', False, GetConf),
     (''GET'', ''/networks'', False, GetNets), (''GET'', ''/network/'', True, GetNet),
     (''GET'', ''/connections'', False, GetConns), (''GET'', ''/connection/'', True, GetConn),
     (''POST'', ''/configuration'', False, SetConf), (''POST'', ''/network'', False, CreateNet),
     (''POST'', ''/cluster/join'', False, JoinCluster), (''POST'', ''/cluster/leave'', False, LeaveCluster),
     (''POST'', ''/connection'', False, CreateConn), (''POST'', ''/qos/'', True, CreateQos),
     (''PUT'', ''/qos/'', True, UpdateQos),
     (''DELETE'', ''/network/'', True, DelNet), (''DELETE'', ''/connection/'', True, DelConn)]"

text \<open>The variable of a matching route; a dot does not match a line feed.\<close>

definition route_match :: "http_request \<Rightarrow> string \<times> string \<times> bool \<times> HttpApiFunc \<Rightarrow> string option" where
  "route_match r = (\<lambda>(meth, path, var, _).
     if rq_Method r \<noteq> meth then None
     else if \<not> var then (if rq_Path r = path then Some [] else None)
     else if take (length path) (rq_Path r) = path \<and> CHR 0x0A \<notin> set (drop (length path) (rq_Path r))
     then Some (drop (length path) (rq_Path r)) else None)"

definition matches :: "http_request \<Rightarrow> (string \<times> string \<times> bool \<times> HttpApiFunc) list \<Rightarrow> (HttpApiFunc \<times> string) list" where
  "matches r rs = List.map_filter (\<lambda>rt. map_option (Pair (snd (snd (snd rt)))) (route_match r rt)) rs"

definition cleanPath :: "string \<Rightarrow> string" where
  "cleanPath p =
     (if p = [] then ''/''
      else let p' = (if hd p \<noteq> CHR ''/'' then CHR ''/'' # p else p); np = path_Clean p'
           in if last p' = CHR ''/'' \<and> np \<noteq> ''/'' then np @ ''/'' else np)"

definition call :: "'o host \<Rightarrow> (Operation \<Rightarrow> string) \<Rightarrow> (string \<Rightarrow> real option) \<Rightarrow> nat \<Rightarrow> HttpApiFunc \<Rightarrow> string \<Rightarrow> http_request \<Rightarrow> 'o handler_result" where
  "call h render pf fuel fct v r = (case fct of
      GetVersion \<Rightarrow> getVersion | GetConf \<Rightarrow> getConf | GetNets \<Rightarrow> getNets | GetNet \<Rightarrow> getNet v
    | GetConns \<Rightarrow> getConns | GetConn \<Rightarrow> getConn v
    | SetConf \<Rightarrow> setConf r | CreateNet \<Rightarrow> createNet h render fuel r | JoinCluster \<Rightarrow> joinCluster r
    | LeaveCluster \<Rightarrow> leaveCluster | CreateConn \<Rightarrow> createConn h render pf fuel r | CreateQos \<Rightarrow> createQos h r v
    | UpdateQos \<Rightarrow> updateQos h r v | DelNet \<Rightarrow> delNet h fuel v | DelConn \<Rightarrow> delConn h render fuel v)"

text \<open>\<^verbatim>\<open>myHandler.ServeHTTP\<close>.\<close>

definition ServeHTTP :: "'o handler_result \<Rightarrow> ('o world, api_response) go" where
  "ServeHTTP m = gbind m (\<lambda>res. case res of
      Inl err \<Rightarrow> gret \<lparr>rs_Status = he_code err, rs_Body = RespText (he_message err @ [CHR 0x0A])\<rparr>
    | Inr body \<Rightarrow> gret \<lparr>rs_Status = 200, rs_Body = body\<rparr>)"

definition NotFoundHandler :: "http_request \<Rightarrow> ('o world, api_response) go" where
  "NotFoundHandler r = gret \<lparr>rs_Status = 404, rs_Body = RespText (rq_URL r @ '' not found'' @ [CHR 0x0A])\<rparr>"

text \<open>
  The server with the routes in the order in which they were registered, which is the order of a Go
  map and therefore a parameter.
\<close>

definition serve ::
  "'o host \<Rightarrow> (Operation \<Rightarrow> string) \<Rightarrow> (string \<Rightarrow> real option) \<Rightarrow> nat \<Rightarrow> (string \<times> string \<times> bool \<times> HttpApiFunc) list
   \<Rightarrow> http_request \<Rightarrow> ('o world, api_response) go" where
  "serve h render pf fuel rs r =
     (if cleanPath (rq_Path r) \<noteq> rq_Path r then gret \<lparr>rs_Status = 301, rs_Body = RespNone\<rparr>
      else case matches r rs of
          [] \<Rightarrow> NotFoundHandler r
        | (fct, v) # _ \<Rightarrow> ServeHTTP (call h render pf fuel fct v r))"

end
