(* ===== verification/ApiProps.thy ===== *)
theory ApiProps
  imports Api "HOL-Library.Multiset"
begin

text \<open>
  What is proved of the HTTP interface: the router does not depend on the order of its table, the
  statuses that occur, that reading changes nothing, and the life of a connection as a client sees it.
\<close>

section \<open>Routing\<close>

lemma route_match_Some:
  "route_match r (meth, path, var, f) = Some v \<Longrightarrow> rq_Method r = meth \<and> rq_Path r = path @ v \<and> (\<not> var \<longrightarrow> v = [])"
  by (auto simp: route_match_def split: if_splits) (metis append_take_drop_id)

text \<open>Whether two entries of the table can match one path under one method.\<close>

fun compatible :: "string \<times> string \<times> bool \<times> HttpApiFunc \<Rightarrow> string \<times> string \<times> bool \<times> HttpApiFunc \<Rightarrow> bool" where
  "compatible (m, p, b, _) (m', p', b', _) \<longleftrightarrow> m = m' \<and>
     (let n = min (length p) (length p') in take n p = take n p') \<and>
     (b \<or> length p' \<le> length p) \<and> (b' \<or> length p \<le> length p')"

lemma match_compatible:
  assumes "route_match r rt = Some v" and "route_match r rt' = Some v'"
  shows "compatible rt rt'"
proof -
  obtain m p b f where rt: "rt = (m, p, b, f)" by (cases rt)
  obtain m' p' b' f' where rt': "rt' = (m', p', b', f')" by (cases rt')
  have e: "m = m'" "p @ v = p' @ v'" "\<not> b \<longrightarrow> v = []" "\<not> b' \<longrightarrow> v' = []"
    using route_match_Some assms unfolding rt rt' by metis+
  have "take (min (length p) (length p')) p = take (min (length p) (length p')) (p @ v)" by simp
  also have "\<dots> = take (min (length p) (length p')) (p' @ v')" by (simp only: e(2))
  also have "\<dots> = take (min (length p) (length p')) p'" by simp
  finally have "take (min (length p) (length p')) p = take (min (length p) (length p')) p'" .
  moreover have "length p + length v = length p' + length v'" using arg_cong [OF e(2), of length] by simp
  ultimately show ?thesis using e by (auto simp: rt rt' Let_def)
qed

lemma routes_compatible: "list_all (\<lambda>rt. list_all (\<lambda>rt'. compatible rt rt' \<longrightarrow> rt = rt') routes) routes"
  by code_simp

lemma one_route:
  assumes "rt \<in> set routes" and "rt' \<in> set routes" and "route_match r rt = Some v" and "route_match r rt' = Some v'"
  shows "rt = rt'"
  using routes_compatible match_compatible [OF assms(3,4)] assms(1,2) by (simp add: list_all_iff)

lemma mset_eq_short: "mset xs = mset ys \<Longrightarrow> length ys \<le> 1 \<Longrightarrow> xs = ys"
  by (cases ys; cases "tl ys") auto

lemma distinct_routes: "distinct routes"
  by (simp add: routes_def)

lemma matches_filter: "matches r rs = map (\<lambda>rt. (snd (snd (snd rt)), the (route_match r rt))) (filter (\<lambda>rt. route_match r rt \<noteq> None) rs)"
  by (induction rs) (auto simp: matches_def List.map_filter_def)

lemma at_most_one: "length (filter (\<lambda>rt. route_match r rt \<noteq> None) routes) \<le> 1"
proof -
  let ?l = "filter (\<lambda>rt. route_match r rt \<noteq> None) routes"
  have eq: "x = y" if xy: "x \<in> set ?l" "y \<in> set ?l" for x y
  proof -
    obtain v v' where "route_match r x = Some v" "route_match r y = Some v'" using xy by (auto simp del: split_paired_All)
    then show ?thesis using one_route xy by (metis filter_is_subset subsetD)
  qed
  have d: "distinct ?l" by (rule distinct_filter [OF distinct_routes])
  show ?thesis
  proof (rule ccontr)
    assume "\<not> length ?l \<le> 1"
    then obtain x y l where l: "?l = x # y # l" by (metis Suc_le_length_iff One_nat_def not_less_eq_eq)
    then have "x = y" by (intro eq) (simp_all only: list.set_intros)
    with d show False unfolding l by simp
  qed
qed

text \<open>
  C20. The router does not depend on the order in which the routes were registered, that is, on the
  order in which Go iterates over the tables: every request gets the same answer and the same effect.
\<close>

theorem router_order_irrelevant:
  assumes "mset rs = mset routes"
  shows "serve h render pf fuel rs r = serve h render pf fuel routes r"
proof -
  let ?P = "\<lambda>rt. route_match r rt \<noteq> None"
  have "mset (filter ?P rs) = mset (filter ?P routes)" using assms by simp
  then have "filter ?P rs = filter ?P routes" using at_most_one [of r] by (rule mset_eq_short)
  then have "matches r rs = matches r routes" by (simp only: matches_filter)
  then show ?thesis by (simp add: serve_def)
qed

theorem router_order_irrelevant_witness:
  "(\<forall>r. serve host0 (\<lambda>_. []) (\<lambda>_. None) 1 (rev routes) r = serve host0 (\<lambda>_. []) (\<lambda>_. None) 1 routes r) \<and> rev routes \<noteq> routes"
  using router_order_irrelevant [of "rev routes" host0 "\<lambda>_. []" "\<lambda>_. None" 1] by (simp add: routes_def)

section \<open>Statuses\<close>

lemma gives_bind_dep: "gives Q m \<Longrightarrow> (\<And>x. Q x \<Longrightarrow> gives P (f x)) \<Longrightarrow> gives P (gbind m f)"
  unfolding gives_def gbind_def by (fastforce split: prod.splits outcome.splits)

definition proper :: "HttpErr + resp_body \<Rightarrow> bool" where
  "proper x = (case x of Inl e \<Rightarrow> he_code e \<in> {400, 404, 500} | Inr _ \<Rightarrow> True)"

lemma gives_http_error [gives_intro]: "c \<in> {400, 404, 500} \<Longrightarrow> gives proper (http_error c msg)"
  unfolding http_error_def by (intro gives_intro) (simp add: proper_def)

lemma gives_body [gives_intro]: "gives proper (gret (Inr b))"
  by (intro gives_intro) (simp add: proper_def)

lemma reads_proper:
  "gives proper getVersion" "gives proper getConf" "gives proper getNets" "gives proper (getNet v)" "gives proper getConns"
  "gives proper (getConn v)"
  unfolding getVersion_def getConf_def getNets_def getNet_def getConns_def getConn_def by (intro gives_intro; simp)+

lemma writes_proper:
  "gives proper (setConf r)" "gives proper (createNet h render fuel r)" "gives proper (joinCluster r)" "gives proper leaveCluster"
  "gives proper (createConn h render pf fuel r)" "gives proper (createQos h r v)" "gives proper (updateQos h r v)"
  "gives proper (delNet h fuel v)" "gives proper (delConn h render fuel v)"
  unfolding setConf_def createNet_def joinCluster_def leaveCluster_def createConn_def createQos_def updateQos_def delNet_def delConn_def Let_def
  by (intro gives_intro; simp)+

lemma call_proper: "gives proper (call h render pf fuel fct v r)"
  by (cases fct) (simp_all add: call_def reads_proper writes_proper)

text \<open>
  C29. Whatever the request and the state of host and store, a request that is answered gets one of the
  statuses 200, 301, 400, 404 and 500, and 301 only for a path that is not in canonical form.
\<close>

theorem statuses:
  assumes "serve h render pf fuel rs r w = (Ret resp, w')"
  shows "rs_Status resp \<in> {200, 301, 400, 404, 500} \<and> (rs_Status resp = 301 \<longleftrightarrow> cleanPath (rq_Path r) \<noteq> rq_Path r)"
proof (cases "cleanPath (rq_Path r) = rq_Path r")
  case False
  then show ?thesis using assms by (auto simp: serve_def gret_def)
next
  case True
  have "gives (\<lambda>x. rs_Status x \<in> {200, 400, 404, 500}) (ServeHTTP (call h render pf fuel fct v r))" for fct v
    unfolding ServeHTTP_def by (rule gives_bind_dep [OF call_proper]) (auto simp: gives_def gret_def proper_def split: sum.splits)
  then have "gives (\<lambda>x. rs_Status x \<in> {200, 400, 404, 500}) (case matches r rs of
      [] \<Rightarrow> NotFoundHandler r
    | (fct, v) # _ \<Rightarrow> ServeHTTP (call h render pf fuel fct v r))"
    by (auto split: list.split simp: gives_def gret_def NotFoundHandler_def)
  from givesD [OF this, of w resp w'] have "rs_Status resp \<in> {200, 400, 404, 500}"
    using assms True by (simp add: serve_def)
  then show ?thesis using True by auto
qed

definition get_version :: http_request where
  "get_version = \<lparr>rq_Method = ''GET'', rq_Path = ''/version'', rq_URL = ''/version'', rq_RawQuery = [], rq_Body = None, rq_FormValue = (\<lambda>_. [])\<rparr>"

lemma serve_version: "serve h render pf fuel routes get_version w = (Ret \<lparr>rs_Status = 200, rs_Body = RespText version\<rparr>, w)"
proof -
  have "cleanPath ''/version'' = ''/version''" by code_simp
  then show ?thesis
    by (simp add: serve_def get_version_def matches_def List.map_filter_def routes_def route_match_def ServeHTTP_def call_def getVersion_def gret_def)
qed

theorem statuses_witness:
  "serve host0 (\<lambda>_. []) (\<lambda>_. None) 1 routes get_version world0 = (Ret \<lparr>rs_Status = 200, rs_Body = RespText ''10.0''\<rparr>, world0) \<and>
   cleanPath ''/version'' = ''/version''"
  using statuses [OF serve_version [of host0 "\<lambda>_. []" "\<lambda>_. None" 1 world0]] serve_version [of host0 "\<lambda>_. []" "\<lambda>_. None" 1 world0]
  by (simp add: get_version_def version_def)

section \<open>Reading\<close>

definition reads :: "('o world, 'a) go \<Rightarrow> bool" where
  "reads m \<longleftrightarrow> (\<forall>w. \<exists>s. snd (m w) = w\<lparr>w_kv := s\<rparr> \<and> sched s = sched (w_kv w) \<and>
     (alone (w_kv w) \<longrightarrow> cluster s = cluster (w_kv w)))"

named_theorems reads_intro \<open>rules for calls that only read\<close>

lemma reads_refl: "(\<And>w. snd (m w) = w) \<Longrightarrow> reads m"
proof -
  assume m: "\<And>w. snd (m w) = w"
  show ?thesis unfolding reads_def
  proof
    fix w :: "'a world"
    show "\<exists>s. snd (m w) = w\<lparr>w_kv := s\<rparr> \<and> sched s = sched (w_kv w) \<and> (alone (w_kv w) \<longrightarrow> cluster s = cluster (w_kv w))"
      by (intro exI [of _ "w_kv w"]) (simp add: m)
  qed
qed

lemma reads_basic [reads_intro]: "reads (gret x)" "reads (ask f)" "reads (http_error c msg)"
  by (rule reads_refl; simp add: gret_def ask_def http_error_def)+

lemma reads_gbind [reads_intro]:
  assumes "reads m" and "\<And>x. reads (f x)"
  shows "reads (gbind m f)"
  unfolding reads_def
proof
  fix w :: "'a world"
  obtain s where s: "snd (m w) = w\<lparr>w_kv := s\<rparr>" "sched s = sched (w_kv w)" "alone (w_kv w) \<longrightarrow> cluster s = cluster (w_kv w)"
    using assms(1) unfolding reads_def by blast
  show "\<exists>s. snd (gbind m f w) = w\<lparr>w_kv := s\<rparr> \<and> sched s = sched (w_kv w) \<and> (alone (w_kv w) \<longrightarrow> cluster s = cluster (w_kv w))"
  proof (cases "fst (m w)")
    case (Ret x)
    obtain t where "snd (f x (w\<lparr>w_kv := s\<rparr>)) = w\<lparr>w_kv := t\<rparr>" "sched t = sched s" "alone s \<longrightarrow> cluster t = cluster s"
      using assms(2) [of x] unfolding reads_def by (metis (no_types, lifting) world.select_convs(1) world.surjective world.update_convs(1))
    then show ?thesis using Ret s by (intro exI [of _ t]) (auto simp: gbind_def alone_def split: prod.split)
  qed (use s in \<open>auto simp: gbind_def split: prod.split\<close>)
qed

lemma http_do_sched: "sched (snd (http_do req s)) = sched s"
  by (auto simp: http_do_def Let_def split: prod.split fault.split)

lemma reads_GetNetwork [reads_intro]: "reads (GetNetwork name)"
  unfolding reads_def
proof
  fix w :: "'a world"
  obtain v m ok s where "Get networkStore name (w_kv w) = (Ret (v, m, ok), s)" "sched s = sched (w_kv w)"
    by (rule Get_step [of networkStore name "w_kv w"])
  then have "snd (GetNetwork name w) = w\<lparr>w_kv := s\<rparr>" "sched s = sched (w_kv w)"
    by (auto simp: GetNetwork_def gbind_def on_kv_def gret_def)
  moreover have "alone (w_kv w) \<Longrightarrow> snd (GetNetwork name w) = w\<lparr>w_kv := tick (cluster (w_kv w)) (w_kv w)\<rparr>"
    by (simp add: GetNetwork_run)
  ultimately show "\<exists>s. snd (GetNetwork name w) = w\<lparr>w_kv := s\<rparr> \<and> sched s = sched (w_kv w) \<and> (alone (w_kv w) \<longrightarrow> cluster s = cluster (w_kv w))"
    by (intro exI [of _ s]) (auto dest!: arg_cong [where f = "\<lambda>w. cluster (w_kv w)"])
qed

lemma reads_GetNetworks [reads_intro]: "reads GetNetworks"
  unfolding reads_def
proof
  fix w :: "'a world"
  let ?s = "snd (http_do (HGetRecurse networkStore) (w_kv w))"
  have g: "snd (GetNetworks w) = w\<lparr>w_kv := ?s\<rparr>"
    by (auto simp: GetNetworks_def GetAll_def gbind_def on_kv_def gret_def Let_def split: prod.split outcome.split option.split if_split)
  moreover have "cluster ?s = cluster (w_kv w)" if al: "alone (w_kv w)"
  proof -
    obtain r where "GetNetworks w = (Ret r, w\<lparr>w_kv := tick (cluster (w_kv w)) (w_kv w)\<rparr>)" by (rule GetNetworks_run [OF al])
    then show ?thesis using g by (auto dest!: arg_cong [where f = "\<lambda>w. cluster (w_kv w)"])
  qed
  ultimately show "\<exists>s. snd (GetNetworks w) = w\<lparr>w_kv := s\<rparr> \<and> sched s = sched (w_kv w) \<and> (alone (w_kv w) \<longrightarrow> cluster s = cluster (w_kv w))"
    by (intro exI [of _ ?s]) (simp add: http_do_sched)
qed

lemma reads_cases [reads_intro]:
  "reads a \<Longrightarrow> (\<And>x. reads (b x)) \<Longrightarrow> reads (case v of None \<Rightarrow> a | Some x \<Rightarrow> b x)"
  "(\<And>x. reads (c x)) \<Longrightarrow> (\<And>x. reads (d x)) \<Longrightarrow> reads (case q of Inl x \<Rightarrow> c x | Inr x \<Rightarrow> d x)"
  by (auto split: option.split sum.split)

lemma reads_handlers:
  "reads getVersion" "reads getConf" "reads getNets" "reads (getNet v)" "reads getConns" "reads (getConn v)"
  unfolding getVersion_def getConf_def getNets_def getNet_def getConns_def getConn_def by (intro reads_intro)+

lemma GET_handlers:
  assumes "rq_Method r = ''GET''" and "(fct, v) \<in> set (matches r routes)"
  shows "fct \<in> {GetVersion, GetConf, GetNets, GetNet, GetConns, GetConn}"
proof -
  obtain rt where "rt \<in> set routes" "fct = snd (snd (snd rt))" "route_match r rt \<noteq> None"
    using assms(2) by (auto simp: matches_filter simp del: split_paired_All)
  then have "rt \<in> set routes" "fct = snd (snd (snd rt))" "fst rt = ''GET''"
    using assms(1) by (auto simp: route_match_def split: prod.splits if_splits)
  then show ?thesis by (auto simp: routes_def)
qed

text \<open>
  C21. A GET request changes nothing: not the state of the daemon, not the host, and, with nobody else
  at the store, not a single entry of the store.
\<close>

theorem GET_reads_only:
  assumes "rq_Method r = ''GET''"
  shows "\<exists>s. snd (serve h render pf fuel routes r w) = w\<lparr>w_kv := s\<rparr> \<and> (alone (w_kv w) \<longrightarrow> cluster s = cluster (w_kv w))"
proof -
  have "reads (ServeHTTP (call h render pf fuel fct v r))" if "(fct, v) \<in> set (matches r routes)" for fct v
  proof -
    have "reads (call h render pf fuel fct v r)"
      using GET_handlers [OF assms that] by (auto simp: call_def reads_handlers)
    then show ?thesis unfolding ServeHTTP_def by (intro reads_intro)
  qed
  then have "reads (serve h render pf fuel routes r)"
    unfolding serve_def NotFoundHandler_def by (cases "matches r routes") (auto intro!: reads_intro split: prod.split)
  then show ?thesis unfolding reads_def by blast
qed

theorem GET_reads_only_witness:
  "\<exists>s. snd (serve host0 (\<lambda>_. []) (\<lambda>_. None) 1 routes (get_version\<lparr>rq_Path := ''/network/green''\<rparr>) world_green) = world_green\<lparr>w_kv := s\<rparr> \<and>
    cluster s = cluster (w_kv world_green)"
  using GET_reads_only [of "get_version\<lparr>rq_Path := ''/network/green''\<rparr>" host0 "\<lambda>_. []" "\<lambda>_. None" 1 world_green] world_green_simps(2)
  by (auto simp: get_version_def)

section \<open>The life of a connection\<close>

abbreviation conns :: "'o world \<Rightarrow> (string \<times> nat) list" where
  "conns w \<equiv> d_connections (w_daemon w)"

lemma own_state_conns: "own_state w' = own_state w \<Longrightarrow> conns w' = conns w \<and> w_heap w' = w_heap w \<and> w_monitors w' = w_monitors w"
  by (simp add: own_state_def)

lemma addConnection_own: "addConnection h render fuel pid name ip w = (x, w') \<Longrightarrow> own_state w' = own_state w"
  using keepsD [OF own.keeps_connection(2) [of "own_state w"]] by blast

lemma deleteConnection_own: "deleteConnection h fuel c name w = (x, w') \<Longrightarrow> own_state w' = own_state w"
  using keepsD [OF own.keeps_connection(3) [of "own_state w"]] by blast

lemma connHandler_add:
  assumes "connHandler h render fuel \<lparr>cc_Action = addConn, cc_Connection = p\<rparr> w = (x, w')"
  obtains (added) d where "x = Ret p"
      "w_heap w' = (w_heap w)[p := (w_heap w ! p)\<lparr>cn_OvsPortID := oc_Name d, cn_ConnectionDetail := d\<rparr>]"
      "conns w' = snd (SafeMap_Set (conns w) (cn_ContainerID (w_heap w ! p)) p)" "w_monitors w' = w_monitors w @ [p]"
    | (refused) "x = Ret p" "w_heap w' = (w_heap w)[p := (w_heap w ! p)\<lparr>cn_OvsPortID := ''-1''\<rparr>]" "conns w' = conns w" "w_monitors w' = w_monitors w"
    | (ended) "\<forall>y. x \<noteq> Ret y" "own_state w' = own_state w"
proof -
  let ?c = "w_heap w ! p"
  obtain y w1 where a: "addConnection h render fuel (cn_ContainerPID ?c) (cn_Network ?c) (cn_RequestIp ?c) w = (y, w1)" by fastforce
  note o = own_state_conns [OF addConnection_own [OF a]]
  show ?thesis
  proof (cases y)
    case (Ret r)
    obtain d err where r: "r = (d, err)" by (cases r)
    show ?thesis
    proof (cases err)
      case None
      then have "x = Ret p" "w' = start_monitor p (on_connections (\<lambda>m. snd (SafeMap_Set m (cn_ContainerID ?c) p))
          (update_con p (\<lambda>con. con\<lparr>cn_OvsPortID := oc_Name d, cn_ConnectionDetail := d\<rparr>) w1))"
        using assms a Ret r by (auto simp: connHandler_def Let_def gbind_def go_run)
      then show ?thesis by (intro added [of d]) (simp_all add: start_monitor_def on_connections_def update_con_def o)
    next
      case (Some e)
      then have "x = Ret p" "w' = update_con p (\<lambda>con. con\<lparr>cn_OvsPortID := ''-1''\<rparr>) w1"
        using assms a Ret r by (auto simp: connHandler_def Let_def gbind_def go_run)
      then show ?thesis by (intro refused) (simp_all add: update_con_def o)
    qed
  next
    case (Panic e)
    then show ?thesis using assms a addConnection_own [OF a] by (intro ended) (auto simp: connHandler_def Let_def gbind_def go_run)
  next
    case NoFuel
    then show ?thesis using assms a addConnection_own [OF a] by (intro ended) (auto simp: connHandler_def Let_def gbind_def go_run)
  qed
qed

lemma connHandler_delete:
  assumes "connHandler h render fuel \<lparr>cc_Action = deleteConn, cc_Connection = p\<rparr> w = (x, w')"
  obtains (deleted) "x = Ret p" "w_heap w' = w_heap w" "conns w' = SafeMap_Delete (conns w) (cn_ContainerID (w_heap w ! p))"
      "w_monitors w' = w_monitors w"
    | (ended) "\<forall>y. x \<noteq> Ret y" "own_state w' = own_state w"
proof -
  let ?c = "w_heap w ! p"
  obtain y w1 where a: "deleteConnection h fuel (cn_ConnectionDetail ?c) (cn_Network ?c) w = (y, w1)" by fastforce
  note o = own_state_conns [OF deleteConnection_own [OF a]]
  show ?thesis
  proof (cases y)
    case (Ret r)
    then have "x = Ret p" "w' = on_connections (\<lambda>m. SafeMap_Delete m (cn_ContainerID ?c)) w1"
      using assms a by (auto simp: connHandler_def Let_def gbind_def go_run)
    then show ?thesis by (intro deleted) (simp_all add: on_connections_def o)
  next
    case (Panic e)
    then show ?thesis using assms a deleteConnection_own [OF a] by (intro ended) (auto simp: connHandler_def Let_def gbind_def go_run)
  next
    case NoFuel
    then show ?thesis using assms a deleteConnection_own [OF a] by (intro ended) (auto simp: connHandler_def Let_def gbind_def go_run)
  qed
qed

lemma createConn_cases:
  assumes "createConn h render pf fuel r w = (x, w')"
  obtains (rejected) e where "x = Ret (Inl e)" "w' = w"
    | (added) c y where "x = Ret y" "\<And>b. y = Inr b \<Longrightarrow> b = RespConnection c" "w_heap w' = w_heap w @ [c]"
      "conns w' = snd (SafeMap_Set (conns w) (cn_ContainerID c) (length (w_heap w)))" "w_monitors w' = w_monitors w @ [length (w_heap w)]"
      "cn_OvsPortID c = oc_Name (cn_ConnectionDetail c)"
    | (failed) c where "\<forall>b. x \<noteq> Ret (Inr b)" "w_heap w' = w_heap w @ [c]" "conns w' = conns w" "w_monitors w' = w_monitors w"
proof (cases "rq_Body r")
  case None
  then show ?thesis using assms by (intro rejected) (auto simp: createConn_def http_error_def gret_def)
next
  case (Some body)
  show ?thesis
  proof (cases "Decode (Connection_field pf) Connection0 body")
    case (Inl e)
    then show ?thesis using assms Some by (intro rejected) (auto simp: createConn_def http_error_def gret_def)
  next
    case (Inr con0)
    define con where "con = (if cn_Network con0 = [] then con0\<lparr>cn_Network := defaultNetwork\<rparr> else con0)"
    let ?p = "length (w_heap w)" and ?w1 = "w\<lparr>w_heap := w_heap w @ [con]\<rparr>"
    obtain y w2 where c: "connHandler h render fuel \<lparr>cc_Action = addConn, cc_Connection = ?p\<rparr> ?w1 = (y, w2)" by fastforce
    have run: "createConn h render pf fuel r w = gbind (\<lambda>_. (y, w2)) (\<lambda>res. gbind (ask (\<lambda>w. w_heap w ! res)) (\<lambda>c.
        if cn_OvsPortID c = ''-1'' then http_error 400 ''resp body not valid'' else gret (Inr (RespConnection c)))) w"
      using c by (simp add: createConn_def Some Inr new_connection_def con_def gbind_def)
    from c show ?thesis
    proof (cases rule: connHandler_add)
      case (added d)
      show ?thesis
        by (rule that(2) [where c = "con\<lparr>cn_OvsPortID := oc_Name d, cn_ConnectionDetail := d\<rparr>" and
            y = "if oc_Name d = ''-1'' then Inl \<lparr>he_code = 400, he_message = ''resp body not valid''\<rparr>
              else Inr (RespConnection (con\<lparr>cn_OvsPortID := oc_Name d, cn_ConnectionDetail := d\<rparr>))"])
           (use added assms run in \<open>auto simp: gbind_def go_run http_error_def list_update_append nth_append split: if_splits\<close>)
    next
      case refused
      show ?thesis
        by (rule that(3) [of "con\<lparr>cn_OvsPortID := ''-1''\<rparr>"])
           (use refused assms run in \<open>auto simp: gbind_def go_run http_error_def list_update_append nth_append\<close>)
    next
      case ended
      then show ?thesis using own_state_conns [OF ended(2)] assms run
        by (intro that(3) [of con]) (auto simp: gbind_def split: outcome.splits)
    qed
  qed
qed

lemma delConn_cases:
  assumes "delConn h render fuel containerId w = (x, w')"
  obtains (rejected) e where "x = Ret (Inl e)" "w' = w"
    | (deleted) p where "map_of (conns w) containerId = Some p" "x = Ret (Inr RespNone)" "w_heap w' = w_heap w"
      "conns w' = SafeMap_Delete (conns w) (cn_ContainerID (w_heap w ! p))" "w_monitors w' = w_monitors w"
    | (ended) "\<forall>y. x \<noteq> Ret y" "own_state w' = own_state w"
proof (cases "map_of (conns w) containerId")
  case None
  then show ?thesis using assms by (intro rejected) (auto simp: delConn_def gbind_def go_run http_error_def)
next
  case (Some p)
  obtain y w1 where c: "connHandler h render fuel \<lparr>cc_Action = deleteConn, cc_Connection = p\<rparr> w = (y, w1)" by fastforce
  from c show ?thesis
  proof (cases rule: connHandler_delete)
    case deleted
    then show ?thesis using assms Some c by (intro that(2) [OF Some]) (auto simp: delConn_def gbind_def go_run)
  next
    case ended
    then show ?thesis using assms Some c by (intro that(3)) (auto simp: delConn_def gbind_def go_run split: outcome.splits)
  qed
qed

text \<open>
  The table of connections is in order: no container twice, every entry points to an object of the heap
  that carries the container's identifier and the name of its port. So are the monitors: at most one
  for an object of the heap.
\<close>

definition conns_ok :: "'o world \<Rightarrow> bool" where
  "conns_ok w \<longleftrightarrow> distinct (map fst (conns w)) \<and>
     (\<forall>(k, p) \<in> set (conns w). p < length (w_heap w) \<and> cn_ContainerID (w_heap w ! p) = k \<and>
        cn_OvsPortID (w_heap w ! p) = oc_Name (cn_ConnectionDetail (w_heap w ! p))) \<and>
     distinct (w_monitors w) \<and> (\<forall>p \<in> set (w_monitors w). p < length (w_heap w))"

lemma getConn_run: "fst (getConn containerId w) = Ret (case map_of (conns w) containerId of
    None \<Rightarrow> Inl \<lparr>he_code = 404, he_message = containerId\<rparr> | Some p \<Rightarrow> Inr (RespConnection (w_heap w ! p)))"
  by (simp add: getConn_def gbind_def go_run http_error_def split: option.split)

lemma map_of_SafeMap_Set: "map_of (snd (SafeMap_Set m k v)) = (map_of m)(k \<mapsto> v)"
  using sm.get_set [of m k v] by simp

lemma map_of_SafeMap_Delete: "map_of (SafeMap_Delete m k) = (map_of m)(k := None)"
  using sm.get_del [of m k] by simp

text \<open>
  C9. A client that creates a connection and gets it back in the answer reads the same record under the
  container's identifier; after it deleted the connection the identifier is unknown, and in between
  and afterwards the connections of all other containers are what they were.
\<close>

theorem connection_life:
  assumes "conns_ok w" and "createConn h render pf fuel r w = (Ret (Inr b), w1)"
  shows "\<exists>c. b = RespConnection c \<and> fst (getConn (cn_ContainerID c) w1) = Ret (Inr (RespConnection c)) \<and>
    (\<forall>i. i \<noteq> cn_ContainerID c \<longrightarrow> fst (getConn i w1) = fst (getConn i w)) \<and>
    (\<forall>h' render' fuel' b' w2. delConn h' render' fuel' (cn_ContainerID c) w1 = (Ret (Inr b'), w2) \<longrightarrow>
       fst (getConn (cn_ContainerID c) w2) = Ret (Inl \<lparr>he_code = 404, he_message = cn_ContainerID c\<rparr>) \<and>
       (\<forall>i. i \<noteq> cn_ContainerID c \<longrightarrow> fst (getConn i w2) = fst (getConn i w)))"
  using assms(2)
proof (cases rule: createConn_cases)
  case (added c y)
  have old: "p < length (w_heap w)" if "map_of (conns w) i = Some p" for i p
    using assms(1) map_of_SomeD [OF that] unfolding conns_ok_def by blast
  have m1: "map_of (conns w1) = (map_of (conns w))(cn_ContainerID c \<mapsto> length (w_heap w))"
    using added(4) map_of_SafeMap_Set by metis
  show ?thesis
  proof (intro exI [of _ c] conjI allI impI)
    show "b = RespConnection c" using added(1,2) by simp
    show "fst (getConn (cn_ContainerID c) w1) = Ret (Inr (RespConnection c))" by (simp add: getConn_run m1 added(3))
    show "fst (getConn i w1) = fst (getConn i w)" if "i \<noteq> cn_ContainerID c" for i
      using that old [of i] by (auto simp: getConn_run m1 added(3) nth_append split: option.split)
    fix h' :: "'a host" and render' fuel' b' w2
    assume d: "delConn h' render' fuel' (cn_ContainerID c) w1 = (Ret (Inr b'), w2)"
    then obtain p where p: "map_of (conns w1) (cn_ContainerID c) = Some p" "w_heap w2 = w_heap w1"
      "conns w2 = SafeMap_Delete (conns w1) (cn_ContainerID (w_heap w1 ! p))"
      by (cases rule: delConn_cases) auto
    have "cn_ContainerID (w_heap w1 ! p) = cn_ContainerID c" using p(1) m1 added(3) by auto
    then have m2: "map_of (conns w2) = (map_of (conns w))(cn_ContainerID c := None)"
      by (simp add: p(3) map_of_SafeMap_Delete m1)
    show "fst (getConn (cn_ContainerID c) w2) = Ret (Inl \<lparr>he_code = 404, he_message = cn_ContainerID c\<rparr>)"
      by (simp add: getConn_run m2)
    show "fst (getConn i w2) = fst (getConn i w)" if "i \<noteq> cn_ContainerID c" for i
      using that old [of i] by (auto simp: getConn_run m2 p(2) added(3) nth_append split: option.split)
  qed
qed simp_all

definition conn_body :: string where
  "conn_body = ''{\"containerID\":\"c1\",\"containerPID\":\"4711\",\"network\":\"green\"}''"

definition post_conn :: http_request where
  "post_conn = \<lparr>rq_Method = ''POST'', rq_Path = ''/connection'', rq_URL = ''/connection'', rq_RawQuery = [], rq_Body = Some conn_body,
     rq_FormValue = (\<lambda>_. [])\<rparr>"

lemma Decode_conn_body: "Decode (Connection_field (\<lambda>_. None)) Connection0 conn_body =
    Inr (Connection0\<lparr>cn_ContainerID := ''c1'', cn_ContainerPID := ''4711'', cn_Network := ''green''\<rparr>)"
  by code_simp

lemma create_delete_green:
  obtains c w1 w2 where
    "createConn host0 (\<lambda>_. []) (\<lambda>_. None) (Suc 0) post_conn world_green = (Ret (Inr (RespConnection c)), w1)" "cn_ContainerID c = ''c1''"
    "delConn host0 (\<lambda>_. []) (Suc 0) ''c1'' w1 = (Ret (Inr RespNone), w2)"
proof -
  let ?con = "Connection0\<lparr>cn_ContainerID := ''c1'', cn_ContainerPID := ''4711'', cn_Network := ''green''\<rparr>"
  let ?v = "world_green\<lparr>w_heap := w_heap world_green @ [?con]\<rparr>" and ?d = "slot_connection green net24 ''ovs0000000'' 0"
  let ?c = "?con\<lparr>cn_OvsPortID := oc_Name ?d, cn_ConnectionDetail := ?d\<rparr>" and ?V = "vni_str (nw_VNI green)"
  have req: "cn_RequestIp Connection0 = []" by (simp add: Connection0_def)
  have start: "w_heap world_green = []" "conns world_green = []" by (simp_all add: world_green_def world0_def daemon0_def)
  have up: "w_kv ?v = w_kv world_green" "w_ovsClient ?v" using world_green_simps(3) by simp_all
  obtain w' where a: "addConnection host0 (\<lambda>_. []) (Suc 0) ''4711'' ''green'' [] ?v = (Ret (?d, None), w')"
    by (rule addConnection_green [OF host0_answers refl attach_port_host0 up])
  note own = own_state_conns [OF addConnection_own [OF a]] own_stateD(1) [OF addConnection_own [OF a]]
  define w1 where "w1 = start_monitor 0 (on_connections (\<lambda>m. snd (SafeMap_Set m ''c1'' 0))
    (update_con 0 (\<lambda>con. con\<lparr>cn_OvsPortID := oc_Name ?d, cn_ConnectionDetail := ?d\<rparr>) w'))"
  have w1: "w_heap w1 = [?c]" "map_of (conns w1) ''c1'' = Some 0" "w_kv w1 = w_kv w'" "w_ovsClient w1"
    using own start up(2) by (simp_all add: w1_def start_monitor_def on_connections_def update_con_def SafeMap_Set_def)
  have created: "createConn host0 (\<lambda>_. []) (\<lambda>_. None) (Suc 0) post_conn world_green = (Ret (Inr (RespConnection ?c)), w1)"
    using a w1(1) start own
    by (simp add: createConn_def post_conn_def Decode_conn_body new_connection_def connHandler_def gbind_def go_run req w1_def
        slot_connection_def)
  have vok: "w_ok ?v" "alone (w_kv ?v)" using world_green_simps(1,2) by (simp_all add: w_ok_def)
  have vnet: "value_at (cluster (w_kv ?v)) (key_path networkStore ''green'') = Some (Network_Marshal green)" using world_green_simps(4) by simp
  have vpool: "length (pool (cluster (w_kv ?v)) ?V net24) \<le> maxKVSize"
      "used (pool (cluster (w_kv ?v)) ?V net24) \<noteq> {..<8 * length (pool (cluster (w_kv ?v)) ?V net24)}"
    by (simp_all add: pool_green maxKVSize_def)
  obtain b where b: "value_at (cluster (w_kv w')) = (value_at (cluster (w_kv ?v)))(ip_path ?V net24 \<mapsto> b)" "length b = 32" "w_ok w'" "alone (w_kv w')"
    by (rule addConnection_store [OF vok _ vnet green_subnet v4_subnet_net24 vpool a]) (auto simp: pool_green)
  have ok1: "w_ok w1" "alone (w_kv w1)" using b(3,4) w1(3) by (simp_all add: w_ok_def)
  have net1: "value_at (cluster (w_kv w1)) (key_path networkStore ''green'') = Some (Network_Marshal green)" using vnet b(1) w1(3) by simp
  have pool1: "value_at (cluster (w_kv w1)) (ip_path ?V net24) = Some b" using b(1) w1(3) by simp
  have tr: "\<forall>ops s. fst (h_transact host0 ops s) \<noteq> None" by (simp add: host0_def)
  have nums: "10 \<le> (24 :: nat)" "0 + 1 < (2 :: nat) ^ (32 - 24)" "length b \<le> maxKVSize" "0 < 8 * length b"
    by (simp_all add: b(2) maxKVSize_def)
  obtain w2 where "deleteConnection host0 (Suc 0) ?d ''green'' w1 = (Ret None, w2)"
    by (rule deleteConnection_run [OF ok1 w1(4) tr net1 v4_subnet_net24 nums(1,2) pool1 nums(3,4)])
  then have "\<exists>w2. delConn host0 (\<lambda>_. []) (Suc 0) ''c1'' w1 = (Ret (Inr RespNone), w2)"
    using w1(1,2) by (simp add: delConn_def connHandler_def gbind_def go_run)
  with created that show ?thesis by auto
qed

theorem connection_life_witness:
  "\<exists>c w1 w2. createConn host0 (\<lambda>_. []) (\<lambda>_. None) 1 post_conn world_green = (Ret (Inr (RespConnection c)), w1) \<and>
    fst (getConn ''c1'' w1) = Ret (Inr (RespConnection c)) \<and>
    delConn host0 (\<lambda>_. []) 1 ''c1'' w1 = (Ret (Inr RespNone), w2) \<and>
    fst (getConn ''c1'' w2) = Ret (Inl \<lparr>he_code = 404, he_message = ''c1''\<rparr>)"
proof -
  obtain c w1 w2 where c: "createConn host0 (\<lambda>_. []) (\<lambda>_. None) (Suc 0) post_conn world_green = (Ret (Inr (RespConnection c)), w1)"
      "cn_ContainerID c = ''c1''" "delConn host0 (\<lambda>_. []) (Suc 0) ''c1'' w1 = (Ret (Inr RespNone), w2)"
    by (rule create_delete_green)
  have "conns_ok world_green" by (simp add: conns_ok_def world_green_def world0_def daemon0_def)
  from connection_life [OF this c(1)] c show ?thesis by auto
qed

end
