(* ===== verification/System.thy ===== *)
theory System
  imports ApiProps
begin

text \<open>
  The daemon as a whole: a step is one turn of one of its goroutines, one HTTP request, one
  notification of a watch or of the database, or a change of the host by somebody else. What other
  nodes commit to the store between and during the steps is part of the store's state. The
  steps interleave in any order; inside a step the other goroutines do not run. The handling of a node
  list and the bridge goroutine are steps as a whole and in the pieces into which \<open>Startup\<close> cuts them. A panic ends the
  process unless it happens in a handler of \<^verbatim>\<open>net/http\<close>; the relation goes on after every panic, so that
  it has more states than the program and an invariant of it is one of the program.
\<close>

section \<open>Steps\<close>

inductive step :: "'o host \<Rightarrow> (Operation \<Rightarrow> string) \<Rightarrow> (string \<Rightarrow> real option) \<Rightarrow> nat \<Rightarrow> 'o world \<Rightarrow> 'o world \<Rightarrow> bool"
  for h :: "'o host" and render :: "Operation \<Rightarrow> string" and pf :: "string \<Rightarrow> real option" and fuel :: nat where
  request: "serve h render pf fuel routes r w = (x, w') \<Longrightarrow> step h render pf fuel w w'"
| node_message: "d_clusterChan (w_daemon w) = c # cs \<Longrightarrow>
    nodeHandler h c (w\<lparr>w_daemon := (w_daemon w)\<lparr>d_clusterChan := cs\<rparr>\<rparr>) = (x, w') \<Longrightarrow> step h render pf fuel w w'"
| watch: "node_watch h a out w = (x, w') \<Longrightarrow> step h render pf fuel w w'"
| database: "Notifier_Update h updates w = (x, w') \<Longrightarrow> step h render pf fuel w w'"
| sync: "syncNetwork h render w = (x, w') \<Longrightarrow> step h render pf fuel w w'"
| monitor: "p \<in> set (w_monitors w) \<Longrightarrow> getInterfaceInfo h p 2 w = (x, w') \<Longrightarrow>
    step h render pf fuel w (if x = Ret True then w' else w'\<lparr>w_monitors := remove1 p (w_monitors w')\<rparr>)"
| start: "Run h ctx w = (x, w') \<Longrightarrow> step h render pf fuel w w'"
| agent: "Run_agent ctx iface early w = (x, w') \<Longrightarrow> step h render pf fuel w w'"
| bridge: "Run_bridge h w = (x, w') \<Longrightarrow> step h render pf fuel w w'"
| ready: "0 < d_readyChan (w_daemon w) \<Longrightarrow> Run_ready h render fuel w = (x, w') \<Longrightarrow> step h render pf fuel w w'"
| signal: "Run_signal h w = (x, w') \<Longrightarrow> step h render pf fuel w w'"
| plan: "plan_round a out (w_watch w) = Some (calls, st') \<Longrightarrow> step h render pf fuel w (w\<lparr>w_watch := st'\<rparr>)"
| mark: "step h render pf fuel w (mark_ready w)"
| peers: "Listener_peers h t a w = (x, w') \<Longrightarrow> step h render pf fuel w w'"
| default: "Run_default h render fuel w = (x, w') \<Longrightarrow> step h render pf fuel w w'"
| host: "step h render pf fuel w (w\<lparr>w_os := s\<rparr>)"

definition initial :: "'o world \<Rightarrow> bool" where
  "initial w \<longleftrightarrow> w_daemon w = NewDaemon \<and> w_heap w = [] \<and> w_monitors w = [] \<and> net_ok (w_kv w)"

inductive reachable :: "'o host \<Rightarrow> (Operation \<Rightarrow> string) \<Rightarrow> (string \<Rightarrow> real option) \<Rightarrow> nat \<Rightarrow> 'o world \<Rightarrow> bool"
  for h :: "'o host" and render :: "Operation \<Rightarrow> string" and pf :: "string \<Rightarrow> real option" and fuel :: nat where
  init: "initial w \<Longrightarrow> reachable h render pf fuel w"
| next_step: "reachable h render pf fuel w \<Longrightarrow> step h render pf fuel w w' \<Longrightarrow> reachable h render pf fuel w'"

section \<open>The store and the start-up state\<close>

text \<open>The calls around the handlers, for any property that they have in common.\<close>

lemma keeps_http_error [keeps_intro]: "keeps I (http_error c msg)"
  unfolding http_error_def by (intro keeps_intro)

lemma keeps_serve:
  assumes "\<And>fct v. keeps I (call h render pf fuel fct v r)"
  shows "keeps I (serve h render pf fuel rs r)"
  unfolding serve_def NotFoundHandler_def ServeHTTP_def by (intro keeps_intro assms)

lemma keeps_notify_all:
  assumes "\<And>n. keeps I (notify h n)"
  shows "keeps I (notify_all h ns)"
proof (induction ns)
  case (Cons n ns)
  show ?case unfolding notify_all.simps by (intro keeps_intro assms Cons)
qed (simp add: keeps_basic)

lemma keeps_monitorDockerBridge:
  assumes "\<And>b. keeps I (CreateOVSBridge h b)"
  shows "keeps I (monitorDockerBridge h us)"
proof -
  have rows: "keeps I (monitor_rows h rows)" for rows
  proof (induction rows)
    case (Cons row rows)
    obtain u x where row: "row = (u, x)" by (cases row)
    show ?case unfolding row monitor_rows.simps
      by (intro keeps_intro assms Cons) (auto simp: keeps_basic split: ovs_val.split intro!: keeps_intro assms)
  qed (simp add: keeps_basic)
  show ?thesis
  proof (induction us)
    case (Cons u us)
    obtain t x where u: "u = (t, x)" by (cases u)
    show ?case unfolding u monitorDockerBridge.simps by (intro keeps_intro rows Cons)
  qed (simp add: keeps_basic)
qed

context world_inv
begin

lemma sync_keeps:
  assumes g: "\<And>f. keeps I (change (set_gateways f))"
  shows "keeps I (syncNetwork h render)"
proof -
  have one: "keeps I (sync_add h render n)" for n unfolding sync_add_def by (intro keeps_intro g)
  have all: "keeps I (sync_add_all h render ns)" for ns
  proof (induction ns)
    case (Cons n ns)
    show ?case unfolding sync_add_all.simps by (intro keeps_intro one Cons)
  qed (simp add: keeps_basic)
  have rem: "keeps I (sync_remove h ns ks)" for ns ks
  proof (induction ks)
    case (Cons k ks)
    show ?case unfolding sync_remove.simps by (intro keeps_intro g Cons)
  qed (simp add: keeps_basic)
  show ?thesis unfolding syncNetwork_def by (intro keeps_intro all rem)
qed

end

text \<open>
  What the start of the daemon determines: the registry of watches, the mode, and whether the
  store has been seen to work. A property that depends on this and on the store only, and that K/V
  operations keep, is kept by everything except the agent's start and the turns of the watch.
\<close>

definition startup_state :: "'o world \<Rightarrow> unit watch_state \<times> bool \<times> bool" where
  "startup_state w = (w_watch w, d_isServer (w_daemon w), d_isReady (w_daemon w))"

lemma world_updates_kv [simp]:
  "w_kv (update_con p f w) = w_kv w" "w_kv (on_connections g w) = w_kv w" "w_kv (start_monitor p w) = w_kv w"
  "w_kv (send_cluster c w) = w_kv w" "w_kv (signal_ready w) = w_kv w" "w_kv (receive_ready w) = w_kv w"
  by (simp_all add: update_con_def on_connections_def start_monitor_def send_cluster_def signal_ready_def receive_ready_def)

lemma world_updates_startup [simp]:
  "startup_state (update_con p f w) = startup_state w" "startup_state (on_connections g w) = startup_state w"
  "startup_state (start_monitor p w) = startup_state w" "startup_state (send_cluster c w) = startup_state w"
  "startup_state (receive_ready w) = startup_state w" "startup_state (set_gateways u w) = startup_state w"
  "startup_state (w\<lparr>w_daemon := (w_daemon w)\<lparr>d_bridgeConf := b\<rparr>\<rparr>) = startup_state w"
  "startup_state (w\<lparr>w_daemon := (w_daemon w)\<lparr>d_clusterChan := cs\<rparr>\<rparr>) = startup_state w"
  "startup_state (w\<lparr>w_cache := t\<rparr>) = startup_state w" "startup_state (w\<lparr>w_os := s\<rparr>) = startup_state w"
  "startup_state (w\<lparr>w_monitors := ms\<rparr>) = startup_state w"
  by (simp_all add: startup_state_def update_con_def on_connections_def start_monitor_def send_cluster_def receive_ready_def
      set_gateways_def)

locale server_inv = world_inv I for I :: "'o world \<Rightarrow> bool" +
  assumes frame: "I w \<Longrightarrow> w_kv w' = w_kv w \<Longrightarrow> startup_state w' = startup_state w \<Longrightarrow> I w'"
begin

lemma kept_change [keeps_intro]:
  "(\<And>w. w_kv (f w) = w_kv w) \<Longrightarrow> (\<And>w. startup_state (f w) = startup_state w) \<Longrightarrow> keeps I (change f)"
  by (auto simp: keeps_def change_def intro: frame)

lemma kept_new_connection [keeps_intro]: "keeps I (new_connection c)"
  by (auto simp: keeps_def new_connection_def startup_state_def intro: frame)

lemma kept_connHandler [keeps_intro]: "keeps I (connHandler h render fuel c)"
  unfolding connHandler_def
  by (cases "cc_Action c"; simp only: conn_action.case; intro keeps_intro; simp)

lemma kept_qos [keeps_intro]:
  "keeps I (addQos h i bw delay)" "keeps I (changeQos h i bw delay)" "keeps I (getInterfaceInfo h p interval)"
  unfolding addQos_def changeQos_def in_container_def install_delay_def install_bw_def installQos_def getInterfaceInfo_def Let_def
  by (intro keeps_intro; simp)+

lemma kept_handlers:
  "keeps I getVersion" "keeps I getConf" "keeps I getNets" "keeps I (getNet v)" "keeps I getConns" "keeps I (getConn v)"
  "keeps I (setConf r)" "keeps I (createNet h render fuel r)" "keeps I (joinCluster r)" "keeps I leaveCluster"
  "keeps I (createConn h render pf fuel r)" "keeps I (createQos h r v)" "keeps I (updateQos h r v)"
  "keeps I (delNet h fuel v)" "keeps I (delConn h render fuel v)"
  unfolding getVersion_def getConf_def getNets_def getNet_def getConns_def getConn_def setConf_def createNet_def joinCluster_def
    leaveCluster_def createConn_def createQos_def updateQos_def delNet_def delConn_def Let_def
  by (intro keeps_intro; simp)+

lemma kept_call: "keeps I (call h render pf fuel fct v r)"
  by (cases fct) (simp_all add: call_def kept_handlers)

lemma kept_goroutines [keeps_intro]:
  "keeps I (nodeHandler h c)" "keeps I (Listener_peers h t a)" "keeps I (Run_bridge h)" "keeps I (Run_default h render fuel)"
  "keeps I (Run_signal h)" "keeps I (Notifier_Update h u)" "keeps I (syncNetwork h render)"
proof -
  show "keeps I (nodeHandler h c)"
    unfolding nodeHandler_def join_def leave_def by (cases "nc_action c"; simp only: node_action.case; intro keeps_intro)
  show "keeps I (syncNetwork h render)" by (intro sync_keeps keeps_intro) simp_all
  show "keeps I (Notifier_Update h u)"
    unfolding Notifier_Update_def by (intro keeps_intro keeps_monitorDockerBridge; simp)
  show "keeps I (Listener_peers h t a)" "keeps I (Run_bridge h)" "keeps I (Run_default h render fuel)" "keeps I (Run_signal h)"
    unfolding Listener_peers_def Run_bridge_def Run_default_def Run_signal_def Let_def by (intro keeps_intro)+
qed

end

interpretation wok: server_inv w_ok
  by unfold_locales (simp add: w_ok_def)

interpretation sup: server_inv "\<lambda>w. startup_state w = x" for x
  by unfold_locales (simp_all add: startup_state_def)

lemma keeps_on_watch [keeps_intro]: "keeps w_ok (on_watch m)"
  by (auto simp: keeps_def on_watch_def w_ok_def split: prod.split)

lemma ok_backend [keeps_intro]:
  "keeps w_ok (notify h n)" "keeps w_ok (Run h ctx)" "keeps w_ok (Run_agent ctx iface early)" "keeps w_ok (Run_ready h render fuel)"
proof -
  show "keeps w_ok (notify h n)"
    unfolding notify_def Listener_NotifyNodeUpdate_def by (cases n; simp only: notification.case; intro keeps_intro; simp)
  show "keeps w_ok (Run h ctx)" "keeps w_ok (Run_agent ctx iface early)" "keeps w_ok (Run_ready h render fuel)"
    unfolding Run_def Run_agent_def InitAgent_def Run_ready_def by (intro keeps_intro; simp)+
qed

interpretation cok: world_inv conns_ok
  by unfold_locales (simp_all add: conns_ok_def)

section \<open>The table of connections\<close>

lemma conns_ok_cong:
  "conns w' = conns w \<Longrightarrow> w_heap w' = w_heap w \<Longrightarrow> w_monitors w' = w_monitors w \<Longrightarrow> conns_ok w' = conns_ok w"
  by (simp add: conns_ok_def)

lemma cok_change:
  assumes "\<And>w. conns (f w) = conns w" and "\<And>w. w_heap (f w) = w_heap w" and "\<And>w. w_monitors (f w) = w_monitors w"
  shows "keeps conns_ok (change f)"
  using conns_ok_cong [OF assms] by (simp add: keeps_def change_def)

lemma cok_on_watch [keeps_intro]: "keeps conns_ok (on_watch m)"
  by (auto simp: keeps_def on_watch_def conns_ok_def split: prod.split)

lemma cok_update_con:
  assumes "\<And>c. cn_ContainerID (f c) = cn_ContainerID c" and "\<And>c. cn_OvsPortID (f c) = cn_OvsPortID c"
    and "\<And>c. cn_ConnectionDetail (f c) = cn_ConnectionDetail c"
  shows "keeps conns_ok (change (update_con p f))"
proof (rule keepsI)
  fix w :: "'a world" assume w: "conns_ok w"
  have same: "cn_ContainerID ((w_heap w)[p := f (w_heap w ! p)] ! q) = cn_ContainerID (w_heap w ! q)"
      "cn_OvsPortID ((w_heap w)[p := f (w_heap w ! p)] ! q) = cn_OvsPortID (w_heap w ! q)"
      "cn_ConnectionDetail ((w_heap w)[p := f (w_heap w ! p)] ! q) = cn_ConnectionDetail (w_heap w ! q)"
    if "q < length (w_heap w)" for q
    using that assms by (cases "p = q"; simp)+
  have "q < length (w_heap w)" if "(k, q) \<in> set (conns w)" for k q using w that by (auto simp: conns_ok_def)
  with w same show "conns_ok (snd (change (update_con p f) w))"
    by (auto simp: conns_ok_def change_def update_con_def)
qed

lemma cok_connections:
  fixes h :: "'o host"
  shows "keeps conns_ok (createConn h render pf fuel r)" "keeps conns_ok (delConn h render fuel v)"
proof -
  show "keeps conns_ok (createConn h render pf fuel r)"
  proof (rule keepsI)
    fix w :: "'o world" assume w: "conns_ok w"
    obtain x w' where c: "createConn h render pf fuel r w = (x, w')" by fastforce
    have old: "\<forall>(k, p) \<in> set (conns w). p < length (w_heap w)" "\<forall>p \<in> set (w_monitors w). p < length (w_heap w)"
      using w by (auto simp: conns_ok_def)
    from c have "conns_ok w'"
    proof (cases rule: createConn_cases)
      case rejected
      with w show ?thesis by simp
    next
      case (added c y)
      have d: "distinct (map fst (conns w'))" unfolding added(4) by (rule sm.invar_set) (use w in \<open>simp add: conns_ok_def\<close>)
      have "q < length (w_heap w') \<and> cn_ContainerID (w_heap w' ! q) = k \<and> cn_OvsPortID (w_heap w' ! q) = oc_Name (cn_ConnectionDetail (w_heap w' ! q))"
        if "(k, q) \<in> set (conns w')" for k q
      proof -
        have "map_of (conns w') k = Some q" using d that by simp
        then have "((map_of (conns w))(cn_ContainerID c \<mapsto> length (w_heap w))) k = Some q"
          unfolding added(4) map_of_SafeMap_Set .
        then consider "k = cn_ContainerID c" "q = length (w_heap w)" | "(k, q) \<in> set (conns w)"
          by (auto split: if_splits dest: map_of_SomeD)
        then show ?thesis using w old added(3,6) by cases (auto simp: conns_ok_def nth_append)
      qed
      moreover have "distinct (w_monitors w')" using w old(2) by (auto simp: conns_ok_def added(5))
      ultimately show ?thesis using d old(2) added(3,5) by (auto simp: conns_ok_def)
    next
      case (failed c)
      with w old show ?thesis by (auto simp: conns_ok_def nth_append)
    qed
    then show "conns_ok (snd (createConn h render pf fuel r w))" using c by simp
  qed
  show "keeps conns_ok (delConn h render fuel v)"
  proof (rule keepsI)
    fix w :: "'o world" assume w: "conns_ok w"
    obtain x w' where c: "delConn h render fuel v w = (x, w')" by fastforce
    then have "conns_ok w'"
    proof (cases rule: delConn_cases)
      case (deleted p)
      have "distinct (map fst (conns w'))" unfolding deleted(4) by (rule sm.invar_del) (use w in \<open>simp add: conns_ok_def\<close>)
      moreover have "set (conns w') \<subseteq> set (conns w)" unfolding deleted(4) SafeMap_Delete_def by (auto simp: AList.delete_eq)
      ultimately show ?thesis using w deleted(3,5) by (auto simp: conns_ok_def)
    next
      case ended
      then show ?thesis using w conns_ok_cong own_state_conns by metis
    qed (use w in simp)
    then show "conns_ok (snd (delConn h render fuel v w))" using c by simp
  qed
qed

lemma cok_qos [keeps_intro]:
  "keeps conns_ok (addQos h i bw delay)" "keeps conns_ok (changeQos h i bw delay)" "keeps conns_ok (getInterfaceInfo h p interval)"
  unfolding addQos_def changeQos_def in_container_def install_delay_def install_bw_def installQos_def getInterfaceInfo_def Let_def
  by (intro keeps_intro cok_update_con; simp)+

lemma cok_call: "keeps conns_ok (call h render pf fuel fct v r)"
proof -
  have "keeps conns_ok getVersion" "keeps conns_ok getConf" "keeps conns_ok getNets" "keeps conns_ok (getNet v)" "keeps conns_ok getConns"
      "keeps conns_ok (getConn v)" "keeps conns_ok (createNet h render fuel r)" "keeps conns_ok (createQos h r v)"
      "keeps conns_ok (updateQos h r v)" "keeps conns_ok (delNet h fuel v)"
    unfolding getVersion_def getConf_def getNets_def getNet_def getConns_def getConn_def createNet_def createQos_def updateQos_def
      delNet_def Let_def by (intro keeps_intro)+
  moreover have "keeps conns_ok (setConf r)" "keeps conns_ok (joinCluster r)" "keeps conns_ok leaveCluster"
    unfolding setConf_def joinCluster_def leaveCluster_def by (intro keeps_intro cok_change; simp add: send_cluster_def)+
  ultimately show ?thesis by (cases fct) (simp_all add: call_def cok_connections)
qed

lemma cok_backend [keeps_intro]:
  "keeps conns_ok (nodeHandler h c)" "keeps conns_ok (notify h n)" "keeps conns_ok (Run h ctx)" "keeps conns_ok (Run_agent ctx iface early)"
  "keeps conns_ok (Run_bridge h)" "keeps conns_ok (Run_ready h render fuel)" "keeps conns_ok (Run_signal h)"
  "keeps conns_ok (Listener_peers h t a)" "keeps conns_ok (Run_default h render fuel)"
proof -
  show "keeps conns_ok (nodeHandler h c)"
    unfolding nodeHandler_def join_def leave_def by (cases "nc_action c"; simp only: node_action.case; intro keeps_intro)
  show "keeps conns_ok (notify h n)"
    unfolding notify_def Listener_NotifyNodeUpdate_def Listener_peers_def Let_def
    by (cases n; simp only: notification.case; intro keeps_intro cok_change; simp add: signal_ready_def)
  show "keeps conns_ok (Run h ctx)" "keeps conns_ok (Run_agent ctx iface early)" "keeps conns_ok (Run_bridge h)"
    "keeps conns_ok (Run_ready h render fuel)" "keeps conns_ok (Run_signal h)"
    unfolding Run_def Run_agent_def InitAgent_def Run_bridge_def Run_ready_def Run_default_def Run_signal_def
    by (intro keeps_intro cok_change; simp add: receive_ready_def)+
  show "keeps conns_ok (Listener_peers h t a)" "keeps conns_ok (Run_default h render fuel)"
    unfolding Listener_peers_def Run_default_def Let_def by (intro keeps_intro)+
qed

lemma cok_sync: "keeps conns_ok (syncNetwork h render)"
  by (intro cok.sync_keeps cok_change) (simp_all add: set_gateways_def)

section \<open>Every reachable state is in order\<close>

lemma keeps_watch_database:
  "keeps w_ok (node_watch h a out)" "keeps conns_ok (node_watch h a out)" "keeps conns_ok (Notifier_Update h u)"
  unfolding node_watch_def Notifier_Update_def
  by (intro keeps_intro keeps_notify_all keeps_monitorDockerBridge cok_change; simp)+

lemma step_ok:
  assumes "step h render pf fuel w w'" and "w_ok w" and "conns_ok w"
  shows "w_ok w' \<and> conns_ok w'"
  using assms
proof (induction rule: step.induct)
  case (request r w x w')
  then show ?case using keepsD [OF keeps_serve [OF wok.kept_call]] keepsD [OF keeps_serve [OF cok_call]] by metis
next
  case (node_message w c cs x w')
  let ?v = "w\<lparr>w_daemon := (w_daemon w)\<lparr>d_clusterChan := cs\<rparr>\<rparr>"
  have "w_ok ?v" "conns_ok ?v" using node_message.prems by (simp_all add: w_ok_def conns_ok_def)
  then show ?case using keepsD [OF wok.kept_goroutines(1) _ node_message.hyps(2)] keepsD [OF cok_backend(1) _ node_message.hyps(2)] by blast
next
  case (watch a out w x w')
  then show ?case using keepsD [OF keeps_watch_database(1)] keepsD [OF keeps_watch_database(2)] by metis
next
  case (database updates w x w')
  then show ?case using keepsD [OF wok.kept_goroutines(6)] keepsD [OF keeps_watch_database(3)] by metis
next
  case (sync w x w')
  then show ?case using keepsD [OF keeps_syncNetwork] keepsD [OF cok_sync] by metis
next
  case (monitor p w x w')
  have "w_ok w'" "conns_ok w'"
    using monitor keepsD [OF wok.kept_qos(3)] keepsD [OF cok_qos(3)] by metis+
  then show ?case by (auto simp: w_ok_def conns_ok_def dest: notin_set_remove1)
next
  case (start ctx w x w')
  then show ?case using keepsD [OF ok_backend(2)] keepsD [OF cok_backend(3)] by metis
next
  case (agent ctx iface early w x w')
  then show ?case using keepsD [OF ok_backend(3)] keepsD [OF cok_backend(4)] by metis
next
  case (bridge w x w')
  then show ?case using keepsD [OF wok.kept_goroutines(3)] keepsD [OF cok_backend(5)] by metis
next
  case (ready w x w')
  then show ?case using keepsD [OF ok_backend(4)] keepsD [OF cok_backend(6)] by metis
next
  case (signal w x w')
  then show ?case using keepsD [OF wok.kept_goroutines(5)] keepsD [OF cok_backend(7)] by metis
next
  case (peers t a w x w')
  then show ?case using keepsD [OF wok.kept_goroutines(2)] keepsD [OF cok_backend(8)] by metis
next
  case (default w x w')
  then show ?case using keepsD [OF wok.kept_goroutines(4)] keepsD [OF cok_backend(9)] by metis
qed (simp_all add: w_ok_def conns_ok_def mark_ready_def)

lemma reachable_ok: "reachable h render pf fuel w \<Longrightarrow> w_ok w \<and> conns_ok w"
proof (induction rule: reachable.induct)
  case (init w)
  then show ?case by (simp add: initial_def NewDaemon_def NewSafeMap_def w_ok_def conns_ok_def)
next
  case (next_step w w')
  then show ?case using step_ok by blast
qed

text \<open>
  C3. In every state the daemon can reach, by any interleaving of requests, notifications, turns of
  its goroutines and changes of the host, the entries of the store it holds are well formed, no
  container is in the table of connections twice, and what a client reads under an identifier is
  the record of that container, with the name of its port. No connection object has two monitors, and
  monitors only work on connection objects that were made. (The object may be that of a deleted
  connection; when its container is connected again, the old object's monitor runs on beside the new one's.)
\<close>

theorem reachable_in_order:
  assumes "reachable h render pf fuel w"
  shows "net_ok (w_kv w) \<and> distinct (map fst (conns w)) \<and>
    (\<forall>i c. fst (getConn i w) = Ret (Inr (RespConnection c)) \<longrightarrow>
       cn_ContainerID c = i \<and> cn_OvsPortID c = oc_Name (cn_ConnectionDetail c)) \<and>
    distinct (w_monitors w) \<and> (\<forall>p \<in> set (w_monitors w). p < length (w_heap w))"
  using reachable_ok [OF assms] unfolding w_ok_def conns_ok_def
  by (auto simp: getConn_run split: option.splits dest!: map_of_SomeD)

text \<open>Two requests on an empty daemon: a connection is created and deleted again.\<close>

lemma reachable_green:
  obtains w1 w2 where "reachable host0 (\<lambda>_. []) (\<lambda>_. None) (Suc 0) w1" "reachable host0 (\<lambda>_. []) (\<lambda>_. None) (Suc 0) w2"
    "map_of (conns w1) ''c1'' = Some 0" "map_of (conns w2) ''c1'' = None" "w_monitors w2 = [0]" "cn_ContainerID (w_heap w2 ! 0) = ''c1''"
proof -
  let ?reach = "reachable host0 (\<lambda>_. []) (\<lambda>_. None) (Suc 0)"
  obtain c w1 w2 where c: "createConn host0 (\<lambda>_. []) (\<lambda>_. None) (Suc 0) post_conn world_green = (Ret (Inr (RespConnection c)), w1)"
      "cn_ContainerID c = ''c1''" "delConn host0 (\<lambda>_. []) (Suc 0) ''c1'' w1 = (Ret (Inr RespNone), w2)"
    by (rule create_delete_green)
  have start: "w_heap world_green = []" "conns world_green = []" "w_monitors world_green = []"
    by (simp_all add: world_green_def world0_def daemon0_def)
  have "initial world_green" using world_green_simps(1)
    by (simp add: initial_def world_green_def world0_def daemon0_def NewDaemon_def NewSafeMap_def w_ok_def)
  then have r: "?reach world_green" by (rule reachable.init)
  have "cleanPath ''/connection'' = ''/connection''" "cleanPath ''/connection/c1'' = ''/connection/c1''" by code_simp+
  then have s: "serve host0 (\<lambda>_. []) (\<lambda>_. None) (Suc 0) routes post_conn world_green = (Ret \<lparr>rs_Status = 200, rs_Body = RespConnection c\<rparr>, w1)"
      "serve host0 (\<lambda>_. []) (\<lambda>_. None) (Suc 0) routes (post_conn\<lparr>rq_Method := ''DELETE'', rq_Path := ''/connection/c1''\<rparr>) w1 =
        (Ret \<lparr>rs_Status = 200, rs_Body = RespNone\<rparr>, w2)"
    using c(1,3)
    by (simp_all add: serve_def post_conn_def matches_def List.map_filter_def routes_def route_match_def ServeHTTP_def call_def gbind_def gret_def)
  have w1: "?reach w1" by (rule reachable.next_step [OF r step.request [OF s(1)]])
  have w2: "?reach w2" by (rule reachable.next_step [OF w1 step.request [OF s(2)]])
  have m1: "map_of (conns w1) ''c1'' = Some 0" "w_heap w1 = [c]" "w_monitors w1 = [0]"
    using c(1,2) start by (auto elim!: createConn_cases simp: map_of_SafeMap_Set)
  have "map_of (conns w2) ''c1'' = None" "w_heap w2 = w_heap w1" "w_monitors w2 = w_monitors w1"
    using c(2,3) m1 by (auto elim!: delConn_cases simp: map_of_SafeMap_Delete)
  with that [OF w1 w2] m1 c(2) show ?thesis by simp
qed

theorem reachable_in_order_witness:
  "\<exists>w c. reachable host0 (\<lambda>_. []) (\<lambda>_. None) 1 w \<and> fst (getConn ''c1'' w) = Ret (Inr (RespConnection c)) \<and> cn_ContainerID c = ''c1''"
proof -
  obtain w1 where w1: "reachable host0 (\<lambda>_. []) (\<lambda>_. None) (Suc 0) w1" "map_of (conns w1) ''c1'' = Some 0" by (rule reachable_green)
  then obtain d where "fst (getConn ''c1'' w1) = Ret (Inr (RespConnection d))" by (auto simp: getConn_run)
  with reachable_in_order [OF w1(1)] w1(1) show ?thesis by auto
qed

section \<open>Monitors end\<close>

lemma from_index_None: "from_index sep s = None \<longleftrightarrow> (\<forall>a b. s \<noteq> a @ sep @ b)"
proof (induction s)
  case Nil
  then show ?case by (simp add: from_index.simps [of sep "[]"])
next
  case (Cons c s)
  have "take (length sep) (c # s) = sep \<longleftrightarrow> (\<exists>b. c # s = sep @ b)"
    by (metis append_eq_conv_conj append_take_drop_id)
  moreover have "(\<exists>a b. c # s = a @ sep @ b) \<longleftrightarrow> (\<exists>b. c # s = sep @ b) \<or> (\<exists>a b. s = a @ sep @ b)"
    by (metis append_Cons append_Nil neq_Nil_conv list.inject)
  ultimately show ?case using Cons.IH by (simp add: from_index.simps [of sep "c # s"]) metis
qed

text \<open>
  C40. The monitor of a connection that was deleted gets no further than its next turn, which changes
  nothing. But the turn looks for the port in the container's counters before it looks whether the
  connection is still there: when the port has been removed from the container, as deleting the
  connection does, the turn panics, and the daemon ends with it.
\<close>

theorem monitor_of_deleted_ends:
  assumes "reachable h render pf fuel w" and "p \<in> set (w_monitors w)"
    and "map_of (conns w) (cn_ContainerID (w_heap w ! p)) = None"
  shows "(\<exists>x. getInterfaceInfo h p 2 w = (x, w) \<and> x \<noteq> Ret True \<and>
      step h render pf fuel w (w\<lparr>w_monitors := remove1 p (w_monitors w)\<rparr>) \<and> p \<notin> set (remove1 p (w_monitors w))) \<and>
    (\<forall>ss. h_ReadFile h (''/hostproc/'' @ cn_ContainerPID (w_heap w ! p) @ ''/net/dev'') (w_os w) = Inr ss \<longrightarrow>
      (\<forall>a b. ss \<noteq> a @ cn_OvsPortID (w_heap w ! p) @ b) \<longrightarrow> getInterfaceInfo h p 2 w = (Panic slice_panic, w))"
proof (intro conjI allI impI)
  fix ss assume "h_ReadFile h (''/hostproc/'' @ cn_ContainerPID (w_heap w ! p) @ ''/net/dev'') (w_os w) = Inr ss"
    "\<forall>a b. ss \<noteq> a @ cn_OvsPortID (w_heap w ! p) @ b"
  then show "getInterfaceInfo h p 2 w = (Panic slice_panic, w)"
    by (simp add: getInterfaceInfo_def gbind_def go_run gcheck_def gpanic_def from_index_None [THEN iffD2])
next
  have "snd (getInterfaceInfo h p 2 w) = w \<and> fst (getInterfaceInfo h p 2 w) \<noteq> Ret True"
    using assms(3) by (auto simp: getInterfaceInfo_def gbind_def go_run SafeMap_Check_def Let_def gcheck_def gpanic_def gret_def
        split: sum.split option.split)
  then obtain x where x: "getInterfaceInfo h p 2 w = (x, w)" "x \<noteq> Ret True" by (metis prod.collapse)
  have "step h render pf fuel w (if x = Ret True then w else w\<lparr>w_monitors := remove1 p (w_monitors w)\<rparr>)"
    by (rule step.monitor [OF assms(2) x(1)])
  with x reachable_ok [OF assms(1)] show "\<exists>x. getInterfaceInfo h p 2 w = (x, w) \<and> x \<noteq> Ret True \<and>
      step h render pf fuel w (w\<lparr>w_monitors := remove1 p (w_monitors w)\<rparr>) \<and> p \<notin> set (remove1 p (w_monitors w))" by (auto simp: conns_ok_def)
qed

theorem monitor_of_deleted_ends_witness:
  "\<exists>w. reachable host0 (\<lambda>_. []) (\<lambda>_. None) 1 w \<and> w_monitors w = [0] \<and>
    (\<exists>x. getInterfaceInfo host0 0 2 w = (x, w) \<and> x \<noteq> Ret True \<and> step host0 (\<lambda>_. []) (\<lambda>_. None) 1 w (w\<lparr>w_monitors := []\<rparr>))"
proof -
  obtain w2 where w2: "reachable host0 (\<lambda>_. []) (\<lambda>_. None) (Suc 0) w2" "map_of (conns w2) ''c1'' = None" "w_monitors w2 = [0]"
      "cn_ContainerID (w_heap w2 ! 0) = ''c1''"
    by (rule reachable_green)
  with monitor_of_deleted_ends [OF w2(1), of 0] show ?thesis by auto
qed

end
