(* ===== verification/Startup.thy ===== *)
theory Startup
  imports System
begin

text \<open>
  The goroutines that \<^verbatim>\<open>Run\<close> (\<^verbatim>\<open>server/daemon.go\<close>) starts, with their program counters. The channel \<^verbatim>\<open>readyChan\<close>
  has no buffer: the listener that sends on it waits until the bridge goroutine receives, so a send and
  its receive are one step of both. A panic outside an HTTP handler ends the process. A signal deletes the
  bridge in one step and ends the process in a later one; the other goroutines run meanwhile. Every step is a step of \<open>System\<close>, which forgets the program counters.
\<close>

section \<open>Program counters\<close>

text \<open>The bridge goroutine: before \<^verbatim>\<open>CreateBridge\<close>, at \<^verbatim>\<open><-d.readyChan\<close>, behind it, and in \<^verbatim>\<open>syncNetwork\<close>.\<close>

datatype bridge_pc = Creating | Waiting | Received | Syncing

text \<open>
  The goroutine of a watch plan: with the calls of the listener still to be made, or inside
  \<^verbatim>\<open>NotifyNodeUpdate\<close> at its send or behind it.
\<close>

datatype watch_pc =
    Handling "notification list"
  | Sending NotifyUpdateType string "notification list"
  | Peers NotifyUpdateType string "notification list"

record 'o process =
  pr_world :: "'o world"
  pr_agent :: bool
  pr_bridge :: bridge_pc
  pr_watch :: "nat \<Rightarrow> watch_pc"
  pr_signal :: bool
  pr_exited :: bool

text \<open>The process after the last \<^verbatim>\<open>go\<close> statement of \<^verbatim>\<open>Run\<close>: nothing that it started has run.\<close>

definition process_start :: "'o world \<Rightarrow> 'o process" where
  "process_start w = \<lparr>pr_world = w, pr_agent = False, pr_bridge = Creating, pr_watch = (\<lambda>_. Handling []),
     pr_signal = False, pr_exited = False\<rparr>"

definition panics :: "'a outcome \<Rightarrow> bool" where
  "panics x = (case x of Panic _ \<Rightarrow> True | _ \<Rightarrow> False)"

section \<open>Steps\<close>

datatype turn = RequestServed | NodeMessage | DatabaseUpdate | MonitorTurn nat | HostChange

datatype run_event =
    Turn turn
  | AgentStarted
  | BridgeCreated
  | PlanTurn nat
  | ReadyMarked nat
  | ReadyReceived
  | is_PeerUpdate: PeerUpdate NotifyUpdateType string
  | is_ReadyToWork: ReadyToWork bool
  | DefaultCrashed
  | NetworksSynced
  | Interrupted
  | Exited

text \<open>
  The goroutines that are ready from the start: the API, the node handler, the notifications of the
  database and the monitors; the flag says whether the process ends. A panic in a handler is caught
  by \<^verbatim>\<open>net/http\<close>, one in the connection goroutine that it waits for is not.
\<close>

inductive background :: "'o host \<Rightarrow> (Operation \<Rightarrow> string) \<Rightarrow> (string \<Rightarrow> real option) \<Rightarrow> nat \<Rightarrow> 'o world \<Rightarrow> turn \<Rightarrow> bool \<Rightarrow> 'o world \<Rightarrow> bool"
  for h :: "'o host" and render :: "Operation \<Rightarrow> string" and pf :: "string \<Rightarrow> real option" and fuel :: nat where
  served: "serve h render pf fuel routes r w = (x, w') \<Longrightarrow> background h render pf fuel w RequestServed False w'"
| crashed: "serve h render pf fuel routes r w = (x, w') \<Longrightarrow> panics x \<Longrightarrow> background h render pf fuel w RequestServed True w'"
| node_message: "d_clusterChan (w_daemon w) = c # cs \<Longrightarrow>
    nodeHandler h c (w\<lparr>w_daemon := (w_daemon w)\<lparr>d_clusterChan := cs\<rparr>\<rparr>) = (x, w') \<Longrightarrow> background h render pf fuel w NodeMessage (panics x) w'"
| database: "Notifier_Update h updates w = (x, w') \<Longrightarrow> background h render pf fuel w DatabaseUpdate (panics x) w'"
| monitor: "p \<in> set (w_monitors w) \<Longrightarrow> getInterfaceInfo h p 2 w = (x, w') \<Longrightarrow>
    background h render pf fuel w (MonitorTurn p) (panics x) (if x = Ret True then w' else w'\<lparr>w_monitors := remove1 p (w_monitors w')\<rparr>)"
| host: "background h render pf fuel w HostChange False (w\<lparr>w_os := s\<rparr>)"

text \<open>
  A step of the process. The goroutine of the agent runs once; a plan's goroutine exists when the
  plan does. \<^verbatim>\<open>CreateDefaultNetwork\<close> has to return or panic (\<^term>\<open>NoFuel\<close> stands for a call that is still retrying); the event
  says whether it was called. The handler of signals takes the first one only: \<^verbatim>\<open>os.Exit\<close> follows.
\<close>

inductive process_step :: "'o host \<Rightarrow> (Operation \<Rightarrow> string) \<Rightarrow> (string \<Rightarrow> real option) \<Rightarrow> nat \<Rightarrow> cli_flags \<Rightarrow> 'o process \<Rightarrow> run_event \<Rightarrow> 'o process \<Rightarrow> bool"
  for h :: "'o host" and render :: "Operation \<Rightarrow> string" and pf :: "string \<Rightarrow> real option" and fuel :: nat and ctx :: cli_flags where
  turn: "\<not> pr_exited p \<Longrightarrow> background h render pf fuel (pr_world p) t b w' \<Longrightarrow>
    process_step h render pf fuel ctx p (Turn t) (p\<lparr>pr_world := w', pr_exited := b\<rparr>)"
| agent: "\<not> pr_exited p \<Longrightarrow> \<not> pr_agent p \<Longrightarrow> Run_agent ctx iface early (pr_world p) = (x, w') \<Longrightarrow>
    process_step h render pf fuel ctx p AgentStarted (p\<lparr>pr_world := w', pr_agent := True, pr_exited := panics x\<rparr>)"
| bridge: "\<not> pr_exited p \<Longrightarrow> pr_bridge p = Creating \<Longrightarrow> Run_bridge h (pr_world p) = (x, w') \<Longrightarrow>
    process_step h render pf fuel ctx p BridgeCreated (p\<lparr>pr_world := w', pr_bridge := Waiting, pr_exited := panics x\<rparr>)"
| plan: "\<not> pr_exited p \<Longrightarrow> pr_watch p a = Handling [] \<Longrightarrow> plan_round a out (w_watch (pr_world p)) = Some (calls, st') \<Longrightarrow>
    process_step h render pf fuel ctx p (PlanTurn a)
      (p\<lparr>pr_world := (pr_world p)\<lparr>w_watch := st'\<rparr>, pr_watch := (pr_watch p)(a := Handling (map snd calls))\<rparr>)"
| plan_panic: "\<not> pr_exited p \<Longrightarrow> pr_watch p a = Handling [] \<Longrightarrow> a < length (plans (w_watch (pr_world p))) \<Longrightarrow>
    plan_round a out (w_watch (pr_world p)) = None \<Longrightarrow> process_step h render pf fuel ctx p (PlanTurn a) (p\<lparr>pr_exited := True\<rparr>)"
| key_update: "\<not> pr_exited p \<Longrightarrow> pr_watch p a = Handling (NotifyKeyUpdate t k v # ns) \<Longrightarrow>
    process_step h render pf fuel ctx p (PlanTurn a) (p\<lparr>pr_watch := (pr_watch p)(a := Handling ns)\<rparr>)"
| is_ready: "\<not> pr_exited p \<Longrightarrow> pr_watch p a = Handling (NotifyNodeUpdate t ad # ns) \<Longrightarrow> d_isReady (w_daemon (pr_world p)) \<Longrightarrow>
    process_step h render pf fuel ctx p (PlanTurn a) (p\<lparr>pr_watch := (pr_watch p)(a := Peers t ad ns)\<rparr>)"
| mark: "\<not> pr_exited p \<Longrightarrow> pr_watch p a = Handling (NotifyNodeUpdate t ad # ns) \<Longrightarrow> \<not> d_isReady (w_daemon (pr_world p)) \<Longrightarrow>
    process_step h render pf fuel ctx p (ReadyMarked a)
      (p\<lparr>pr_world := mark_ready (pr_world p), pr_watch := (pr_watch p)(a := Sending t ad ns)\<rparr>)"
| receive: "\<not> pr_exited p \<Longrightarrow> pr_watch p a = Sending t ad ns \<Longrightarrow> pr_bridge p = Waiting \<Longrightarrow>
    process_step h render pf fuel ctx p ReadyReceived (p\<lparr>pr_bridge := Received, pr_watch := (pr_watch p)(a := Peers t ad ns)\<rparr>)"
| peers: "\<not> pr_exited p \<Longrightarrow> pr_watch p a = Peers t ad ns \<Longrightarrow> Listener_peers h t ad (pr_world p) = (x, w') \<Longrightarrow>
    process_step h render pf fuel ctx p (PeerUpdate t ad)
      (p\<lparr>pr_world := w', pr_watch := (pr_watch p)(a := Handling ns), pr_exited := panics x\<rparr>)"
| ready: "\<not> pr_exited p \<Longrightarrow> pr_bridge p = Received \<Longrightarrow> Run_default h render fuel (pr_world p) = (Ret made, w') \<Longrightarrow>
    process_step h render pf fuel ctx p (ReadyToWork made) (p\<lparr>pr_world := w', pr_bridge := Syncing\<rparr>)"
| ready_panic: "\<not> pr_exited p \<Longrightarrow> pr_bridge p = Received \<Longrightarrow> Run_default h render fuel (pr_world p) = (Panic e, w') \<Longrightarrow>
    process_step h render pf fuel ctx p DefaultCrashed (p\<lparr>pr_world := w', pr_exited := True\<rparr>)"
| sync: "\<not> pr_exited p \<Longrightarrow> pr_bridge p = Syncing \<Longrightarrow> syncNetwork h render (pr_world p) = (x, w') \<Longrightarrow>
    process_step h render pf fuel ctx p NetworksSynced (p\<lparr>pr_world := w', pr_exited := panics x\<rparr>)"
| interrupt: "\<not> pr_exited p \<Longrightarrow> \<not> pr_signal p \<Longrightarrow> Run_signal h (pr_world p) = (x, w') \<Longrightarrow>
    process_step h render pf fuel ctx p Interrupted (p\<lparr>pr_world := w', pr_signal := True, pr_exited := panics x\<rparr>)"
| exit: "\<not> pr_exited p \<Longrightarrow> pr_signal p \<Longrightarrow> process_step h render pf fuel ctx p Exited (p\<lparr>pr_exited := True\<rparr>)"

inductive process_run :: "'o host \<Rightarrow> (Operation \<Rightarrow> string) \<Rightarrow> (string \<Rightarrow> real option) \<Rightarrow> nat \<Rightarrow> cli_flags \<Rightarrow> run_event list \<Rightarrow> 'o process \<Rightarrow> bool"
  for h :: "'o host" and render :: "Operation \<Rightarrow> string" and pf :: "string \<Rightarrow> real option" and fuel :: nat and ctx :: cli_flags where
  start: "initial w \<Longrightarrow> w_watch w = watch_init \<Longrightarrow> Run h ctx w = (x, w') \<Longrightarrow> process_run h render pf fuel ctx [] (process_start w')"
| more: "process_run h render pf fuel ctx es p \<Longrightarrow> process_step h render pf fuel ctx p e p' \<Longrightarrow> process_run h render pf fuel ctx (es @ [e]) p'"

inductive_cases receive_cases: "process_step h render pf fuel ctx p ReadyReceived p'"
inductive_cases ready_cases: "process_step h render pf fuel ctx p (ReadyToWork made) p'"
inductive_cases bridge_cases: "process_step h render pf fuel ctx p BridgeCreated p'"

section \<open>Every step is a step of the system\<close>

lemma background_step: "background h render pf fuel w t b w' \<Longrightarrow> step h render pf fuel w w'"
  by (induction rule: background.induct) (blast intro: step.intros)+

lemma process_step_refines:
  "process_step h render pf fuel ctx p e p' \<Longrightarrow> pr_world p' = pr_world p \<or> step h render pf fuel (pr_world p) (pr_world p')"
  by (induction rule: process_step.induct) (auto intro: step.intros background_step)

lemma process_run_reachable: "process_run h render pf fuel ctx es p \<Longrightarrow> reachable h render pf fuel (pr_world p)"
proof (induction rule: process_run.induct)
  case (start w x w')
  then show ?case by (auto simp: process_start_def intro: reachable.intros step.start)
next
  case (more es p e p')
  then show ?case using process_step_refines reachable.next_step by metis
qed

section \<open>What the steps do to the start-up state\<close>

lemma background_startup: "background h render pf fuel w t b w' \<Longrightarrow> startup_state w' = startup_state w"
proof (induction rule: background.induct)
  case (served r w x w')
  then show ?case using keepsD [OF keeps_serve [OF sup.kept_call]] by blast
next
  case (crashed r w x w')
  then show ?case using keepsD [OF keeps_serve [OF sup.kept_call]] by blast
next
  case (node_message w c cs x w')
  then show ?case using keepsD [OF sup.kept_goroutines(1) _ node_message(2)] by fastforce
next
  case (database updates w x w')
  then show ?case using keepsD [OF sup.kept_goroutines(6)] by blast
next
  case (monitor p w x w')
  then have "startup_state w' = startup_state w" using keepsD [OF sup.kept_qos(3)] by blast
  then show ?case by simp
qed simp

lemmas goroutines_startup =
  keepsD [OF sup.kept_goroutines(2) refl] keepsD [OF sup.kept_goroutines(3) refl] keepsD [OF sup.kept_goroutines(4) refl]
  keepsD [OF sup.kept_goroutines(5) refl] keepsD [OF sup.kept_goroutines(7) refl]

lemma plan_round_plans: "plan_round a out st = Some (calls, st') \<Longrightarrow> a < length (plans st) \<and> length (plans st') = length (plans st)"
  by (auto simp: plan_round_def Let_def split: if_splits option.splits dest!: handler_keeps)

lemma RegisterForNodeUpdates_plans: "length (plans (RegisterForNodeUpdates l st)) \<le> Suc (length (plans st))"
  by (auto simp: RegisterForNodeUpdates_def addListener_def registerForNodeUpdates_def register_def addWatchPlan_def watch_Parse_def Let_def
      split: prod.splits option.splits if_splits)

lemma Run_agent_startup:
  assumes "Run_agent ctx iface early w = (x, w')" and "w_watch w = watch_init"
  shows "length (plans (w_watch w')) \<le> 1 \<and> d_isServer (w_daemon w') = d_isServer (w_daemon w) \<and> d_isReady (w_daemon w') = d_isReady (w_daemon w)"
proof -
  have "snd (StartAgent iface early s n b d watch_init) = (watch_init :: unit watch_state)" for s n b d
    by (auto simp: StartAgent_def watchForExistingRegisteredUpdates_def watch_init_def gpanic_def Let_def split: sum.split)
  then obtain y where "StartAgent iface early (d_isServer (w_daemon w)) (d_expServerNum (w_daemon w)) (fl_iface ctx) dataDir watch_init = (y, watch_init :: unit watch_state)"
    by (metis prod.collapse)
  moreover have "plans (watch_init :: unit watch_state) = []" by (simp add: watch_init_def)
  ultimately show ?thesis using assms RegisterForNodeUpdates_plans [of "()" watch_init]
    by (cases y) (auto simp: Run_agent_def InitAgent_def gbind_def go_run on_watch_def gret_def split: if_splits)
qed

section \<open>The order of events\<close>

fun precedes :: "(run_event \<Rightarrow> bool) \<Rightarrow> (run_event \<Rightarrow> bool) \<Rightarrow> run_event list \<Rightarrow> bool" where
  "precedes P Q [] = True"
| "precedes P Q (e # es) = (P e \<or> \<not> Q e \<and> precedes P Q es)"

lemma precedes_snoc: "precedes P Q (es @ [e]) \<longleftrightarrow> precedes P Q es \<and> (Q e \<longrightarrow> P e \<or> (\<exists>x \<in> set es. P x))"
  by (induction es) auto

text \<open>Who makes the default network, and what the step does.\<close>

lemma Run_default_Ret:
  assumes "Run_default h render fuel w = (Ret made, w')"
  shows "made = d_isServer (w_daemon w)" "made \<Longrightarrow> \<exists>r. CreateDefaultNetwork h render fuel w = (Ret r, w')" "\<not> made \<Longrightarrow> w' = w"
  using assms by (auto simp: Run_default_def ask_def gret_def elim!: gbind_RetE split: if_splits)

lemma Run_default_Panic: "Run_default h render fuel w = (Panic e, w') \<Longrightarrow> d_isServer (w_daemon w)"
  by (auto simp: Run_default_def gbind_def go_run gret_def split: if_splits)

text \<open>The program counters and the history of a run determine each other.\<close>

definition pc_inv :: "cli_flags \<Rightarrow> run_event list \<Rightarrow> 'o process \<Rightarrow> bool" where
  "pc_inv ctx es p \<longleftrightarrow>
     (AgentStarted \<in> set es \<longleftrightarrow> pr_agent p) \<and>
     (BridgeCreated \<in> set es \<longleftrightarrow> pr_bridge p \<noteq> Creating) \<and>
     (ReadyReceived \<in> set es \<longleftrightarrow> pr_bridge p \<in> {Received, Syncing}) \<and>
     (ReadyToWork (fl_server ctx) \<in> set es \<longleftrightarrow> pr_bridge p = Syncing) \<and>
     (Interrupted \<in> set es \<longleftrightarrow> pr_signal p) \<and>
     (Exited \<in> set es \<or> DefaultCrashed \<in> set es \<longrightarrow> pr_exited p)"

text \<open>
  There is one plan at most, and only after the agent's start. The daemon is marked as ready as
  soon as the goroutine of the plan is at its send, and the plan gets past the send only through the receive.
\<close>

definition watch_inv :: "cli_flags \<Rightarrow> 'o process \<Rightarrow> bool" where
  "watch_inv ctx p \<longleftrightarrow> (let w = pr_world p; received = (pr_bridge p \<in> {Received, Syncing}) in
     d_isServer (w_daemon w) = fl_server ctx \<and>
     (\<not> pr_agent p \<longrightarrow> w_watch w = watch_init) \<and>
     length (plans (w_watch w)) \<le> 1 \<and>
     (\<forall>a. length (plans (w_watch w)) \<le> a \<longrightarrow> pr_watch p a = Handling []) \<and>
     (case pr_watch p 0 of
        Handling ns \<Rightarrow> d_isReady (w_daemon w) = received
      | Sending t ad ns \<Rightarrow> d_isReady (w_daemon w) \<and> \<not> received
      | Peers t ad ns \<Rightarrow> d_isReady (w_daemon w) \<and> received))"

lemma watch_inv_only_plan: "watch_inv ctx p \<Longrightarrow> pr_watch p a \<noteq> Handling [] \<Longrightarrow> a = 0"
  by (metis watch_inv_def le_numeral_extra(4) less_one linorder_not_le order_trans)

lemma watch_inv_cong:
  assumes "startup_state (pr_world p') = startup_state (pr_world p)" and "pr_agent p' = pr_agent p" and "pr_watch p' = pr_watch p"
    and "pr_bridge p' \<in> {Received, Syncing} \<longleftrightarrow> pr_bridge p \<in> {Received, Syncing}"
  shows "watch_inv ctx p' = watch_inv ctx p"
  using assms unfolding watch_inv_def startup_state_def Let_def by (simp split: watch_pc.split)

lemma watch_inv_step:
  assumes "process_step h render pf fuel ctx p e p'" and "watch_inv ctx p"
  shows "watch_inv ctx p'"
  using assms
proof (induction rule: process_step.induct)
  case (turn p t b w')
  then show ?case using background_startup [OF turn(2)] by (subst watch_inv_cong [of _ p]) simp_all
next
  case (agent p iface early x w')
  have "pr_watch p a = Handling []" for a using agent by (simp add: watch_inv_def watch_init_def Let_def)
  with agent Run_agent_startup [OF agent(3)] show ?case by (simp add: watch_inv_def Let_def)
next
  case (bridge p x w')
  then show ?case using goroutines_startup(2) [OF bridge(3)] by (subst watch_inv_cong [of _ p]) simp_all
next
  case (plan p a out calls st')
  then have "a = 0" "\<not> (\<not> pr_agent p)" using plan_round_plans [OF plan(3)] by (auto simp: watch_inv_def Let_def watch_init_def)
  with plan plan_round_plans [OF plan(3)] show ?case by (auto simp: watch_inv_def Let_def)
next
  case (plan_panic p a out)
  then show ?case by (simp add: watch_inv_def Let_def)
next
  case (key_update p a t k v ns)
  then have "a = 0" using watch_inv_only_plan by fastforce
  with key_update show ?case by (auto simp: watch_inv_def Let_def)
next
  case (is_ready p a t ad ns)
  then have "a = 0" using watch_inv_only_plan by fastforce
  with is_ready show ?case by (auto simp: watch_inv_def Let_def)
next
  case (mark p a t ad ns)
  then have "a = 0" using watch_inv_only_plan by fastforce
  with mark show ?case by (auto simp: watch_inv_def Let_def mark_ready_def)
next
  case (receive p a t ad ns)
  then have "a = 0" using watch_inv_only_plan by fastforce
  with receive show ?case by (auto simp: watch_inv_def Let_def)
next
  case (peers p a t ad ns x w')
  then have "a = 0" using watch_inv_only_plan by fastforce
  with peers goroutines_startup(1) [OF peers(3)] show ?case by (auto simp: watch_inv_def Let_def startup_state_def)
next
  case (ready p made w')
  then show ?case using goroutines_startup(3) [OF ready(3)] by (subst watch_inv_cong [of _ p]) simp_all
next
  case (ready_panic p e w')
  then show ?case using goroutines_startup(3) [OF ready_panic(3)] by (subst watch_inv_cong [of _ p]) simp_all
next
  case (sync p x w')
  then show ?case using goroutines_startup(5) [OF sync(3)] by (subst watch_inv_cong [of _ p]) simp_all
next
  case (interrupt p x w')
  then show ?case using goroutines_startup(4) [OF interrupt(3)] by (subst watch_inv_cong [of _ p]) simp_all
next
  case (exit p)
  then show ?case by (simp add: watch_inv_def Let_def)
qed

lemma pc_inv_step:
  assumes "process_step h render pf fuel ctx p e p'" and "watch_inv ctx p" and "pc_inv ctx es p"
  shows "pc_inv ctx (es @ [e]) p'"
  using assms by (induction rule: process_step.induct) (auto simp: pc_inv_def watch_inv_def Let_def dest: Run_default_Ret(1))

lemma process_run_inv: "process_run h render pf fuel ctx es p \<Longrightarrow> watch_inv ctx p \<and> pc_inv ctx es p"
proof (induction rule: process_run.induct)
  case (start w x w')
  then have "w_watch w' = watch_init" "d_isServer (w_daemon w') = fl_server ctx" "\<not> d_isReady (w_daemon w')"
    by (auto simp: Run_def gbind_def go_run on_os_def gret_def initial_def NewDaemon_def split: prod.splits)
  then show ?case by (simp add: watch_inv_def pc_inv_def process_start_def watch_init_def Let_def)
next
  case (more es p e p')
  then show ?case using watch_inv_step pc_inv_step by blast
qed

lemma watch_inv_agent: "watch_inv ctx p \<Longrightarrow> pr_watch p a \<noteq> Handling [] \<Longrightarrow> pr_agent p"
  by (auto simp: watch_inv_def Let_def watch_init_def)

lemma watch_inv_peers: "watch_inv ctx p \<Longrightarrow> pr_watch p a = Peers t ad ns \<Longrightarrow> pr_bridge p \<in> {Received, Syncing}"
  using watch_inv_only_plan [of ctx p a] by (auto simp: watch_inv_def Let_def)

text \<open>What has happened before a step can be taken.\<close>

lemma process_step_enabled:
  assumes "process_step h render pf fuel ctx p e p'" and "watch_inv ctx p" and "pc_inv ctx es p"
  shows "Exited \<notin> set es \<and> DefaultCrashed \<notin> set es" "e = AgentStarted \<Longrightarrow> e \<notin> set es" "e = BridgeCreated \<Longrightarrow> e \<notin> set es"
    "e = Interrupted \<Longrightarrow> e \<notin> set es" "e = Exited \<Longrightarrow> Interrupted \<in> set es"
    "e = ReadyReceived \<Longrightarrow> e \<notin> set es \<and> AgentStarted \<in> set es \<and> BridgeCreated \<in> set es"
    "is_PeerUpdate e \<Longrightarrow> ReadyReceived \<in> set es"
    "is_ReadyToWork e \<Longrightarrow> e = ReadyToWork (fl_server ctx) \<and> e \<notin> set es \<and> ReadyReceived \<in> set es"
    "e = DefaultCrashed \<Longrightarrow> fl_server ctx \<and> ReadyReceived \<in> set es"
    "e = NetworksSynced \<Longrightarrow> ReadyToWork (fl_server ctx) \<in> set es"
proof -
  show "Exited \<notin> set es \<and> DefaultCrashed \<notin> set es" "e = AgentStarted \<Longrightarrow> e \<notin> set es" "e = BridgeCreated \<Longrightarrow> e \<notin> set es"
    "e = Interrupted \<Longrightarrow> e \<notin> set es" "e = Exited \<Longrightarrow> Interrupted \<in> set es"
    "e = NetworksSynced \<Longrightarrow> ReadyToWork (fl_server ctx) \<in> set es"
    using assms(1,3) by (auto simp: pc_inv_def elim: process_step.cases)
  show "e = ReadyReceived \<Longrightarrow> e \<notin> set es \<and> AgentStarted \<in> set es \<and> BridgeCreated \<in> set es"
  proof -
    assume e: "e = ReadyReceived"
    obtain a t ad ns where "pr_watch p a = Sending t ad ns" "pr_bridge p = Waiting" using assms(1) e by (auto elim: receive_cases)
    with watch_inv_agent [OF assms(2), of a] assms(3) e show ?thesis by (simp add: pc_inv_def)
  qed
  show "ReadyReceived \<in> set es" if e: "is_PeerUpdate e"
  proof -
    obtain a t ad ns where "pr_watch p a = Peers t ad ns" using assms(1) e by cases auto
    with watch_inv_peers [OF assms(2)] assms(3) show ?thesis by (simp add: pc_inv_def)
  qed
  show "e = ReadyToWork (fl_server ctx) \<and> e \<notin> set es \<and> ReadyReceived \<in> set es" if "is_ReadyToWork e"
    using assms(1) that
  proof cases
    case (ready made w')
    with assms(2,3) Run_default_Ret(1) [OF ready(5)] show ?thesis by (simp add: pc_inv_def watch_inv_def Let_def)
  qed simp_all
  show "fl_server ctx \<and> ReadyReceived \<in> set es" if "e = DefaultCrashed"
    using assms(1) that
  proof cases
    case (ready_panic e w')
    with assms(2,3) Run_default_Panic [OF ready_panic(5)] show ?thesis by (simp add: pc_inv_def watch_inv_def Let_def)
  qed simp_all
qed

text \<open>The order that the start keeps, as a property of the history.\<close>

definition startup_ordered :: "bool \<Rightarrow> run_event list \<Rightarrow> bool" where
  "startup_ordered server es \<longleftrightarrow>
     precedes (\<lambda>e. e = AgentStarted) (\<lambda>e. e = ReadyReceived) es \<and>
     precedes (\<lambda>e. e = BridgeCreated) (\<lambda>e. e = ReadyReceived) es \<and>
     precedes (\<lambda>e. e = ReadyReceived) is_PeerUpdate es \<and>
     precedes (\<lambda>e. e = ReadyReceived) is_ReadyToWork es \<and>
     precedes (\<lambda>e. e = ReadyToWork server) (\<lambda>e. e = NetworksSynced) es \<and>
     precedes (\<lambda>e. e = ReadyReceived) (\<lambda>e. e = DefaultCrashed) es \<and>
     precedes (\<lambda>e. e = Interrupted) (\<lambda>e. e = Exited) es \<and>
     (\<forall>e \<in> {AgentStarted, BridgeCreated, ReadyReceived, ReadyToWork server, Interrupted}. count_list es e \<le> 1) \<and>
     ReadyToWork (\<not> server) \<notin> set es \<and> (DefaultCrashed \<in> set es \<longrightarrow> server) \<and>
     Exited \<notin> set (butlast es) \<and> DefaultCrashed \<notin> set (butlast es)"

lemma startup_ordered_snoc:
  assumes "process_step h render pf fuel ctx p e p'" and "watch_inv ctx p" and "pc_inv ctx es p" and "startup_ordered (fl_server ctx) es"
  shows "startup_ordered (fl_server ctx) (es @ [e])"
proof -
  note en = process_step_enabled [OF assms(1-3)]
  have "count_list (es @ [e]) x \<le> 1" if "x \<in> {AgentStarted, BridgeCreated, ReadyReceived, ReadyToWork (fl_server ctx), Interrupted}" for x
    using that assms(4) en(2-4,6,8) unfolding startup_ordered_def by (cases "x = e") (auto simp: count_list_0_iff)
  moreover have "ReadyToWork (\<not> fl_server ctx) \<notin> set (es @ [e])" using assms(4) en(8) by (auto simp: startup_ordered_def)
  ultimately show ?thesis using assms(4) en(1,5-10) unfolding startup_ordered_def by (auto simp: precedes_snoc)
qed

text \<open>
  C6. The daemon starts in order, whatever the goroutines of \<^verbatim>\<open>Run\<close> and the requests of clients do in the
  meantime: the signal that the store works is received once, and only after the agent was started
  and the bridge creation has been tried; no tunnel is added or removed before that; \<^verbatim>\<open>CreateDefaultNetwork\<close> is
  called once, after the signal, by a server, and by no other node, whose world that step leaves
  alone; the networks are reconciled only after that. A signal deletes the bridge once before
  the process exits; other goroutines may still run in between, but nothing happens after the exit or
  after a panic in \<^verbatim>\<open>CreateDefaultNetwork\<close>. Every state on the way is a reachable state of the system.
\<close>

theorem startup_order:
  assumes "process_run h render pf fuel ctx es p"
  shows "startup_ordered (fl_server ctx) es \<and> reachable h render pf fuel (pr_world p) \<and>
    (\<forall>made p'. process_step h render pf fuel ctx p (ReadyToWork made) p' \<longrightarrow> made = fl_server ctx \<and>
      (if fl_server ctx then \<exists>r. CreateDefaultNetwork h render fuel (pr_world p) = (Ret r, pr_world p') else pr_world p' = pr_world p))"
proof (intro conjI process_run_reachable [OF assms])
  show "startup_ordered (fl_server ctx) es"
    using assms
  proof (induction rule: process_run.induct)
    case (more es p e p')
    then show ?case using process_run_inv startup_ordered_snoc by blast
  qed (simp add: startup_ordered_def)
  have server: "d_isServer (w_daemon (pr_world p)) = fl_server ctx"
    using process_run_inv [OF assms] by (simp add: watch_inv_def Let_def)
  show "\<forall>made p'. process_step h render pf fuel ctx p (ReadyToWork made) p' \<longrightarrow> made = fl_server ctx \<and>
      (if fl_server ctx then \<exists>r. CreateDefaultNetwork h render fuel (pr_world p) = (Ret r, pr_world p') else pr_world p' = pr_world p)"
  proof (intro allI impI)
    fix made p'
    assume "process_step h render pf fuel ctx p (ReadyToWork made) p'"
    then obtain w' where "Run_default h render fuel (pr_world p) = (Ret made, w')" "pr_world p' = w'"
      by (auto elim: ready_cases)
    with Run_default_Ret [of h render fuel "pr_world p" made w'] server show "made = fl_server ctx \<and>
      (if fl_server ctx then \<exists>r. CreateDefaultNetwork h render fuel (pr_world p) = (Ret r, pr_world p') else pr_world p' = pr_world p)" by auto
  qed
qed

text \<open>A node on the host where every call succeeds, up to the send of its listener and past it.\<close>

definition flags_client :: cli_flags where
  "flags_client = \<lparr>fl_iface = [], fl_server = False, fl_expectedServerNum = ''1''\<rparr>"

lemma run_to_send:
  obtains p where "process_run host0 render pf fuel flags_client [AgentStarted, PlanTurn 0, ReadyMarked 0] p"
    "pr_watch p 0 = Sending NOTIFY_UPDATE_ADD ''10.0.0.9'' []" "pr_bridge p = Creating" "\<not> pr_exited p" "w_ovsClient (pr_world p)"
proof -
  let ?run = "process_run host0 render pf fuel flags_client" and ?step = "process_step host0 render pf fuel flags_client"
  let ?w0 = "world0\<lparr>w_daemon := daemon0\<lparr>d_isServer := False, d_expServerNum := ''1''\<rparr>\<rparr>"
  let ?st = "RegisterForNodeUpdates () watch_init"
  let ?w1 = "?w0\<lparr>w_daemon := (w_daemon ?w0)\<lparr>d_bindInterface := []\<rparr>, w_watch := ?st\<rparr>"
  let ?nodes = "[\<lparr>node_Name = ''n'', node_Address = ''10.0.0.9''\<rparr>]"
  have "initial world0" by (simp add: initial_def NewDaemon_def NewSafeMap_def daemon0_def world0_def)
  moreover have "Run host0 flags_client world0 = (Ret (), ?w0)" by (simp add: Run_def flags_client_def host0_def gbind_def go_run gret_def)
  ultimately have "?run [] (process_start ?w0)" by (intro process_run.start) (auto simp: world0_def)
  moreover have "Run_agent flags_client (\<lambda>_. Inl []) False ?w0 = (Ret (), ?w1)"
    by (simp add: Run_agent_def InitAgent_def StartAgent_def watchForExistingRegisteredUpdates_def watch_init_def flags_client_def
        world0_def gbind_def go_run on_watch_def gret_def)
  then have "?step (process_start ?w0) AgentStarted ((process_start ?w0)\<lparr>pr_world := ?w1, pr_agent := True, pr_exited := False\<rparr>)"
    using process_step.agent [of "process_start ?w0" flags_client "\<lambda>_. Inl []" False "Ret ()" ?w1 host0 render pf fuel]
    by (simp add: process_start_def panics_def)
  moreover define p1 where "p1 = (process_start ?w0)\<lparr>pr_world := ?w1, pr_agent := True\<rparr>"
  ultimately have 1: "?run [AgentStarted] p1"
    using process_run.more by (fastforce simp: process_start_def p1_def)
  obtain st' where st': "plan_round 0 (Some (3, NodesData ?nodes)) ?st = Some ([((), NotifyNodeUpdate NOTIFY_UPDATE_ADD ''10.0.0.9'')], st')"
    by (simp add: plan_round_def RegisterForNodeUpdates_def addListener_def contains_def registerForNodeUpdates_def register_def watch_Parse_def
        addWatchPlan_def watch_init_def handler_def updateNodeListeners_def compare_nodes_def getListeners_def)
  define p2 where "p2 = p1\<lparr>pr_world := (pr_world p1)\<lparr>w_watch := st'\<rparr>,
      pr_watch := (pr_watch p1)(0 := Handling (map snd [((), NotifyNodeUpdate NOTIFY_UPDATE_ADD ''10.0.0.9'')]))\<rparr>"
  have "?step p1 (PlanTurn 0) p2"
    unfolding p2_def by (rule process_step.plan [where out = "Some (3, NodesData ?nodes)"]) (simp_all add: p1_def process_start_def st')
  with 1 have 2: "?run [AgentStarted, PlanTurn 0] p2" using process_run.more by fastforce
  define p3 where "p3 = p2\<lparr>pr_world := mark_ready (pr_world p2), pr_watch := (pr_watch p2)(0 := Sending NOTIFY_UPDATE_ADD ''10.0.0.9'' [])\<rparr>"
  have "?step p2 (ReadyMarked 0) p3"
    unfolding p3_def by (rule process_step.mark) (simp_all add: p1_def p2_def process_start_def daemon0_def)
  with 2 have "?run [AgentStarted, PlanTurn 0, ReadyMarked 0] p3" using process_run.more by fastforce
  then show ?thesis by (rule that) (simp_all add: p1_def p2_def p3_def process_start_def mark_ready_def world0_def)
qed

section \<open>The signal is received\<close>

text \<open>
  C28. The listener does not wait in vain for the receiver of its signal. When it is at the send, no
  other goroutine is, and the bridge goroutine is at its receive, or has only \<^verbatim>\<open>CreateBridge\<close> to finish
  before; the receive lets the listener go on. Until then no step of any goroutine moves the
  listener, unless the process ends.
\<close>

theorem ready_signal_received:
  assumes "process_run h render pf fuel ctx es p" and "pr_watch p a = Sending t ad ns" and "\<not> pr_exited p"
  shows "(\<forall>b. b \<noteq> a \<longrightarrow> pr_watch p b = Handling []) \<and>
    (pr_bridge p = Waiting \<and>
       (\<exists>p'. process_step h render pf fuel ctx p ReadyReceived p' \<and> pr_bridge p' = Received \<and> pr_watch p' a = Peers t ad ns) \<or>
     pr_bridge p = Creating \<and>
       (\<exists>p'. process_step h render pf fuel ctx p BridgeCreated p' \<and> pr_bridge p' = Waiting \<and> pr_watch p' a = Sending t ad ns)) \<and>
    (\<forall>e p'. process_step h render pf fuel ctx p e p' \<longrightarrow> e = ReadyReceived \<or> pr_exited p' \<or> pr_watch p' a = Sending t ad ns)"
proof (intro conjI allI impI)
  have inv: "watch_inv ctx p" using process_run_inv [OF assms(1)] by blast
  have a: "a = 0" using watch_inv_only_plan [OF inv, of a] assms(2) by simp
  show "pr_watch p b = Handling []" if "b \<noteq> a" for b using watch_inv_only_plan [OF inv, of b] a that by blast
  obtain x w' where "Run_bridge h (pr_world p) = (x, w')" by fastforce
  then have "pr_bridge p = Creating \<Longrightarrow> process_step h render pf fuel ctx p BridgeCreated (p\<lparr>pr_world := w', pr_bridge := Waiting, pr_exited := panics x\<rparr>)"
    using process_step.bridge assms(3) by blast
  moreover have "pr_bridge p \<in> {Creating, Waiting}" using inv assms(2) a by (cases "pr_bridge p") (auto simp: watch_inv_def Let_def)
  moreover note process_step.receive [OF assms(3,2)]
  ultimately show "pr_bridge p = Waiting \<and>
       (\<exists>p'. process_step h render pf fuel ctx p ReadyReceived p' \<and> pr_bridge p' = Received \<and> pr_watch p' a = Peers t ad ns) \<or>
     pr_bridge p = Creating \<and>
       (\<exists>p'. process_step h render pf fuel ctx p BridgeCreated p' \<and> pr_bridge p' = Waiting \<and> pr_watch p' a = Sending t ad ns)"
    using assms(2) by fastforce
  show "e = ReadyReceived \<or> pr_exited p' \<or> pr_watch p' a = Sending t ad ns" if "process_step h render pf fuel ctx p e p'" for e p'
    using that assms(2) by cases auto
qed

text \<open>The client node of the example goes on to its first tunnel.\<close>

lemma Transact_host0:
  "w_ovsClient w \<Longrightarrow> Transact host0 ops w = (Ret (map (\<lambda>_. \<lparr>or_Error = [], or_Details = [], or_UUID = ''u'', or_Rows = []\<rparr>) ops), w)"
  by (simp add: Transact_def host0_def gbind_def go_run)

lemma Run_bridge_host0:
  assumes "w_ovsClient w"
  shows "Run_bridge host0 w = (Ret (), w)"
proof -
  have p: "portExists host0 n w = (Ret (False, None), w)" for n
    by (simp add: portExists_def portExists_ops_def gbind_def gret_def Transact_host0 [OF assms])
  obtain r where "CreateOVSBridge host0 bridgeName w = (Ret r, w)"
    by (cases "transaction_error (length (CreateOVSBridge_ops (getRootUuid (w_cache w)) bridgeName)) reply_count_error
          (map (\<lambda>_. \<lparr>or_Error = [], or_Details = [], or_UUID = ''u'', or_Rows = []\<rparr>) (CreateOVSBridge_ops (getRootUuid (w_cache w)) bridgeName))")
      (auto simp: CreateOVSBridge_def Let_def gbind_def go_run gret_def Transact_host0 [OF assms])
  with p assms show ?thesis by (cases r; cases "snd r") (simp_all add: Run_bridge_def CreateBridge_def gbind_def go_run gret_def)
qed

theorem ready_signal_received_witness:
  "\<exists>p p'. pr_watch p 0 = Sending NOTIFY_UPDATE_ADD ''10.0.0.9'' [] \<and>
    process_step host0 (\<lambda>_. []) (\<lambda>_. None) 1 flags_client p BridgeCreated p' \<and> pr_bridge p' = Waiting"
proof -
  obtain p where p: "process_run host0 (\<lambda>_. []) (\<lambda>_. None) 1 flags_client [AgentStarted, PlanTurn 0, ReadyMarked 0] p"
      "pr_watch p 0 = Sending NOTIFY_UPDATE_ADD ''10.0.0.9'' []" "pr_bridge p = Creating" "\<not> pr_exited p"
    by (rule run_to_send)
  with ready_signal_received [OF p(1,2,4)] show ?thesis by auto
qed

theorem startup_order_witness:
  "\<exists>es p. process_run host0 (\<lambda>_. []) (\<lambda>_. None) 1 flags_client es p \<and> PeerUpdate NOTIFY_UPDATE_ADD ''10.0.0.9'' \<in> set es \<and>
    ReadyToWork False \<in> set es \<and> startup_ordered False es"
proof -
  let ?run = "process_run host0 (\<lambda>_. []) (\<lambda>_. None) 1 flags_client" and ?step = "process_step host0 (\<lambda>_. []) (\<lambda>_. None) 1 flags_client"
  obtain p where p: "?run [AgentStarted, PlanTurn 0, ReadyMarked 0] p" "pr_watch p 0 = Sending NOTIFY_UPDATE_ADD ''10.0.0.9'' []"
      "pr_bridge p = Creating" "\<not> pr_exited p" "w_ovsClient (pr_world p)"
    by (rule run_to_send)
  define b where "b = p\<lparr>pr_world := pr_world p, pr_bridge := Waiting, pr_exited := panics (Ret ())\<rparr>"
  have "?step p BridgeCreated b" unfolding b_def by (rule process_step.bridge [OF p(4,3) Run_bridge_host0 [OF p(5)]])
  note b = process_run.more [OF p(1) this]
  define r where "r = b\<lparr>pr_bridge := Received, pr_watch := (pr_watch b)(0 := Peers NOTIFY_UPDATE_ADD ''10.0.0.9'' [])\<rparr>"
  have "?step b ReadyReceived r" unfolding r_def by (rule process_step.receive) (simp_all add: b_def p panics_def)
  note r = process_run.more [OF b this]
  have server: "\<not> d_isServer (w_daemon (pr_world r))" using process_run_inv [OF r] by (simp add: watch_inv_def flags_client_def Let_def)
  define s where "s = r\<lparr>pr_world := pr_world r, pr_bridge := Syncing\<rparr>"
  have "?step r (ReadyToWork False) s"
    unfolding s_def
  proof (rule process_step.ready)
    show "Run_default host0 (\<lambda>_. []) 1 (pr_world r) = (Ret False, pr_world r)" using server by (simp add: Run_default_def gbind_def go_run gret_def)
  qed (simp_all add: r_def b_def panics_def)
  note s = process_run.more [OF r this]
  obtain x w' where x: "Listener_peers host0 NOTIFY_UPDATE_ADD ''10.0.0.9'' (pr_world s) = (x, w')" by fastforce
  have "?step s (PeerUpdate NOTIFY_UPDATE_ADD ''10.0.0.9'') (s\<lparr>pr_world := w', pr_watch := (pr_watch s)(0 := Handling []), pr_exited := panics x\<rparr>)"
    by (rule process_step.peers [OF _ _ x]) (simp_all add: s_def r_def b_def panics_def)
  note t = process_run.more [OF s this]
  from startup_order [OF t] t server show ?thesis by (fastforce simp: flags_client_def)
qed

end
