(* ===== verification/Cluster.thy ===== *)
theory Cluster
  imports Allocation
begin

text \<open>
  Many nodes at one address pool. \<^verbatim>\<open>RequestIP\<close> and \<^verbatim>\<open>ReleaseIP\<close> (\<^verbatim>\<open>server/network.go\<close>) are cut at their
  HTTP requests into the steps of a small machine; the first theorem says that the functions are
  runs of this machine, the second follows any number of such machines, interleaved in any way, over
  one store.
\<close>

section \<open>One request at a time\<close>

datatype job = Request | Release "32 word"

text \<open>
  Where a node stands: about to read the pool, about to read it again inside \<^verbatim>\<open>Put\<close>, about to send the
  guarded write, or holding the address of a position. The flag is not known to the node: it
  says whether the store accepted the write.
\<close>

datatype phase =
    Idle
  | Starting job
  | Checking job bytes "32 word" bytes
  | Writing job bytes "32 word" bytes nat
  | Holding "32 word" bool

definition pool_view :: "string \<Rightarrow> IPNet \<Rightarrow> fault \<Rightarrow> consul \<Rightarrow> bytes \<times> nat \<times> bool" where
  "pool_view VNI subnet flt c = (if flt = Up then get_view (kv_lookup c (ip_path VNI subnet)) else ([], 0, False))"

definition pool_write :: "string \<Rightarrow> IPNet \<Rightarrow> fault \<Rightarrow> nat \<Rightarrow> bytes \<Rightarrow> consul \<Rightarrow> bool \<times> consul" where
  "pool_write VNI subnet flt idx new c =
     (if (flt = Up \<or> flt = LostReply) \<and> length new \<le> maxKVSize then kv_cas (ip_path VNI subnet) idx new c else (False, c))"

text \<open>One request of a node, with the fate of the request and the store that serves it.\<close>

fun alloc_step :: "string \<Rightarrow> IPNet \<Rightarrow> fault \<Rightarrow> consul \<Rightarrow> phase \<Rightarrow> phase \<times> consul" where
  "alloc_step VNI subnet flt c (Starting Request) =
     (let (got, _, ok) = pool_view VNI subnet flt c; oldArray = (if ok then got else fresh_pool subnet)
      in case TestAndSet oldArray of
           None \<Rightarrow> (Idle, c)
         | Some (pos, newArray) \<Rightarrow> (Checking Request oldArray pos newArray, c))"
| "alloc_step VNI subnet flt c (Starting (Release pos)) =
     (let (oldArray, _, ok) = pool_view VNI subnet flt c
      in if \<not> ok then (Idle, c)
         else case Clear oldArray (ucast (pos - 1)) of
             None \<Rightarrow> (Idle, c)
           | Some newArray \<Rightarrow> (Checking (Release pos) oldArray pos newArray, c))"
| "alloc_step VNI subnet flt c (Checking job oldArray pos newArray) =
     (let (existing, idx, ok) = pool_view VNI subnet flt c
      in if ok \<and> oldArray \<noteq> existing then (Starting job, c) else (Writing job oldArray pos newArray idx, c))"
| "alloc_step VNI subnet flt c (Writing job oldArray pos newArray idx) =
     (let (accepted, c') = pool_write VNI subnet flt idx newArray c
      in (case job of Request \<Rightarrow> Holding pos accepted | Release _ \<Rightarrow> Idle, c'))"
| "alloc_step VNI subnet flt c ph = (ph, c)"

fun_cases alloc_writingE: "alloc_step VNI subnet flt c (Writing job oldArray pos newArray idx) = (q, c')"

definition alloc_turn :: "string \<Rightarrow> IPNet \<Rightarrow> phase \<times> net \<Rightarrow> phase \<times> net" where
  "alloc_turn VNI subnet = (\<lambda>(ph, s).
     let (ph', c) = alloc_step VNI subnet (fault (sched s (clock s))) (served s) ph in (ph', tick c s))"

definition pos_addr :: "IPNet \<Rightarrow> 32 word \<Rightarrow> bytes" where
  "pos_addr subnet pos = PutUint32 (read32 (net_IP subnet) + pos)"

section \<open>The functions are runs of it\<close>

lemma Get_pool:
  "Get ipStore (ip_key VNI subnet) s =
     (Ret (pool_view VNI subnet (fault (sched s (clock s))) (served s)), tick (served s) s)"
  by (simp add: Get_any seen_at_def pool_view_def get_view_def)

lemma http_put_any:
  "\<exists>r. http_do (HPutCas (ip_path VNI subnet) idx new) s =
     (Ret r, tick (snd (pool_write VNI subnet (fault (sched s (clock s))) idx new (served s))) s)"
proof -
  have "snd (KVSEndpoint (HPutCas (ip_path VNI subnet) idx new) (served s)) =
      (if length new \<le> maxKVSize then snd (kv_cas (ip_path VNI subnet) idx new (served s)) else served s)"
    by (simp add: KVSEndpoint_def KVSPut_handler_cas) (simp add: KVSPut_handler_def)
  then show ?thesis
    by (cases "KVSEndpoint (HPutCas (ip_path VNI subnet) idx new) (served s)"; cases "fault (sched s (clock s))")
       (simp_all add: http_do_def pool_write_def)
qed

text \<open>\<^verbatim>\<open>Put\<close> is the two steps that follow the choice.\<close>

lemma Put_any:
  assumes "alloc_turn VNI subnet (Checking job old pos new, s) = (ph, s1)"
  shows "ph = Starting job \<and> Put ipStore (ip_key VNI subnet) new old s = (Ret OUTDATED, s1) \<or>
    (\<exists>idx r. ph = Writing job old pos new idx \<and> r \<noteq> OUTDATED \<and>
       Put ipStore (ip_key VNI subnet) new old s = (Ret r, snd (alloc_turn VNI subnet (ph, s1))))"
proof -
  obtain ex idx ok where v: "pool_view VNI subnet (fault (sched s (clock s))) (served s) = (ex, idx, ok)"
    by (metis prod_cases3)
  have ph: "ph = (if ok \<and> old \<noteq> ex then Starting job else Writing job old pos new idx)" "s1 = tick (served s) s"
    using assms v by (auto simp: alloc_turn_def split: if_splits)
  obtain r where r: "http_do (HPutCas (ip_path VNI subnet) idx new) s1 =
      (Ret r, tick (snd (pool_write VNI subnet (fault (sched s1 (clock s1))) idx new (served s1))) s1)"
    using http_put_any by blast
  have w: "snd (alloc_turn VNI subnet (Writing job old pos new idx, s1)) =
      tick (snd (pool_write VNI subnet (fault (sched s1 (clock s1))) idx new (served s1))) s1"
    by (simp add: alloc_turn_def split: prod.split)
  show ?thesis
    using Get_pool [of VNI subnet s] v ph r w
    by (cases "ok \<and> old \<noteq> ex"; cases r; cases "http_body (the r) = Text ''false''")
       (auto simp: Put_def gbind_def gret_def)
qed

lemma ip_slot_pos_addr: "ip_slot (pos_addr subnet pos) subnet = pos - 1"
  by (simp add: ip_slot_def pos_addr_def)

text \<open>The first request of a round, and what is left to do after it.\<close>

lemma RequestIP_first_step:
  assumes "v4_subnet n subnet"
  obtains old pos new s1 where "alloc_turn VNI subnet (Starting Request, s) = (Checking Request old pos new, s1)"
    "RequestIP (Suc fuel) VNI subnet s = gbind (Put ipStore (ip_key VNI subnet) new old) (\<lambda>err.
       if err = OUTDATED then RequestIP fuel VNI subnet else gret (pos_addr subnet pos)) s1"
proof -
  obtain got idx ok where v: "pool_view VNI subnet (fault (sched s (clock s))) (served s) = (got, idx, ok)"
    by (metis prod_cases3)
  define old where "old = (if ok then got else fresh_pool subnet)"
  obtain pos new where t: "TestAndSet old = Some (pos, new)" by (rule TestAndSet_defined)
  have base: "binary_Read32 (net_IP subnet) = Some (read32 (net_IP subnet))"
    using assms by (auto simp: v4_subnet_def elim!: length_4E)
  have "alloc_turn VNI subnet (Starting Request, s) = (Checking Request old pos new, tick (served s) s)"
    using v t by (simp add: alloc_turn_def old_def)
  moreover have "RequestIP (Suc fuel) VNI subnet s = gbind (Put ipStore (ip_key VNI subnet) new old) (\<lambda>err.
       if err = OUTDATED then RequestIP fuel VNI subnet else gret (pos_addr subnet pos)) (tick (served s) s)"
    using Get_pool [of VNI subnet s] v t fresh_pool_v4(1) [OF assms] base
    by (cases ok) (auto simp: RequestIP.simps old_def gbind_def go_basic pos_addr_def split: prod.split outcome.split)
  ultimately show ?thesis by (rule that)
qed

lemma ReleaseIP_first_step:
  obtains (over) "fst (alloc_turn VNI subnet (Starting (Release pos), s)) = Idle"
      "fst (ReleaseIP (Suc fuel) (pos_addr subnet pos) subnet VNI s) \<noteq> NoFuel"
      "snd (ReleaseIP (Suc fuel) (pos_addr subnet pos) subnet VNI s) = snd (alloc_turn VNI subnet (Starting (Release pos), s))"
  | (go) old new s1 where "alloc_turn VNI subnet (Starting (Release pos), s) = (Checking (Release pos) old pos new, s1)"
    "ReleaseIP (Suc fuel) (pos_addr subnet pos) subnet VNI s = gbind (Put ipStore (ip_key VNI subnet) new old) (\<lambda>err.
       if err = OUTDATED then ReleaseIP fuel (pos_addr subnet pos) subnet VNI else gret True) s1"
proof -
  obtain old idx ok where v: "pool_view VNI subnet (fault (sched s (clock s))) (served s) = (old, idx, ok)"
    by (metis prod_cases3)
  show ?thesis
  proof (cases "ok \<and> Clear old (ucast (pos - 1)) \<noteq> None")
    case True
    then obtain new where "Clear old (ucast (pos - 1)) = Some new" by blast
    with True Get_pool [of VNI subnet s] v go [of old new "tick (served s) s"] show ?thesis
      by (simp add: ReleaseIP.simps alloc_turn_def ip_slot_pos_addr gbind_def go_basic)
  next
    case False
    with Get_pool [of VNI subnet s] v over show ?thesis
      by (cases ok) (auto simp: ReleaseIP.simps alloc_turn_def ip_slot_pos_addr gbind_def go_basic)
  qed
qed

text \<open>What a call has come to, as a state of the machine.\<close>

abbreviation turns :: "string \<Rightarrow> IPNet \<Rightarrow> nat \<Rightarrow> phase \<Rightarrow> net \<Rightarrow> phase \<times> net" where
  "turns VNI subnet m ph s \<equiv> (alloc_turn VNI subnet ^^ m) (ph, s)"

lemma turns_add: "turns VNI subnet m ph s = (ph', s') \<Longrightarrow> turns VNI subnet (k + m) ph s = turns VNI subnet k ph' s'"
  by (simp add: funpow_add)

lemma turns_again:
  assumes "turns VNI subnet 2 ph s = (ph, s2)" and "turns VNI subnet m ph s2 = x" and "m \<le> 3 * fuel"
  shows "\<exists>m' \<le> 3 * Suc fuel. turns VNI subnet m' ph s = x"
  using turns_add [OF assms(1), of m] assms(2,3) by (intro exI [of _ "m + 2"]) simp

lemma Put_turns:
  assumes "alloc_turn VNI subnet (Starting job, s) = (Checking job old pos new, s1)"
  obtains (again) s2 where "Put ipStore (ip_key VNI subnet) new old s1 = (Ret OUTDATED, s2)"
      "turns VNI subnet 2 (Starting job) s = (Starting job, s2)"
  | (finished) r acc s3 where "Put ipStore (ip_key VNI subnet) new old s1 = (Ret r, s3)" "r \<noteq> OUTDATED"
      "turns VNI subnet 3 (Starting job) s = (case job of Request \<Rightarrow> Holding pos acc | Release _ \<Rightarrow> Idle, s3)"
proof -
  obtain ph s2 where c: "alloc_turn VNI subnet (Checking job old pos new, s1) = (ph, s2)" by fastforce
  have two: "turns VNI subnet 2 (Starting job) s = (ph, s2)" using assms c by (simp add: numeral_2_eq_2)
  from Put_any [OF c] show ?thesis
  proof (elim disjE exE conjE)
    fix idx r
    assume w: "ph = Writing job old pos new idx" "r \<noteq> OUTDATED"
      "Put ipStore (ip_key VNI subnet) new old s1 = (Ret r, snd (alloc_turn VNI subnet (ph, s2)))"
    obtain acc s3 where "alloc_turn VNI subnet (Writing job old pos new idx, s2) =
        (case job of Request \<Rightarrow> Holding pos acc | Release _ \<Rightarrow> Idle, s3)"
      by (cases "pool_write VNI subnet (fault (sched s2 (clock s2))) idx new (served s2)") (simp add: alloc_turn_def)
    moreover from this have "turns VNI subnet 3 (Starting job) s = (case job of Request \<Rightarrow> Holding pos acc | Release _ \<Rightarrow> Idle, s3)"
      using turns_add [OF two, of 1] w(1) by (simp add: numeral_3_eq_3)
    ultimately show ?thesis using finished w by simp
  qed (use again two in blast)
qed

lemma RequestIP_turns:
  assumes "v4_subnet n subnet"
  shows "case RequestIP fuel VNI subnet s of
      (Ret ip, s') \<Rightarrow> \<exists>m pos acc. m \<le> 3 * fuel \<and> turns VNI subnet m (Starting Request) s = (Holding pos acc, s') \<and> ip = pos_addr subnet pos
    | (NoFuel, s') \<Rightarrow> turns VNI subnet (2 * fuel) (Starting Request) s = (Starting Request, s')
    | (Panic _, _) \<Rightarrow> False"
proof (induction fuel arbitrary: s)
  case (Suc fuel)
  obtain old pos new s1 where f: "alloc_turn VNI subnet (Starting Request, s) = (Checking Request old pos new, s1)"
    "RequestIP (Suc fuel) VNI subnet s = gbind (Put ipStore (ip_key VNI subnet) new old) (\<lambda>err.
       if err = OUTDATED then RequestIP fuel VNI subnet else gret (pos_addr subnet pos)) s1"
    by (rule RequestIP_first_step [OF assms])
  from f(1) show ?case
  proof (cases rule: Put_turns)
    case (again s2)
    then have eq: "RequestIP (Suc fuel) VNI subnet s = RequestIP fuel VNI subnet s2"
      using f(2) by (simp add: gbind_def)
    show ?thesis
    proof (cases "RequestIP fuel VNI subnet s2")
      case (Pair r s')
      show ?thesis
      proof (cases r)
        case (Ret ip)
        then obtain m pos acc where m: "m \<le> 3 * fuel" "turns VNI subnet m (Starting Request) s2 = (Holding pos acc, s')"
            "ip = pos_addr subnet pos"
          using Suc.IH [of s2] Pair by auto
        from turns_again [OF again(2) m(2,1)] m(3) show ?thesis unfolding eq Pair Ret by auto
      next
        case NoFuel
        then show ?thesis using Suc.IH [of s2] turns_add [OF again(2), of "2 * fuel"] unfolding eq Pair by simp
      next
        case (Panic e)
        then show ?thesis using Suc.IH [of s2] Pair by simp
      qed
    qed
  next
    case (finished r acc s3)
    then have "RequestIP (Suc fuel) VNI subnet s = (Ret (pos_addr subnet pos), s3)"
      using f(2) by (simp add: gbind_def gret_def)
    with finished(3) show ?thesis by (auto intro: exI [of _ "3 :: nat"])
  qed
qed (simp add: RequestIP.simps ReleaseIP.simps gstop_def)

lemma ReleaseIP_turns:
  "case ReleaseIP fuel (pos_addr subnet pos) subnet VNI s of
      (NoFuel, s') \<Rightarrow> turns VNI subnet (2 * fuel) (Starting (Release pos)) s = (Starting (Release pos), s')
    | (_, s') \<Rightarrow> \<exists>m. m \<le> 3 * fuel \<and> turns VNI subnet m (Starting (Release pos)) s = (Idle, s')"
proof (induction fuel arbitrary: s)
  case (Suc fuel)
  show ?case
  proof (cases rule: ReleaseIP_first_step [of VNI subnet pos s fuel])
    case over
    then show ?thesis
      by (cases "ReleaseIP (Suc fuel) (pos_addr subnet pos) subnet VNI s"; cases "alloc_turn VNI subnet (Starting (Release pos), s)")
         (auto simp del: ReleaseIP.simps split: outcome.splits intro!: exI [of _ 1])
  next
    case f: (go old new s1)
    from f(1) show ?thesis
    proof (cases rule: Put_turns)
      case (again s2)
      then have eq: "ReleaseIP (Suc fuel) (pos_addr subnet pos) subnet VNI s = ReleaseIP fuel (pos_addr subnet pos) subnet VNI s2"
        using f(2) by (simp add: gbind_def)
      show ?thesis
      proof (cases "ReleaseIP fuel (pos_addr subnet pos) subnet VNI s2")
        case (Pair r s')
        show ?thesis
        proof (cases "r = NoFuel")
          case True
          then show ?thesis using Suc.IH [of s2] turns_add [OF again(2), of "2 * fuel"] unfolding eq Pair by simp
        next
          case False
          then obtain m where m: "m \<le> 3 * fuel" "turns VNI subnet m (Starting (Release pos)) s2 = (Idle, s')"
            using Suc.IH [of s2] Pair by (cases r) auto
          from turns_again [OF again(2) m(2,1)] False show ?thesis unfolding eq Pair by (cases r) auto
        qed
      qed
    next
      case (finished r acc s3)
      then have "ReleaseIP (Suc fuel) (pos_addr subnet pos) subnet VNI s = (Ret True, s3)"
        using f(2) by (simp add: gbind_def gret_def)
      with finished(3) show ?thesis by (auto intro: exI [of _ "3 :: nat"])
    qed
  qed
qed (simp add: RequestIP.simps ReleaseIP.simps gstop_def)

text \<open>
  C11. \<^verbatim>\<open>RequestIP\<close> and \<^verbatim>\<open>ReleaseIP\<close> are runs of the machine, one step per HTTP request, at most three
  in a round, whatever other clients and the network do: a call that returns ends where the
  machine ends, with the address of the position it holds, and a call that has used up its
  rounds stands at the start of the next one.
\<close>

theorem allocation_steps:
  assumes "v4_subnet n subnet"
  shows "(case RequestIP fuel VNI subnet s of
      (Ret ip, s') \<Rightarrow> \<exists>m pos acc. m \<le> 3 * fuel \<and> turns VNI subnet m (Starting Request) s = (Holding pos acc, s') \<and> ip = pos_addr subnet pos
    | (NoFuel, s') \<Rightarrow> turns VNI subnet (2 * fuel) (Starting Request) s = (Starting Request, s')
    | (Panic _, _) \<Rightarrow> False) \<and>
    (case ReleaseIP fuel (pos_addr subnet pos) subnet VNI s of
      (NoFuel, s') \<Rightarrow> turns VNI subnet (2 * fuel) (Starting (Release pos)) s = (Starting (Release pos), s')
    | (_, s') \<Rightarrow> \<exists>m. m \<le> 3 * fuel \<and> turns VNI subnet m (Starting (Release pos)) s = (Idle, s'))"
  using RequestIP_turns [OF assms] ReleaseIP_turns by (rule conjI)

theorem allocation_steps_witness:
  "\<exists>ip s' m pos acc. RequestIP 1 ''7'' net24 idle = (Ret ip, s') \<and> m \<le> 3 \<and>
    turns ''7'' net24 m (Starting Request) idle = (Holding pos acc, s') \<and> ip = pos_addr net24 pos"
proof -
  obtain k s' where "RequestIP (Suc 0) ''7'' net24 idle = (Ret (slot_addr net24 k), s')"
    by (rule RequestIP_least [of idle 24 net24 "''7''" 0]) (simp_all add: maxKVSize_def)
  then obtain ip s' where r: "RequestIP 1 ''7'' net24 idle = (Ret ip, s')" by simp
  with allocation_steps [OF v4_subnet_net24, of 1 "''7''" idle] show ?thesis by auto
qed

section \<open>What a reader may remember\<close>

text \<open>
  A client of a versioned store that read a value with its version: as long as the version is the
  current one, the value is. A guarded write relies on nothing else.
\<close>

context versioned_store
begin

definition remembers :: "'s \<Rightarrow> 'k \<Rightarrow> 'v \<Rightarrow> nat \<Rightarrow> bool" where
  "remembers s k v m \<longleftrightarrow> m \<le> now s \<and> (\<forall>u. lookup s k = Some (u, m) \<longrightarrow> u = v)"

lemma remembers_read: "ok s \<Longrightarrow> lookup s k = Some (v, m) \<Longrightarrow> remembers s k v m"
  using version_range unfolding remembers_def by fastforce

lemma remembers_absent: "ok s \<Longrightarrow> remembers s k v 0"
  using version_range unfolding remembers_def by fastforce

lemma remembers_evolve: "ok s \<Longrightarrow> evolve s s' \<Longrightarrow> remembers s k v m \<Longrightarrow> remembers s' k v m"
  using evolve_ok evolve_old unfolding remembers_def by (meson order_trans)

lemma remembers_cas:
  assumes "ok s" and "remembers s k v m" and "cas k m w s = (True, s')"
  shows "lookup s k = None \<or> lookup s k = Some (v, m)"
  using cas_decides [OF assms(1), of k m w] assms(2,3) unfolding remembers_def by (auto split: option.splits)

end

section \<open>Many nodes\<close>

text \<open>
  The store and the phases of all calls, with the history of what happened. A call may start, send its
  next request, with any fate, and give back the address it holds, whether its write was accepted or
  not; between that, all other clients do anything to the store. The history notes of an address
  that is given back whether it was taken by an accepted write, and of the others whether they
  at most marked further slots of this pool, as \<^verbatim>\<open>MarkUsed\<close> does for a container with an address of its own.
\<close>

definition pool_grows :: "string \<Rightarrow> IPNet \<Rightarrow> consul \<Rightarrow> consul \<Rightarrow> bool" where
  "pool_grows VNI subnet c c' \<longleftrightarrow> (kv_lookup c' (ip_path VNI subnet) = None \<longrightarrow> kv_lookup c (ip_path VNI subnet) = None) \<and>
     length (pool c' VNI subnet) = length (pool c VNI subnet) \<and> used (pool c VNI subnet) \<subseteq> used (pool c' VNI subnet)"

datatype 'i cluster_event = Asked 'i | Sent 'i | GaveBack 'i bool | OthersActed bool

inductive cluster_run :: "string \<Rightarrow> IPNet \<Rightarrow> consul \<Rightarrow> 'i cluster_event list \<Rightarrow> consul \<Rightarrow> ('i \<Rightarrow> phase) \<Rightarrow> bool"
  for VNI :: string and subnet :: IPNet and c0 :: consul where
  init: "cluster_run VNI subnet c0 [] c0 (\<lambda>_. Idle)"
| ask: "cluster_run VNI subnet c0 es c ph \<Longrightarrow> ph i = Idle \<Longrightarrow>
    cluster_run VNI subnet c0 (es @ [Asked i]) c (ph(i := Starting Request))"
| give_back: "cluster_run VNI subnet c0 es c ph \<Longrightarrow> ph i = Holding pos accepted \<Longrightarrow>
    cluster_run VNI subnet c0 (es @ [GaveBack i accepted]) c (ph(i := Starting (Release pos)))"
| request: "cluster_run VNI subnet c0 es c ph \<Longrightarrow> alloc_step VNI subnet flt c (ph i) = (q, c') \<Longrightarrow>
    cluster_run VNI subnet c0 (es @ [Sent i]) c' (ph(i := q))"
| others: "cluster_run VNI subnet c0 es c ph \<Longrightarrow> evolves c c' \<Longrightarrow>
    cluster_run VNI subnet c0 (es @ [OthersActed (pool_grows VNI subnet c c')]) c' ph"

text \<open>
  A history in which nobody gives back what the store did not accept and nobody else frees a slot.
\<close>

fun orderly_event :: "'i cluster_event \<Rightarrow> bool" where
  "orderly_event (GaveBack i accepted) = accepted"
| "orderly_event (OthersActed grown) = grown"
| "orderly_event e = True"

definition orderly :: "'i cluster_event list \<Rightarrow> bool" where
  "orderly es \<longleftrightarrow> list_all orderly_event es"

lemma orderly_simps [simp]: "orderly []" "orderly (es @ [e]) \<longleftrightarrow> orderly es \<and> orderly_event e"
  by (simp_all add: orderly_def)

text \<open>A position belongs to a node from the accepted write that took it to the one that clears it.\<close>

fun owns :: "phase \<Rightarrow> 32 word \<Rightarrow> bool" where
  "owns (Holding p accepted) pos \<longleftrightarrow> accepted \<and> p = pos"
| "owns (Starting (Release p)) pos \<longleftrightarrow> p = pos"
| "owns (Checking (Release p) _ _ _) pos \<longleftrightarrow> p = pos"
| "owns (Writing (Release p) _ _ _ _) pos \<longleftrightarrow> p = pos"
| "owns _ pos \<longleftrightarrow> False"

definition in_pool :: "IPNet \<Rightarrow> 32 word \<Rightarrow> bool" where
  "in_pool subnet pos \<longleftrightarrow> 0 < unat pos \<and> unat pos \<le> 8 * length (fresh_pool subnet)"

text \<open>What a node remembers is the pool as it still is, unless its write is going to be refused.\<close>

definition chosen :: "job \<Rightarrow> bytes \<Rightarrow> 32 word \<Rightarrow> bytes \<Rightarrow> bool" where
  "chosen job old pos new = (case job of
      Request \<Rightarrow> TestAndSet old = Some (pos, new)
    | Release p \<Rightarrow> p = pos \<and> Clear old (ucast (pos - 1)) = Some new)"

fun phase_ok :: "string \<Rightarrow> IPNet \<Rightarrow> consul \<Rightarrow> phase \<Rightarrow> bool" where
  "phase_ok VNI subnet c (Checking job old pos new) \<longleftrightarrow> chosen job old pos new \<and> length old = length (fresh_pool subnet) \<and>
     (kv_lookup c (ip_path VNI subnet) = None \<longrightarrow> old = fresh_pool subnet)"
| "phase_ok VNI subnet c (Writing job old pos new idx) \<longleftrightarrow> chosen job old pos new \<and> length old = length (fresh_pool subnet) \<and>
     (kv_lookup c (ip_path VNI subnet) = None \<longrightarrow> old = fresh_pool subnet) \<and>
     kv.remembers c (ip_path VNI subnet) old idx"
| "phase_ok VNI subnet c ph \<longleftrightarrow> True"

lemma phase_ok_stable:
  assumes "consul_ok c" and "evolves c c'" and "phase_ok VNI subnet c ph"
    and "kv_lookup c' (ip_path VNI subnet) = None \<Longrightarrow> kv_lookup c (ip_path VNI subnet) = None"
  shows "phase_ok VNI subnet c' ph"
  using assms(3,4) kv.remembers_evolve [OF assms(1,2)]
  by (cases "(VNI, subnet, c, ph)" rule: phase_ok.cases) auto

lemma pool_lookup: "pool c VNI subnet = (case kv_lookup c (ip_path VNI subnet) of Some (v, _) \<Rightarrow> v | None \<Rightarrow> fresh_pool subnet)"
  by (simp add: pool_def value_at_def split: option.split)

lemma evolves_refl: "evolves c c"
  unfolding evolves_def by (rule exI [of _ "[]"]) simp

lemma pool_write_effect:
  assumes "consul_ok c" and "phase_ok VNI subnet c (Writing job old pos new idx)"
    and "pool_write VNI subnet flt idx new c = (acc, c')"
  shows "consul_ok c' \<and> evolves c c' \<and>
    (kv_lookup c' (ip_path VNI subnet) = None \<longrightarrow> kv_lookup c (ip_path VNI subnet) = None) \<and>
    (if acc then pool c VNI subnet = old \<and> pool c' VNI subnet = new else pool c' VNI subnet = pool c VNI subnet)"
proof (cases "(flt = Up \<or> flt = LostReply) \<and> length new \<le> maxKVSize")
  case False
  then show ?thesis using assms by (auto simp: pool_write_def evolves_refl)
next
  case True
  let ?p = "ip_path VNI subnet"
  have w: "kv_cas ?p idx new c = (acc, c')" using assms(3) True by (simp add: pool_write_def)
  have ev: "evolves c c'" using kv.cas_evolves [OF assms(1), of ?p idx new] w by simp
  have ok: "consul_ok c'" using kv.evolve_ok [OF assms(1) ev] by blast
  show ?thesis
  proof (cases acc)
    case False
    then show ?thesis using kv.cas_refuses [OF assms(1), of ?p idx new c'] w ok ev by (simp add: pool_lookup)
  next
    case True
    then obtain m where l: "kv_lookup c' = (kv_lookup c)(?p \<mapsto> (new, m))"
      using kv.cas_writes [OF assms(1), of ?p idx new c'] w by auto
    have "kv_lookup c ?p = None \<or> kv_lookup c ?p = Some (old, idx)"
      using kv.remembers_cas [OF assms(1), of ?p old idx new c'] assms(2) w True by simp
    with assms(2) have "pool c VNI subnet = old" by (auto simp: pool_lookup split: option.splits)
    with l True ok ev show ?thesis by (simp add: pool_lookup)
  qed
qed

lemma pool_size:
  assumes "v4_subnet n subnet" and "0 < n"
  shows "8 * length (fresh_pool subnet) + 1 < 2 ^ 32"
proof -
  have "(2 :: nat) ^ (29 - n) \<le> 2 ^ 28" using assms(2) by (intro power_increasing) auto
  then show ?thesis using fresh_pool_v4(2) [OF assms(1)] by simp
qed

text \<open>The effect of the two changes of a pool on its slots.\<close>

lemma chosen_Request:
  assumes "8 * length old + 1 < 2 ^ 32" and "TestAndSet old = Some (pos, new)"
  shows "length new = length old \<and> used old \<subseteq> used new \<and>
    (unat pos \<le> 8 * length old \<longrightarrow> 0 < unat pos \<and> unat pos - 1 \<notin> used old \<and> unat pos - 1 \<in> used new)"
proof (cases "used old = {..<8 * length old}")
  case True
  then show ?thesis using TestAndSet_full [of old] assms
    by (auto simp: of_nat_32_bound simp del: of_nat_Suc of_nat_add)
next
  case False
  then obtain k a' where "k < 8 * length old" "k \<notin> used old" "TestAndSet old = Some (of_nat (k + 1), a')"
      "length a' = length old" "used a' = insert k (used old)"
    using TestAndSet_free [of old] assms(1) by (metis add_lessD1)
  moreover from this have "unat (of_nat (k + 1) :: 32 word) = k + 1" using assms(1) by (intro of_nat_32_bound) simp
  ultimately show ?thesis using assms(2) by auto
qed

lemma chosen_Release:
  fixes pos :: "32 word"
  assumes "8 * length old + 1 < 2 ^ 32" and "Clear old (ucast (pos - 1)) = Some new"
  shows "length new = length old \<and> 0 < unat pos \<and> used new = used old - {unat pos - 1}"
proof -
  have u: "unat (ucast (pos - 1) :: 64 word) = unat (pos - 1)"
  proof -
    have "unat (pos - 1) < 2 ^ LENGTH(32)" by (rule unsigned_less)
    then have "unat (pos - 1) < 2 ^ 64" by (rule less_le_trans) simp
    then show ?thesis by (simp add: unsigned_ucast_eq take_bit_nat_eq_self)
  qed
  then have r: "unat (pos - 1) < 8 * length old"
    using assms(2) by (auto simp: Clear_def Let_def unat_div_distrib split: if_splits)
  then have "pos \<noteq> 0" using assms(1) by (auto simp: unsigned_minus_1_eq_mask mask_eq_exp_minus_1)
  then have "unat (pos - 1) = unat pos - 1" "0 < unat pos"
    by (simp_all add: unat_minus_one unat_gt_0)
  with Clear_used [of "ucast (pos - 1)" old] u r assms(2) show ?thesis by auto
qed

section \<open>Addresses are exclusive\<close>

definition cluster_inv :: "string \<Rightarrow> IPNet \<Rightarrow> consul \<Rightarrow> ('i \<Rightarrow> phase) \<Rightarrow> bool" where
  "cluster_inv VNI subnet c ph \<longleftrightarrow> consul_ok c \<and> length (pool c VNI subnet) = length (fresh_pool subnet) \<and>
     (\<forall>i. phase_ok VNI subnet c (ph i)) \<and>
     (\<forall>i pos. owns (ph i) pos \<longrightarrow> in_pool subnet pos \<longrightarrow> unat pos - 1 \<in> used (pool c VNI subnet)) \<and>
     (\<forall>i j pos. owns (ph i) pos \<longrightarrow> owns (ph j) pos \<longrightarrow> in_pool subnet pos \<longrightarrow> i = j)"

text \<open>A step that neither changes the pool nor makes its node an owner.\<close>

lemma cluster_inv_quiet:
  assumes "cluster_inv VNI subnet c ph" and "phase_ok VNI subnet c q" and "\<And>pos. owns q pos \<Longrightarrow> owns (ph i) pos"
  shows "cluster_inv VNI subnet c (ph(i := q))"
  using assms unfolding cluster_inv_def fun_upd_apply by (simp split: if_splits) metis

lemma cluster_inv_write:
  assumes "cluster_inv VNI subnet c ph" and "ph i = Writing job old pos new idx"
    and "pool_write VNI subnet flt idx new c = (acc, c')" and "8 * length (fresh_pool subnet) + 1 < 2 ^ 32"
  shows "cluster_inv VNI subnet c' (ph(i := case job of Request \<Rightarrow> Holding pos acc | Release _ \<Rightarrow> Idle))"
proof -
  let ?q = "case job of Request \<Rightarrow> Holding pos acc | Release _ \<Rightarrow> Idle"
  have inv: "consul_ok c" "length (pool c VNI subnet) = length (fresh_pool subnet)" "\<And>j. phase_ok VNI subnet c (ph j)"
      "\<And>j p. owns (ph j) p \<Longrightarrow> in_pool subnet p \<Longrightarrow> unat p - 1 \<in> used (pool c VNI subnet)"
      "\<And>j k p. owns (ph j) p \<Longrightarrow> owns (ph k) p \<Longrightarrow> in_pool subnet p \<Longrightarrow> j = k"
    using assms(1) unfolding cluster_inv_def by blast+
  have w: "phase_ok VNI subnet c (Writing job old pos new idx)" using inv(3) [of i] assms(2) by simp
  then have ch: "chosen job old pos new" and len: "length old = length (fresh_pool subnet)" by simp_all
  have eff: "consul_ok c'" "evolves c c'"
      "kv_lookup c' (ip_path VNI subnet) = None \<Longrightarrow> kv_lookup c (ip_path VNI subnet) = None"
      "acc \<Longrightarrow> pool c VNI subnet = old \<and> pool c' VNI subnet = new" "\<not> acc \<Longrightarrow> pool c' VNI subnet = pool c VNI subnet"
    using pool_write_effect [OF inv(1) w assms(3)] by (auto split: if_splits)
  have others: "phase_ok VNI subnet c' (ph j)" for j by (rule phase_ok_stable [OF inv(1) eff(2) inv(3) eff(3)])
  have slots: "length (pool c' VNI subnet) = length (fresh_pool subnet) \<and>
      (\<forall>j p. j \<noteq> i \<longrightarrow> owns (ph j) p \<longrightarrow> in_pool subnet p \<longrightarrow> unat p - 1 \<in> used (pool c' VNI subnet) \<and> \<not> owns ?q p) \<and>
      (\<forall>p. owns ?q p \<longrightarrow> in_pool subnet p \<longrightarrow> unat p - 1 \<in> used (pool c' VNI subnet))"
  proof (cases acc)
    case False
    then have "\<not> owns ?q p" for p by (cases job) simp_all
    with False eff(5) inv show ?thesis by simp
  next
    case True
    note P = eff(4) [OF True]
    show ?thesis
    proof (cases job)
      case Request
      then have "length new = length old" "used old \<subseteq> used new"
          "unat pos \<le> 8 * length old \<longrightarrow> unat pos - 1 \<notin> used old \<and> unat pos - 1 \<in> used new"
        using chosen_Request [of old pos new] ch len assms(4) by (auto simp: chosen_def)
      with Request P len inv(4) show ?thesis by (auto simp: in_pool_def)
    next
      case (Release r)
      then have new: "length new = length old" "0 < unat pos" "used new = used old - {unat pos - 1}" and r: "r = pos"
        using chosen_Release [of old pos new] ch len assms(4) by (auto simp: chosen_def)
      have "unat p - 1 \<noteq> unat pos - 1" if "j \<noteq> i" "owns (ph j) p" "in_pool subnet p" for j p
      proof
        assume "unat p - 1 = unat pos - 1"
        then have "p = pos" using new(2) that(3) by (auto simp: in_pool_def word_unat_eq_iff)
        then show False using that inv(5) [of j p i] Release r assms(2) by simp
      qed
      with Release P len new inv(4) show ?thesis by auto
    qed
  qed
  show ?thesis unfolding cluster_inv_def
  proof (intro conjI allI impI)
    show "phase_ok VNI subnet c' ((ph(i := ?q)) j)" for j using others by (cases job) simp_all
  qed (use slots eff(1) inv(5) in \<open>auto split: if_splits\<close>)
qed

lemma pool_view_cases:
  obtains (found) v m where "pool_view VNI subnet flt c = (v, m, True)" "kv_lookup c (ip_path VNI subnet) = Some (v, m)"
    "pool c VNI subnet = v"
  | (missing) "pool_view VNI subnet flt c = ([], 0, False)"
proof (cases "flt = Up \<and> kv_lookup c (ip_path VNI subnet) \<noteq> None")
  case True
  then show ?thesis using found by (auto simp: pool_view_def get_view_def pool_lookup)
qed (use missing in \<open>auto simp: pool_view_def get_view_def split: option.splits\<close>)

lemma cluster_inv_step:
  assumes "cluster_inv VNI subnet c ph" and "alloc_step VNI subnet flt c (ph i) = (q, c')"
    and "8 * length (fresh_pool subnet) + 1 < 2 ^ 32"
  shows "cluster_inv VNI subnet c' (ph(i := q))"
proof -
  have ok: "consul_ok c" "length (pool c VNI subnet) = length (fresh_pool subnet)" "phase_ok VNI subnet c (ph i)"
    using assms(1) unfolding cluster_inv_def by blast+
  consider (req) "ph i = Starting Request" | (rel) pos where "ph i = Starting (Release pos)"
    | (chk) job old pos new where "ph i = Checking job old pos new"
    | (wr) job old pos new idx where "ph i = Writing job old pos new idx" | (rest) "q = ph i" "c' = c"
    using assms(2) by (cases "(VNI, subnet, flt, c, ph i)" rule: alloc_step.cases) auto
  then show ?thesis
  proof cases
    case req
    have "c' = c \<and> phase_ok VNI subnet c q \<and> (\<forall>p. \<not> owns q p)"
      by (cases rule: pool_view_cases [of VNI subnet flt c])
         (use assms(2) req ok in \<open>auto simp: chosen_def Let_def split: option.splits\<close>)
    then show ?thesis using cluster_inv_quiet [OF assms(1), of q i] by simp
  next
    case (rel pos)
    have "c' = c \<and> phase_ok VNI subnet c q \<and> (\<forall>p. owns q p \<longrightarrow> p = pos)"
      by (cases rule: pool_view_cases [of VNI subnet flt c])
         (use assms(2) rel ok in \<open>auto simp: chosen_def Let_def split: option.splits\<close>)
    then show ?thesis using cluster_inv_quiet [OF assms(1), of q i] rel by auto
  next
    case (chk job old pos new)
    have "c' = c \<and> phase_ok VNI subnet c q \<and> (\<forall>p. owns q p \<longrightarrow> owns (ph i) p)"
    proof (cases rule: pool_view_cases [of VNI subnet flt c])
      case (found v m)
      then show ?thesis using assms(2) chk ok kv.remembers_read [OF ok(1) found(2)]
        by (cases job) (auto simp: Let_def split: if_splits)
    next
      case missing
      then have q: "q = Writing job old pos new 0" "c' = c" using assms(2) chk by simp_all
      with chk ok(3) kv.remembers_absent [OF ok(1)] show ?thesis by (cases job) simp_all
    qed
    then show ?thesis using cluster_inv_quiet [OF assms(1), of q i] by auto
  next
    case (wr job old pos new idx)
    from assms(2) [unfolded wr] obtain acc where "pool_write VNI subnet flt idx new c = (acc, c')"
        "q = (case job of Request \<Rightarrow> Holding pos acc | Release _ \<Rightarrow> Idle)"
      by (rule alloc_writingE) (auto split: prod.splits)
    with cluster_inv_write [OF assms(1) wr _ assms(3)] show ?thesis by simp
  qed (use assms(1) in simp)
qed

lemma cluster_run_inv:
  assumes "cluster_run VNI subnet c0 es c ph" and "orderly es" and "consul_ok c0"
    and "length (pool c0 VNI subnet) = length (fresh_pool subnet)" and "8 * length (fresh_pool subnet) + 1 < 2 ^ 32"
  shows "cluster_inv VNI subnet c ph"
  using assms(1,2)
proof induction
  case init
  then show ?case using assms(3,4) by (simp add: cluster_inv_def)
next
  case (ask es c ph i)
  then have "cluster_inv VNI subnet c ph" by simp
  then show ?case by (rule cluster_inv_quiet) simp_all
next
  case (give_back es c ph i pos accepted)
  then have "cluster_inv VNI subnet c ph" "accepted" by simp_all
  with give_back.hyps(2) show ?case by (intro cluster_inv_quiet) simp_all
next
  case (request es c ph flt i q c')
  then have "cluster_inv VNI subnet c ph" by simp
  from cluster_inv_step [OF this request.hyps(2) assms(5)] show ?case .
next
  case (others es c ph c')
  then have I: "cluster_inv VNI subnet c ph" and grows: "pool_grows VNI subnet c c'" by simp_all
  note inv = I [unfolded cluster_inv_def]
  have ok: "consul_ok c" and ph: "\<And>i. phase_ok VNI subnet c (ph i)" using inv by blast+
  have "phase_ok VNI subnet c' (ph i)" for i
    by (rule phase_ok_stable [OF ok others.hyps(2) ph]) (use grows in \<open>simp add: pool_grows_def\<close>)
  moreover have "consul_ok c'" using kv.evolve_ok [OF ok others.hyps(2)] by blast
  ultimately show ?case unfolding cluster_inv_def using inv grows unfolding pool_grows_def by (metis subsetD)
qed

text \<open>
  C2. Any number of calls that request and release addresses of one network, on any nodes, their HTTP
  requests interleaved in any way and lost, refused or answered in any pattern. As long as no call
  gives back an address for which its write was not accepted, and other clients at most mark further
  slots of the pool (as \<^verbatim>\<open>MarkUsed\<close> does), two calls never own the same address, and what a call owns is
  marked in the stored pool, from the accepted write of its request to the accepted write of its
  release. (Positions behind the pool are what an exhausted pool hands out.)
\<close>

theorem owned_addresses_exclusive:
  assumes "cluster_run VNI subnet c0 es c ph" and "orderly es" and "consul_ok c0" and "v4_subnet n subnet" and "0 < n"
    and "length (pool c0 VNI subnet) = length (fresh_pool subnet)"
    and "owns (ph i) p" and "in_pool subnet p"
  shows "unat p - 1 \<in> used (pool c VNI subnet) \<and>
    (\<forall>j q. owns (ph j) q \<longrightarrow> in_pool subnet q \<longrightarrow> j \<noteq> i \<longrightarrow> pos_addr subnet q \<noteq> pos_addr subnet p)"
proof -
  have inv: "cluster_inv VNI subnet c ph"
    by (rule cluster_run_inv [OF assms(1-3,6) pool_size [OF assms(4,5)]])
  have "pos_addr subnet q = pos_addr subnet p \<longleftrightarrow> q = p" for q
    by (metis add_left_cancel pos_addr_def read32_PutUint32)
  with inv assms(7,8) show ?thesis unfolding cluster_inv_def by metis
qed

text \<open>
  A call inside the cluster: what the others commit around the requests of call \<open>i\<close> is what calls
  other than \<open>i\<close> do in an orderly run. Then the call is part of such a run, and it holds what it returned.
\<close>

definition orderly_run :: "string \<Rightarrow> IPNet \<Rightarrow> consul \<Rightarrow> consul \<Rightarrow> ('i \<Rightarrow> phase) \<Rightarrow> bool" where
  "orderly_run VNI subnet c0 c ph \<longleftrightarrow> (\<exists>es. cluster_run VNI subnet c0 es c ph \<and> orderly es)"

definition others_follow :: "string \<Rightarrow> IPNet \<Rightarrow> consul \<Rightarrow> 'i \<Rightarrow> phase \<Rightarrow> net \<Rightarrow> bool" where
  "others_follow VNI subnet c0 i p s \<longleftrightarrow> (\<forall>m q t ph. turns VNI subnet m p s = (q, t) \<longrightarrow> ph i = q \<longrightarrow>
     orderly_run VNI subnet c0 (cluster t) ph \<longrightarrow> (\<exists>ph'. ph' i = q \<and> orderly_run VNI subnet c0 (served t) ph'))"

lemma turns_in_cluster:
  assumes "others_follow VNI subnet c0 i (ph i) s" and "orderly_run VNI subnet c0 (cluster s) ph"
    and "turns VNI subnet m (ph i) s = (p, s')"
  shows "\<exists>ph'. ph' i = p \<and> orderly_run VNI subnet c0 (cluster s') ph'"
  using assms(3)
proof (induction m arbitrary: p s')
  case 0
  then show ?case using assms(2) by auto
next
  case (Suc m)
  obtain q t where t: "turns VNI subnet m (ph i) s = (q, t)" by fastforce
  from Suc.IH [OF t] obtain ph1 where ph1: "ph1 i = q" "orderly_run VNI subnet c0 (cluster t) ph1" by blast
  from assms(1) t ph1 obtain ph2 es where ph2: "ph2 i = q" "cluster_run VNI subnet c0 es (served t) ph2" "orderly es"
    unfolding others_follow_def orderly_run_def by metis
  obtain c where c: "alloc_step VNI subnet (fault (sched t (clock t))) (served t) (ph2 i) = (p, c)" "s' = tick c t"
    using Suc.prems t ph2(1) by (auto simp: alloc_turn_def split: prod.splits)
  have "cluster_run VNI subnet c0 (es @ [Sent i]) (cluster s') (ph2(i := p))"
    unfolding c(2) tick_simps by (rule cluster_run.request [OF ph2(2) c(1)])
  moreover have "orderly (es @ [Sent i])" "(ph2(i := p)) i = p" using ph2(3) by simp_all
  ultimately show ?case unfolding orderly_run_def by blast
qed

lemma RequestIP_in_cluster:
  assumes "v4_subnet n subnet" and "others_follow VNI subnet c0 i (ph i) s" and "orderly_run VNI subnet c0 (cluster s) ph"
    and "ph i = Starting Request" and "RequestIP fuel VNI subnet s = (Ret ip, s')"
  shows "\<exists>ph' pos acc. orderly_run VNI subnet c0 (cluster s') ph' \<and> ph' i = Holding pos acc \<and> ip = pos_addr subnet pos"
proof -
  obtain m pos acc where m: "turns VNI subnet m (Starting Request) s = (Holding pos acc, s')" "ip = pos_addr subnet pos"
    using RequestIP_turns [OF assms(1), of fuel VNI s] assms(5) by auto
  from turns_in_cluster [OF assms(2,3), of m] assms(4) m show ?thesis by auto
qed

text \<open>The three requests of a call that are all answered, from the start to the accepted or refused write.\<close>

lemma run_request:
  assumes "cluster_run VNI subnet c0 es c ph" and "ph i = Starting Request" and "pool c VNI subnet = old"
    and "TestAndSet old = Some (pos, new)"
  shows "cluster_run VNI subnet c0 (es @ [Sent i, Sent i]) c
    (ph(i := Writing Request old pos new (kv.version (kv_lookup c (ip_path VNI subnet)))))"
proof -
  have "alloc_step VNI subnet Up c (ph i) = (Checking Request old pos new, c)"
    using assms(2-4) by (auto simp: pool_view_def get_view_def pool_lookup split: option.splits)
  from cluster_run.request [OF assms(1) this]
  have 1: "cluster_run VNI subnet c0 (es @ [Sent i]) c (ph(i := Checking Request old pos new))" .
  have "alloc_step VNI subnet Up c ((ph(i := Checking Request old pos new)) i) =
      (Writing Request old pos new (kv.version (kv_lookup c (ip_path VNI subnet))), c)"
    using assms(3) by (auto simp: pool_view_def get_view_def pool_lookup kv.version_def split: option.splits)
  from cluster_run.request [OF 1 this] show ?thesis by (simp only: fun_upd_upd append_assoc append_Cons append_Nil)
qed

lemma run_release:
  assumes "cluster_run VNI subnet c0 es c ph" and "ph i = Starting (Release pos)" and "kv_lookup c (ip_path VNI subnet) = Some (old, m)"
    and "Clear old (ucast (pos - 1)) = Some new"
  shows "cluster_run VNI subnet c0 (es @ [Sent i, Sent i]) c (ph(i := Writing (Release pos) old pos new m))"
proof -
  have "alloc_step VNI subnet Up c (ph i) = (Checking (Release pos) old pos new, c)"
    using assms(2-4) by (simp add: pool_view_def get_view_def)
  from cluster_run.request [OF assms(1) this]
  have 1: "cluster_run VNI subnet c0 (es @ [Sent i]) c (ph(i := Checking (Release pos) old pos new))" .
  have "alloc_step VNI subnet Up c ((ph(i := Checking (Release pos) old pos new)) i) = (Writing (Release pos) old pos new m, c)"
    using assms(3) by (simp add: pool_view_def get_view_def)
  from cluster_run.request [OF 1 this] show ?thesis by (simp only: fun_upd_upd append_assoc append_Cons append_Nil)
qed

lemma run_write:
  assumes "cluster_run VNI subnet c0 es c ph" and "ph i = Writing job old pos new idx" and "length new \<le> maxKVSize"
    and "kv_cas (ip_path VNI subnet) idx new c = (acc, c')"
  shows "cluster_run VNI subnet c0 (es @ [Sent i]) c' (ph(i := case job of Request \<Rightarrow> Holding pos acc | Release _ \<Rightarrow> Idle))"
  by (rule cluster_run.request [OF assms(1), where flt = Up]) (simp add: assms(2-4) pool_write_def)

text \<open>The first address of an empty pool, and the pool when it is given back.\<close>

lemma fresh_choice:
  assumes "v4_subnet n subnet" and "10 \<le> n"
  obtains pos a where "TestAndSet (fresh_pool subnet) = Some (pos, a)" "in_pool subnet pos" "length a \<le> maxKVSize"
    "length (fresh_pool subnet) \<le> maxKVSize" "Clear a (ucast (pos - 1)) = Some (fresh_pool subnet)"
proof -
  let ?f = "fresh_pool subnet"
  have size: "8 * length ?f + 1 < 2 ^ 32" by (rule pool_size [OF assms(1)]) (use assms(2) in simp)
  have "(2 :: nat) ^ (29 - n) \<le> 2 ^ 19" using assms(2) by (intro power_increasing) auto
  then have fits: "length ?f \<le> maxKVSize" using fresh_pool_v4(2) [OF assms(1)] by (simp add: maxKVSize_def)
  have free: "used ?f \<noteq> {..<8 * length ?f}" using fresh_pool_v4(2,3) [OF assms(1)] by auto
  obtain k a where k: "k < 8 * length ?f" "TestAndSet ?f = Some (of_nat (k + 1), a)" "length a = length ?f" "used a = insert k (used ?f)"
    by (rule TestAndSet_free [OF _ free]) (use size in simp_all)
  define pos where "pos = (of_nat (k + 1) :: 32 word)"
  have u: "unat pos = k + 1" unfolding pos_def using k(1) size by (intro of_nat_32_bound) simp
  then have "pos \<noteq> 0" by auto
  then have m: "unat (pos - 1) = k" using u by (simp add: unat_minus_one)
  have "unat (ucast (pos - 1) :: 64 word) = k"
    using m k(1) size by (simp add: unsigned_ucast_eq take_bit_nat_eq_self)
  then obtain a' where a': "Clear a (ucast (pos - 1)) = Some a'" "length a' = length a" "used a' = used a - {k}"
    using Clear_used [of "ucast (pos - 1)" a] k(1,3) by auto
  have "a' = ?f" using a'(2,3) k(3,4) fresh_pool_v4(3) [OF assms(1)] by (intro used_eqI) auto
  then show ?thesis
    using that [of pos a] k(1-3) u fits a'(1) by (simp add: pos_def in_pool_def)
qed

lemma kv_cas_accepts:
  assumes "consul_ok c"
  obtains c' m where "kv_cas key (kv.version (kv_lookup c key)) v c = (True, c')" "consul_ok c'" "kv_lookup c' key = Some (v, m)" "0 < m"
proof -
  obtain c' where c': "kv_cas key (kv.version (kv_lookup c key)) v c = (True, c')" "consul_ok c'" "value_at c' = (value_at c)(key \<mapsto> v)"
    using kv_cas_current [OF assms] by blast
  obtain m where m: "kv_lookup c' key = Some (v, m)" using fun_cong [OF c'(3), of key] by (auto simp: value_at_def)
  with c' kv.version_range [OF c'(2) m] that show ?thesis by blast
qed

text \<open>A call alone at an empty pool.\<close>

lemma first_request:
  assumes "v4_subnet n subnet" and "10 \<le> n" and "consul_ok c0" and "kv_lookup c0 (ip_path VNI subnet) = None"
  obtains pos c where "cluster_run VNI subnet c0 [Asked i, Sent i, Sent i, Sent i] c ((\<lambda>_. Idle)(i := Holding pos True))" "in_pool subnet pos"
proof -
  obtain pos a where f: "TestAndSet (fresh_pool subnet) = Some (pos, a)" "in_pool subnet pos" "length a \<le> maxKVSize"
    by (rule fresh_choice [OF assms(1,2)])
  obtain c m where c: "kv_cas (ip_path VNI subnet) (kv.version (kv_lookup c0 (ip_path VNI subnet))) a c0 = (True, c)"
    by (rule kv_cas_accepts [OF assms(3)])
  have "cluster_run VNI subnet c0 [Asked i] c0 ((\<lambda>_. Idle)(i := Starting Request))"
    using cluster_run.ask [OF cluster_run.init, where i = i] by simp
  from run_request [OF this _ _ f(1), where i = i] assms(4)
  have "cluster_run VNI subnet c0 [Asked i, Sent i, Sent i] c0
      ((\<lambda>_. Idle)(i := Writing Request (fresh_pool subnet) pos a (kv.version (kv_lookup c0 (ip_path VNI subnet)))))"
    by (simp add: pool_lookup)
  from run_write [OF this _ f(3) c, where i = i] that [OF _ f(2)] show ?thesis by simp
qed

theorem owned_addresses_exclusive_witness:
  "\<exists>es c ph pos. cluster_run ''7'' net24 (cluster idle) es c (ph :: bool \<Rightarrow> phase) \<and> orderly es \<and> owns (ph True) pos \<and>
    in_pool net24 pos \<and> unat pos - 1 \<in> used (pool c ''7'' net24)"
proof -
  have ok: "consul_ok (cluster idle)" using idle_simps(1) by (simp add: net_ok_def)
  obtain pos c where r: "cluster_run ''7'' net24 (cluster idle) [Asked True, Sent True, Sent True, Sent True] c ((\<lambda>_. Idle)(True := Holding pos True))"
      "in_pool net24 pos"
    by (rule first_request [OF v4_subnet_net24 _ ok]) simp_all
  have o: "orderly [Asked True, Sent True, Sent True, Sent True]" by (simp add: orderly_def)
  have "unat pos - 1 \<in> used (pool c ''7'' net24)"
    using owned_addresses_exclusive [OF r(1) o ok v4_subnet_net24, where i = True and p = pos] r(2) by simp
  with r o show ?thesis
    by (intro exI [of _ "[Asked True, Sent True, Sent True, Sent True]"] exI [of _ c] exI [of _ "(\<lambda>_. Idle)(True := Holding pos True)"] exI [of _ pos]) simp
qed

text \<open>
  C35. The restriction is needed: of two calls that start together at an empty pool one loses, is handed the
  same address nevertheless, and gives it back, as \<^verbatim>\<open>deleteConnection\<close> does. That clears the winner's
  mark, and a third call is given the winner's address by an accepted write. Nothing else is irregular
  in the run.
\<close>

theorem loser_release_shares_address:
  assumes "v4_subnet n subnet" and "10 \<le> n" and "consul_ok c0" and "kv_lookup c0 (ip_path VNI subnet) = None"
  shows "\<exists>es c ph pos. cluster_run VNI subnet c0 es c (ph :: nat \<Rightarrow> phase) \<and> filter (\<lambda>e. \<not> orderly_event e) es = [GaveBack 1 False] \<and>
    ph 0 = Holding pos True \<and> ph 2 = Holding pos True \<and> in_pool subnet pos"
proof -
  let ?p = "ip_path VNI subnet" and ?f = "fresh_pool subnet" and ?run = "cluster_run VNI subnet c0 :: nat cluster_event list \<Rightarrow> consul \<Rightarrow> (nat \<Rightarrow> phase) \<Rightarrow> bool"
  obtain pos a where f: "TestAndSet ?f = Some (pos, a)" "in_pool subnet pos" "length a \<le> maxKVSize" "length ?f \<le> maxKVSize"
      "Clear a (ucast (pos - 1)) = Some ?f"
    by (rule fresh_choice [OF assms(1,2)])
  have pool0: "pool c0 VNI subnet = ?f" using assms(4) by (simp add: pool_lookup)
  have v0: "kv.version (kv_lookup c0 ?p) = 0" using assms(4) by (simp add: kv.version_def)
  have "?run [Asked 0] c0 ((\<lambda>_. Idle)(0 := Starting Request))" using cluster_run.ask [OF cluster_run.init, where i = 0] by simp
  from run_request [OF this _ pool0 f(1), where i = 0] v0
  have "?run [Asked 0, Sent 0, Sent 0] c0 ((\<lambda>_. Idle)(0 := Writing Request ?f pos a 0))" by simp
  from run_request [OF cluster_run.ask [OF this, where i = 1] _ pool0 f(1), where i = 1] v0
  have r1: "?run ([Asked 0, Sent 0, Sent 0] @ [Asked 1, Sent 1, Sent 1]) c0
      ((\<lambda>_. Idle)(0 := Writing Request ?f pos a 0, 1 := Writing Request ?f pos a 0))" by simp
  obtain c1 m1 where c1: "kv_cas ?p 0 a c0 = (True, c1)" "consul_ok c1" "kv_lookup c1 ?p = Some (a, m1)" "0 < m1"
    using kv_cas_accepts [OF assms(3), of ?p a] v0 by metis
  from run_write [OF r1 _ f(3) c1(1), where i = 0] have
    r2: "?run ([Asked 0, Sent 0, Sent 0] @ [Asked 1, Sent 1, Sent 1] @ [Sent 0]) c1
      ((\<lambda>_. Idle)(0 := Holding pos True, 1 := Writing Request ?f pos a 0))" by (simp add: fun_upd_twist)
  obtain c2 where c2: "kv_cas ?p 0 a c1 = (False, c2)"
    using kv.cas_decides [OF c1(2), of ?p 0 a] c1(3,4) by (cases "kv_cas ?p 0 a c1") auto
  have l2: "kv_lookup c2 ?p = Some (a, m1)" using kv.cas_refuses [OF c1(2) c2] c1(3) by simp
  have ok2: "consul_ok c2" using kv.evolve_ok [OF c1(2) kv.cas_evolves [OF c1(2), of ?p 0 a]] c2 by simp
  from run_write [OF r2 _ f(3) c2, where i = 1]
  have r3: "?run ([Asked 0, Sent 0, Sent 0] @ [Asked 1, Sent 1, Sent 1] @ [Sent 0, Sent 1]) c2
      ((\<lambda>_. Idle)(0 := Holding pos True, 1 := Holding pos False))" by simp
  from run_release [OF cluster_run.give_back [OF r3, where i = 1 and accepted = False] _ l2 f(5), where i = 1]
  have r4: "?run ([Asked 0, Sent 0, Sent 0] @ [Asked 1, Sent 1, Sent 1] @ [Sent 0, Sent 1, GaveBack 1 False, Sent 1, Sent 1]) c2
      ((\<lambda>_. Idle)(0 := Holding pos True, 1 := Writing (Release pos) a pos ?f m1))" by simp
  obtain c3 m3 where c3: "kv_cas ?p m1 ?f c2 = (True, c3)" "consul_ok c3" "kv_lookup c3 ?p = Some (?f, m3)" "0 < m3"
    using kv_cas_accepts [OF ok2, of ?p ?f] l2 by (auto simp: kv.version_def)
  from run_write [OF r4 _ f(4) c3(1), where i = 1]
  have r5: "?run ([Asked 0, Sent 0, Sent 0] @ [Asked 1, Sent 1, Sent 1] @ [Sent 0, Sent 1, GaveBack 1 False, Sent 1, Sent 1, Sent 1]) c3
      ((\<lambda>_. Idle)(0 := Holding pos True, 1 := Idle))" by simp
  have "pool c3 VNI subnet = ?f" using c3(3) by (simp add: pool_lookup)
  from run_request [OF cluster_run.ask [OF r5, where i = 2] _ this f(1), where i = 2] c3(3)
  have r6: "?run (([Asked 0, Sent 0, Sent 0] @ [Asked 1, Sent 1, Sent 1] @ [Sent 0, Sent 1, GaveBack 1 False, Sent 1, Sent 1, Sent 1]) @ [Asked 2, Sent 2, Sent 2]) c3
      ((\<lambda>_. Idle)(0 := Holding pos True, 1 := Idle, 2 := Writing Request ?f pos a m3))" by (simp add: kv.version_def)
  obtain c4 where c4: "kv_cas ?p m3 a c3 = (True, c4)"
    using kv_cas_accepts [OF c3(2), of ?p a] c3(3) by (auto simp: kv.version_def)
  from run_write [OF r6 _ f(3) c4, where i = 2] f(2) show ?thesis by fastforce
qed

theorem loser_release_shares_address_witness:
  "\<exists>es c ph pos. cluster_run ''7'' net24 (cluster idle) es c (ph :: nat \<Rightarrow> phase) \<and> filter (\<lambda>e. \<not> orderly_event e) es = [GaveBack 1 False] \<and>
    ph 0 = Holding pos True \<and> ph 2 = Holding pos True \<and> in_pool net24 pos"
  by (rule loser_release_shares_address [OF v4_subnet_net24]) (use idle_simps(1) in \<open>simp_all add: net_ok_def\<close>)

end
