(* ===== verification/PoolLimits.thy ===== *)
theory PoolLimits
  imports ConnectionProps
begin

text \<open>
  Where the pools end: what a request gets from a full pool, what happens to an address that two
  containers ask for, and to an identifier that two nodes take at once (\<^verbatim>\<open>RequestIP\<close>, \<^verbatim>\<open>MarkUsed\<close> and
  \<^verbatim>\<open>allocateVNI\<close> in \<^verbatim>\<open>server/network.go\<close>, their callers in \<^verbatim>\<open>server/connection.go\<close>).
\<close>

section \<open>Exhaustion\<close>

lemma behind_subnet:
  assumes "v4_subnet n subnet" and "0 < n" and "j < 2 ^ (32 - n)"
  shows "\<not> net_Contains subnet (slot_addr subnet (2 ^ (32 - n) + j - 1))"
proof
  let ?k = "32 - n" and ?b = "read32 (net_IP subnet)"
  define x where "x = ?b + of_nat (2 ^ ?k + j)"
  assume "net_Contains subnet (slot_addr subnet (2 ^ (32 - n) + j - 1))"
  moreover have "slot_addr subnet (2 ^ ?k + j - 1) = PutUint32 x"
    by (simp add: slot_addr_def x_def del: of_nat_add)
  ultimately have "x AND NOT (mask ?k) = ?b" by (simp add: subnet_contains_iff [OF assms(1)])
  moreover have "x = take_bit ?k x + (x AND NOT (mask ?k))"
  proof -
    have "take_bit ?k x + (x AND NOT (mask ?k)) = take_bit ?k x OR (x AND NOT (mask ?k))"
      by (rule disjunctive_add) (auto simp: bit_simps)
    also have "\<dots> = x" by (rule bit_word_eqI) (auto simp: bit_simps)
    finally show ?thesis by simp
  qed
  ultimately have "of_nat (2 ^ ?k + j) = take_bit ?k x" by (simp add: x_def)
  moreover have "2 ^ ?k + j < 2 ^ 32"
  proof -
    have "(2 :: nat) ^ ?k \<le> 2 ^ 31" using assms(2) by (intro power_increasing) auto
    then show ?thesis using assms(3) by simp
  qed
  ultimately have "2 ^ ?k + j = unat (take_bit ?k x)" using of_nat_32_bound by metis
  moreover have "unat (take_bit ?k x) < 2 ^ ?k" by (simp add: unsigned_take_bit_eq)
  ultimately show False by simp
qed

text \<open>
  C33. The pool of a network with a mask of 10 to 29 bits has one slot for each of its \<open>2 ^ (32 - n)\<close> addresses, but
  slot \<open>k\<close> stands for address \<open>k + 1\<close>: the last slot is the first address behind the network. A request at a
  full pool is not refused: it returns, every time, the address after that one, and leaves the
  pool as it is.
\<close>

theorem RequestIP_exhausted:
  assumes "net_ok s" and "quiet_for 3 s" and "v4_subnet n subnet" and "10 \<le> n" and "n \<le> 29"
    and "pool (cluster s) VNI subnet = a" and "length a = length (fresh_pool subnet)" and "used a = {..<8 * length a}"
  shows "8 * length a = 2 ^ (32 - n) \<and> \<not> net_Contains subnet (slot_addr subnet (8 * length a - 1)) \<and>
    \<not> net_Contains subnet (slot_addr subnet (8 * length a)) \<and>
    (\<exists>s'. RequestIP (Suc fuel) VNI subnet s = (Ret (slot_addr subnet (8 * length a)), s') \<and> pool (cluster s') VNI subnet = a)"
proof -
  have len: "8 * length a = 2 ^ (32 - n)"
  proof -
    have "32 - n = 3 + (29 - n)" using assms(5) by simp
    then have "(2 :: nat) ^ (32 - n) = 8 * 2 ^ (29 - n)" by (simp only: power_add) simp
    then show ?thesis using fresh_pool_v4(2) [OF assms(3)] assms(5,7) by simp
  qed
  have two: "1 < (2 :: nat) ^ (32 - n)" using assms(5) by (intro one_less_power) auto
  have le: "(2 :: nat) ^ (32 - n) \<le> 2 ^ 22" using assms(4) by (intro power_increasing) auto
  have fits: "length a \<le> maxKVSize" using len le by (simp add: maxKVSize_def)
  have "TestAndSet a = Some (of_nat (8 * length a + 1), a)"
    by (rule TestAndSet_full) (use assms(8) len le in simp_all)
  then obtain s' where r: "RequestIP (Suc fuel) VNI subnet s = (Ret (PutUint32 (read32 (net_IP subnet) + of_nat (8 * length a + 1))), s')"
      "value_at (cluster s') = (value_at (cluster s))(ip_path VNI subnet \<mapsto> a)"
    using RequestIP_quiet [OF assms(1-3), of VNI _ a fuel] fits assms(6) by metis
  have "pool (cluster s') VNI subnet = a" using r(2) by (simp add: pool_def)
  moreover have "\<not> net_Contains subnet (slot_addr subnet (8 * length a - 1))"
    using behind_subnet [OF assms(3), of 0] assms(4) len by simp
  moreover have "\<not> net_Contains subnet (slot_addr subnet (8 * length a))"
    using behind_subnet [OF assms(3) _ two] assms(4) len by simp
  ultimately show ?thesis using r(1) len unfolding slot_addr_def by blast
qed

lemma used_all_ones: "used (replicate n (- 1)) = {..<8 * n}"
  by (auto simp: used_def)

theorem RequestIP_exhausted_witness:
  "\<exists>s'. RequestIP 1 ''7'' net24 (holding (ip_path ''7'' net24) (replicate 32 (- 1))) = (Ret (slot_addr net24 256), s') \<and>
    \<not> net_Contains net24 (slot_addr net24 256)"
  using RequestIP_exhausted [of "holding (ip_path ''7'' net24) (replicate 32 (- 1))" 24 net24 "''7''" "replicate 32 (- 1)" 0]
  by (auto simp: pool_def used_all_ones)

section \<open>Static addresses\<close>

text \<open>
  A requested address is not checked against the pool: whether or not it is in use, the
  connection gets it, so that two containers that ask for the same address both get it; the
  second one leaves the pool as it was.
\<close>

theorem static_address_shared:
  assumes "w_ok w" and "alone (w_kv w)" and "value_at (cluster (w_kv w)) (ip_path (vni_str VNI) subnet) = Some a"
    and "length a \<le> maxKVSize" and "requestIp \<noteq> []"
    and "unat (ip_slot (ParseIP requestIp) subnet) < 8 * length a"
  shows "\<exists>w1 w2. choose_ip (Suc fuel) VNI requestIp subnet w = (Ret (ParseIP requestIp), w1) \<and>
    choose_ip (Suc fuel) VNI requestIp subnet w1 = (Ret (ParseIP requestIp), w2) \<and>
    used (pool (cluster (w_kv w1)) (vni_str VNI) subnet) = insert (unat (ip_slot (ParseIP requestIp) subnet)) (used a) \<and>
    used (pool (cluster (w_kv w2)) (vni_str VNI) subnet) = used (pool (cluster (w_kv w1)) (vni_str VNI) subnet)"
proof -
  let ?ip = "ParseIP requestIp" and ?V = "vni_str VNI"
  have s: "net_ok (w_kv w)" "quiet_for 3 (w_kv w)" using assms(1,2) by (simp_all add: w_ok_def alone_quiet)
  obtain a1 s1 where m1: "MarkUsed (Suc fuel) ?V ?ip subnet (w_kv w) = (Ret True, s1)" "net_ok s1" "sched s1 = sched (w_kv w)"
      "value_at (cluster s1) = (value_at (cluster (w_kv w)))(ip_path ?V subnet \<mapsto> a1)"
      "length a1 = length a" "used a1 = insert (unat (ip_slot ?ip subnet)) (used a)"
    by (rule MarkUsed_quiet [OF s assms(3,4,6)])
  have s1: "quiet_for 3 s1" using assms(2) m1(3) by (simp add: alone_def quiet_for_def)
  have v1: "value_at (cluster s1) (ip_path ?V subnet) = Some a1" "length a1 \<le> maxKVSize"
    "unat (ip_slot ?ip subnet) < 8 * length a1" using m1(4,5) assms(4,6) by simp_all
  obtain a2 s2 where m2: "MarkUsed (Suc fuel) ?V ?ip subnet s1 = (Ret True, s2)"
      "value_at (cluster s2) = (value_at (cluster s1))(ip_path ?V subnet \<mapsto> a2)"
      "used a2 = insert (unat (ip_slot ?ip subnet)) (used a1)"
    by (rule MarkUsed_quiet [OF m1(2) s1 v1])
  have c: "choose_ip (Suc fuel) VNI requestIp subnet v = (Ret ?ip, v\<lparr>w_kv := s'\<rparr>)"
    if "MarkUsed (Suc fuel) ?V ?ip subnet (w_kv v) = (Ret True, s')" for v :: "'a world" and s'
    using that assms(5) by (simp add: choose_ip_def Let_def on_kv_def gbind_def gret_def del: MarkUsed.simps)
  show ?thesis
    using c [OF m1(1)] c [of "w\<lparr>w_kv := s1\<rparr>" s2] m1(4,6) m2 by (auto simp: pool_def)
qed

theorem static_address_shared_witness:
  "\<exists>w1 w2. choose_ip 1 7 (v4_string [192, 168, 7, 5]) net24 (world0\<lparr>w_kv := holding (ip_path (vni_str 7) net24) (replicate 32 0)\<rparr>) =
     (Ret (IPv4 192 168 7 5), w1) \<and> choose_ip 1 7 (v4_string [192, 168, 7, 5]) net24 w1 = (Ret (IPv4 192 168 7 5), w2)"
proof -
  let ?w = "world0\<lparr>w_kv := holding (ip_path (vni_str 7) net24) (replicate 32 0)\<rparr>"
  have slot: "unat (ip_slot (IPv4 192 168 7 5) net24) < 8 * length (replicate 32 (0 :: byte))"
    by (simp add: ip_slot_def net24_def Uint32_def)
  have "v4_string [192, 168, 7, 5] \<noteq> []" using ParseIP_v4_string [of 192 168 7 5] by (auto simp: v4_string_def)
  moreover have "w_ok ?w" by (simp add: w_ok_def)
  moreover have "alone (w_kv ?w)" by (simp add: alone_def holding_def idle_def)
  ultimately show ?thesis
    using static_address_shared [of ?w "7" net24 "replicate 32 0" "v4_string [192, 168, 7, 5]" 0] slot
    by (auto simp: maxKVSize_def ParseIP_v4_string)
qed

section \<open>Network identifiers under contention\<close>

text \<open>
  \<^verbatim>\<open>allocateVNI\<close> does not look at the result of its write: when another node takes the least free identifier
  between the read and the write, the write is recognised as outdated and not sent, and the call
  returns that identifier as its own.
\<close>

theorem allocateVNI_duplicate:
  "\<exists>a s s'. net_ok s \<and> up_for 3 s \<and> value_at (cluster s) vni_path = None \<and>
    others (sched s (clock s + 1)) = [cas_request vni_path 0 a] \<and> used a = {0} \<and>
    allocateVNI s = (Ret (1, None), s') \<and> value_at (cluster s') vni_path = Some a"
proof -
  have small: "8 * length vlan_zeros < 2 ^ 32" "used vlan_zeros \<noteq> {..<8 * length vlan_zeros}" by simp_all
  obtain k a where k: "\<forall>j < k. j \<in> used vlan_zeros" "TestAndSet vlan_zeros = Some (of_nat (k + 1), a)"
      "used a = insert k (used vlan_zeros)" "length a = length vlan_zeros"
    by (rule TestAndSet_free [OF small]) blast
  then have k0: "k = 0" and a: "used a = {0}" by auto
  have ne: "vlan_zeros \<noteq> a" using a by (metis empty_not_insert vlan_zeros_simps(2))
  define s where "s = idle\<lparr>sched := (\<lambda>i. if i = 1 then \<lparr>others = [cas_request vni_path 0 a], fault = Up\<rparr> else quiet_env)\<rparr>"
  let ?s1 = "tick (cluster s) s" and ?c = "snd (kv_cas vni_path 0 a (cluster idle))"
  have up: "up_for (Suc (Suc (Suc 0))) s" by (auto simp: up_for_def s_def quiet_env_def)
  have served: "served s = cluster s" "served ?s1 = ?c"
    by (simp_all add: served_def s_def quiet_env_def idle_def kv_cas_def split: prod.split)
  have cas: "value_at ?c = (value_at (cluster idle))(vni_path \<mapsto> a)"
    using kv_cas_current [of "cluster idle" vni_path a] idle_simps(1) by (auto simp: kv.version_def net_ok_def)
  obtain m where m: "kv_lookup ?c vni_path = Some (a, m)" using fun_cong [OF cas, of vni_path] by (auto simp: value_at_def)
  have none: "kv_lookup (cluster s) vni_path = None" by (simp add: s_def)
  have G: "Get vlanStore ''vlan'' s = (Ret ([], 0, False), ?s1)"
    using Get_up [OF up] served none by (simp add: get_view_def)
  have P: "Put vlanStore ''vlan'' a vlan_zeros ?s1 = (Ret OUTDATED, tick ?c ?s1)"
    using Put_up [OF up_for_tick [OF up], of a vlanStore "''vlan''" vlan_zeros "cluster s"] served m ne k(4)
    by (simp add: stale_def maxKVSize_def)
  have "allocateVNI s = (Ret (1, None), tick ?c ?s1)"
    using allocateVNI_run [OF G, of vlan_zeros] k(2) k0 P by (simp add: gbind_def gret_def vlanCount_def)
  moreover have "net_ok s" "value_at (cluster s) vni_path = None" "up_for 3 s"
      "others (sched s (clock s + 1)) = [cas_request vni_path 0 a]"
    using idle_simps(1) up by (simp_all add: s_def net_ok_def numeral_3_eq_3)
  ultimately show ?thesis using a cas by (intro exI [of _ a] exI [of _ s] exI [of _ "tick ?c ?s1"]) simp
qed

end
