(* ===== verification/Entry.thy ===== *)
theory Entry
  imports Backend
begin

text \<open>
  The two programs of the repository: the daemon's command (\<^verbatim>\<open>main.go\<close>) and the demonstration of the
  agent (\<^verbatim>\<open>netAgent/demo/main.go\<close>). The packages \<^verbatim>\<open>cli\<close> and \<^verbatim>\<open>flag\<close> are third-party and library code: what
  they parsed is the argument of the definitions.
\<close>

section \<open>The daemon's command\<close>

datatype cli_Flag =
    StringFlag (flag_Name: string) (flag_Value: string)
  | BoolFlag (flag_Name: string)

definition app_Flags :: "cli_Flag list" where
  "app_Flags = [StringFlag ''iface, i'' ''eth0'', BoolFlag ''server, s'', StringFlag ''expectedServerNum, n'' ''1'']"

text \<open>The action installs a new daemon in the process and runs it.\<close>

definition app_Action :: "'o host \<Rightarrow> cli_flags \<Rightarrow> ('o world, unit) go" where
  "app_Action h c = gbind (change (\<lambda>w. w\<lparr>w_daemon := NewDaemon\<rparr>)) (\<lambda>_. Run h c)"

text \<open>
  Whatever the process held before, the daemon starts with no connections, no gateways and not ready,
  in the mode the flags ask for; the interface is set by the goroutine of the agent.
\<close>

lemma app_Action_starts:
  "\<exists>w'. app_Action h c w = (Ret (), w') \<and>
    w_daemon w' = NewDaemon\<lparr>d_isServer := fl_server c, d_expServerNum := fl_expectedServerNum c\<rparr> \<and> w_kv w' = w_kv w"
  by (cases "h_Mkdir h ''/var/run/netns'' (w_os w)") (simp add: app_Action_def Run_def gbind_def go_run)

section \<open>The demonstration\<close>

definition demo_value1 :: bytes where "demo_value1 = map of_char ''value1''"
definition demo_value2 :: bytes where "demo_value2 = map of_char ''value2''"

text \<open>\<^verbatim>\<open>keyUpdates\<close>: the current value is read from the store \<^verbatim>\<open>network\<close>, the updates go to \<^verbatim>\<open>haha\<close>.\<close>

definition keyUpdates :: "string \<Rightarrow> (net, unit) go" where
  "keyUpdates key =
     gbind (Get ''network'' key) (\<lambda>(currVal, _, _).
     gbind (Put ''haha'' key demo_value1 currVal) (\<lambda>_.
     gbind (Put ''haha'' key demo_value2 demo_value1) (\<lambda>_. gret ())))"

text \<open>
  What the flags of the demonstration hold, and what the process can change. The goroutines that
  register the listener are run where they are started; the listener only prints.
\<close>

record demo_flags =
  df_bootstrap :: bool
  df_serverMode :: bool
  df_netInterface :: string
  df_serverAddr :: string

definition demo_defaults :: demo_flags where
  "demo_defaults = \<lparr>df_bootstrap = False, df_serverMode = False, df_netInterface = ''eth0'', df_serverAddr = ''10.10.105.2''\<rparr>"

definition demo_dataDir :: string where
  "demo_dataDir = ''/tmp/test''"

record 'o demo_world =
  dm_os :: 'o
  dm_watch :: "unit watch_state"
  dm_net :: net

definition dm_on_os :: "('o \<Rightarrow> error \<times> 'o) \<Rightarrow> ('o demo_world, error) go" where
  "dm_on_os f w = (case f (dm_os w) of (r, s) \<Rightarrow> (Ret r, w\<lparr>dm_os := s\<rparr>))"

definition dm_on_watch :: "(unit watch_state, 'a) go \<Rightarrow> ('o demo_world, 'a) go" where
  "dm_on_watch m w = (case m (dm_watch w) of (r, s) \<Rightarrow> (r, w\<lparr>dm_watch := s\<rparr>))"

definition dm_on_net :: "(net, 'a) go \<Rightarrow> ('o demo_world, 'a) go" where
  "dm_on_net m w = (case m (dm_net w) of (r, s) \<Rightarrow> (r, w\<lparr>dm_net := s\<rparr>))"

definition demo_main ::
  "(string list \<Rightarrow> 'o \<Rightarrow> (string + int) \<times> 'o) \<Rightarrow> (string \<Rightarrow> string + (string + string list)) \<Rightarrow> bool \<Rightarrow> demo_flags
   \<Rightarrow> ('o demo_world, unit) go" where
  "demo_main run iface early fl =
     gbind (dm_on_watch (StartAgent iface early (df_serverMode fl) ''1'' (df_netInterface fl) demo_dataDir)) (\<lambda>(_, err).
     gbind (if \<not> df_bootstrap fl then dm_on_os (Join run (df_serverAddr fl)) else gret None) (\<lambda>_.
       if err \<noteq> None then gpanic ''start agent failed''
       else
         gbind (dm_on_watch (\<lambda>st. (Ret (), RegisterForNodeUpdates () st))) (\<lambda>_.
         gbind (dm_on_watch (\<lambda>st. (Ret (), RegisterForKeyUpdates ''haha'' ''test'' () st))) (\<lambda>_.
         gbind (dm_on_net (keyUpdates ''test'')) (\<lambda>_.
         gbind (dm_on_net (Delete ''haha'' ''test'')) (\<lambda>_.
         gbind (dm_on_watch (\<lambda>st. (Ret (), RegisterForKeyUpdates ''haha'' ''test2'' () st))) (\<lambda>_.
         gbind (dm_on_net (keyUpdates ''test2'')) (\<lambda>_.
         gbind (dm_on_net (keyUpdates ''test'')) (\<lambda>_.
         gbind (dm_on_os (Leave run)) (\<lambda>_. gret ()))))))))))"

lemma demo_values_fit: "length demo_value1 \<le> maxKVSize" "length demo_value2 \<le> maxKVSize"
  by (simp_all add: demo_value1_def demo_value2_def maxKVSize_def)

lemma keyUpdates_fresh:
  assumes "net_ok s" and "quiet_for 5 s" and "value_at (cluster s) (key_path ''haha'' key) = None"
  obtains s' where "keyUpdates key s = (Ret (), s')" "net_ok s'" "sched s' = sched s" "clock s' = clock s + 5"
    "value_at (cluster s') = (value_at (cluster s))(key_path ''haha'' key \<mapsto> demo_value2)"
proof -
  let ?k = "key_path ''haha'' key"
  have q: "quiet_for (Suc 4) s" using assms(2) by simp
  obtain currVal m b where g: "Get ''network'' key s = (Ret (currVal, m, b), tick (cluster s) s)"
    using Get_quiet [OF q, of "''network''" key] by (metis prod_cases3)
  let ?s = "tick (cluster s) s"
  have ok: "net_ok ?s" using assms(1) by (simp add: net_ok_def)
  have q4: "quiet_for 4 ?s" using quiet_for_later [OF q, of ?s 1] by simp
  then have q2: "quiet_for 2 ?s" by (rule quiet_for_mono) simp
  have "\<not> stale currVal (kv_lookup (cluster ?s) ?k)" using assms(3) by (simp add: stale_def value_at_def)
  then obtain s1 where s1: "Put ''haha'' key demo_value1 currVal ?s = (Ret OK, s1)" "net_ok s1" "sched s1 = sched ?s"
      "clock s1 = clock ?s + 2" "value_at (cluster s1) = (value_at (cluster ?s))(?k \<mapsto> demo_value1)"
    by (rule Put_quiet [OF ok q2 demo_values_fit(1)])
  have "quiet_for 2 s1" using quiet_for_later [OF q4 s1(3,4)] by simp
  moreover have "\<not> stale demo_value1 (kv_lookup (cluster s1) ?k)"
    using fun_cong [OF s1(5), of ?k] by (auto simp: stale_def value_at_def split: option.splits)
  ultimately obtain s2 where "Put ''haha'' key demo_value2 demo_value1 s1 = (Ret OK, s2)" "net_ok s2" "sched s2 = sched s1"
      "clock s2 = clock s1 + 2" "value_at (cluster s2) = (value_at (cluster s1))(?k \<mapsto> demo_value2)"
    by (rule Put_quiet [OF s1(2) _ demo_values_fit(2)])
  with s1 g show ?thesis by (intro that [of s2]) (simp_all add: keyUpdates_def gbind_def gret_def)
qed

text \<open>
  Started on a store that has neither key and that nobody else uses, the demonstration leaves both keys
  at the second value and no other key changed.
\<close>

lemma demo_main_result:
  assumes "net_ok (dm_net w)" and "quiet_for 16 (dm_net w)"
    and "value_at (cluster (dm_net w)) (key_path ''haha'' ''test'') = None" "value_at (cluster (dm_net w)) (key_path ''haha'' ''test2'') = None"
    and "StartAgent iface early (df_serverMode fl) ''1'' (df_netInterface fl) demo_dataDir (dm_watch w) = (Ret (args, None), st)"
  shows "\<exists>w'. demo_main run iface early fl w = (Ret (), w') \<and> value_at (cluster (dm_net w')) = (value_at (cluster (dm_net w)))
    (key_path ''haha'' ''test'' \<mapsto> demo_value2, key_path ''haha'' ''test2'' \<mapsto> demo_value2)"
proof -
  let ?s = "dm_net w"
  let ?a = "key_path ''haha'' ''test''" and ?b = "key_path ''haha'' ''test2''"
  have ab: "?a \<noteq> ?b" by (simp add: key_path_def)
  obtain s1 where s1: "keyUpdates ''test'' ?s = (Ret (), s1)" "net_ok s1" "sched s1 = sched ?s" "clock s1 = clock ?s + 5"
      "value_at (cluster s1) = (value_at (cluster ?s))(?a \<mapsto> demo_value2)"
    by (rule keyUpdates_fresh [OF assms(1) quiet_for_mono [OF assms(2)] assms(3)]) simp
  have q1: "quiet_for 11 s1" using quiet_for_later [OF assms(2) s1(3,4)] by simp
  obtain s2 where s2: "Delete ''haha'' ''test'' s1 = (Ret OK, s2)" "net_ok s2" "sched s2 = sched s1" "clock s2 = clock s1 + 1"
      "value_at (cluster s2) = (value_at (cluster s1))(?a := None)"
    by (rule Delete_quiet [OF s1(2) quiet_for_mono [OF q1]]) simp
  have q2: "quiet_for 10 s2" using quiet_for_later [OF q1 s2(3,4)] by simp
  then have q5: "quiet_for 5 s2" by (rule quiet_for_mono) simp
  have "value_at (cluster s2) ?b = None" using assms(4) s1(5) s2(5) ab by simp
  then obtain s3 where s3: "keyUpdates ''test2'' s2 = (Ret (), s3)" "net_ok s3" "sched s3 = sched s2" "clock s3 = clock s2 + 5"
      "value_at (cluster s3) = (value_at (cluster s2))(?b \<mapsto> demo_value2)"
    by (rule keyUpdates_fresh [OF s2(2) q5])
  have q3: "quiet_for 5 s3" using quiet_for_later [OF q2 s3(3,4)] by simp
  have "value_at (cluster s3) ?a = None" using s2(5) s3(5) ab by simp
  then obtain s4 where s4: "keyUpdates ''test'' s3 = (Ret (), s4)" "value_at (cluster s4) = (value_at (cluster s3))(?a \<mapsto> demo_value2)"
    by (rule keyUpdates_fresh [OF s3(2) q3])
  obtain e1 o1 where o1: "(if \<not> df_bootstrap fl then dm_on_os (Join run (df_serverAddr fl)) else gret None) (w\<lparr>dm_watch := st\<rparr>) =
      (Ret e1, w\<lparr>dm_watch := st, dm_os := o1\<rparr>)"
    by (cases "Join run (df_serverAddr fl) (dm_os w)"; cases "df_bootstrap fl") (auto simp: dm_on_os_def gret_def, metis demo_world.surjective demo_world.update_convs)
  obtain e2 o2 where o2: "Leave run o1 = (e2, o2)" by fastforce
  have "\<exists>w'. demo_main run iface early fl w = (Ret (), w') \<and> dm_net w' = s4"
    using assms(5) o1 o2 s1(1) s2(1) s3(1) s4(1)
    by (simp add: demo_main_def gbind_def dm_on_watch_def dm_on_net_def dm_on_os_def gret_def)
  moreover have "value_at (cluster s4) = (value_at (cluster ?s))(?a \<mapsto> demo_value2, ?b \<mapsto> demo_value2)"
    using s1(5) s2(5) s3(5) s4(2) ab by (auto simp: fun_eq_iff)
  ultimately show ?thesis by auto
qed

end
