(* ===== verification/Shutdown.thy ===== *)
theory Shutdown
  imports Prelude
begin

text \<open>
  The shutdown channel of the Consul commands (\<^verbatim>\<open>makeShutdownCh\<close> in \<^verbatim>\<open>netAgent/consul.go\<close>): a signal channel with room
  for four, a result channel without a buffer, and the goroutine between them. \<^verbatim>\<open>signal.Notify\<close> does
  not wait: a signal that finds the channel full is dropped.
\<close>

record shutdown_ch =
  sh_signals :: nat
  sh_sending :: bool
  sh_received :: nat

datatype shutdown_event = Signal | Forward | Receive

definition makeShutdownCh :: shutdown_ch where
  "makeShutdownCh = \<lparr>sh_signals = 0, sh_sending = False, sh_received = 0\<rparr>"

text \<open>A signal arrives; the goroutine takes one and offers it; the command receives what is offered.\<close>

fun shutdown_step :: "shutdown_event \<Rightarrow> shutdown_ch \<Rightarrow> shutdown_ch" where
  "shutdown_step Signal s = (if sh_signals s < 4 then s\<lparr>sh_signals := sh_signals s + 1\<rparr> else s)"
| "shutdown_step Forward s =
     (if 0 < sh_signals s \<and> \<not> sh_sending s then s\<lparr>sh_signals := sh_signals s - 1, sh_sending := True\<rparr> else s)"
| "shutdown_step Receive s = (if sh_sending s then s\<lparr>sh_sending := False, sh_received := sh_received s + 1\<rparr> else s)"

definition sh_pending :: "shutdown_ch \<Rightarrow> nat" where
  "sh_pending s = sh_signals s + (if sh_sending s then 1 else 0)"

lemma shutdown_step_counts:
  "sh_signals s \<le> 4 \<Longrightarrow> sh_signals (shutdown_step e s) \<le> 4 \<and>
    sh_received (shutdown_step e s) + sh_pending (shutdown_step e s) =
    sh_received s + sh_pending s + (if e = Signal \<and> sh_signals s < 4 then 1 else 0)"
  by (cases e) (auto simp: sh_pending_def)

text \<open>
  The channel never invents a message and holds at most five that were not received. As long as
  no more than four signals came in all, none is lost; in general those that find four
  waiting are.
\<close>

lemma shutdown_messages:
  "let s = fold shutdown_step es makeShutdownCh; n = count_list es Signal in
    sh_received s + sh_pending s \<le> n \<and> sh_pending s \<le> 5 \<and> (n \<le> 4 \<longrightarrow> sh_received s + sh_pending s = n)"
proof -
  have "sh_signals (fold shutdown_step es makeShutdownCh) \<le> 4 \<and>
      sh_received (fold shutdown_step es makeShutdownCh) + sh_pending (fold shutdown_step es makeShutdownCh) \<le> count_list es Signal \<and>
      (count_list es Signal \<le> 4 \<longrightarrow>
        sh_received (fold shutdown_step es makeShutdownCh) + sh_pending (fold shutdown_step es makeShutdownCh) = count_list es Signal)"
  proof (induction es rule: rev_induct)
    case (snoc e es)
    let ?s = "fold shutdown_step es makeShutdownCh"
    have "sh_signals ?s < 4" if "e = Signal" "count_list (es @ [e]) Signal \<le> 4"
      using snoc that by (auto simp: sh_pending_def)
    with snoc shutdown_step_counts [of ?s e] show ?case by (auto simp del: shutdown_step.simps)
  qed (simp add: makeShutdownCh_def sh_pending_def)
  then show ?thesis by (auto simp: Let_def sh_pending_def)
qed

text \<open>Everything that waits is delivered once the command receives.\<close>

lemma shutdown_drains:
  assumes "sh_signals s = k"
  shows "\<exists>es. Signal \<notin> set es \<and> sh_pending (fold shutdown_step es s) = 0 \<and>
    sh_received (fold shutdown_step es s) = sh_received s + sh_pending s"
  using assms
proof (induction k arbitrary: s)
  case 0
  then show ?case by (intro exI [of _ "[Receive]"]) (simp add: sh_pending_def)
next
  case (Suc k)
  let ?t = "shutdown_step Forward (shutdown_step Receive s)"
  have "sh_signals ?t = k" "sh_received ?t + sh_pending ?t = sh_received s + sh_pending s"
    using Suc.prems by (auto simp: sh_pending_def)
  with Suc.IH obtain es where "Signal \<notin> set es" "sh_pending (fold shutdown_step es ?t) = 0"
      "sh_received (fold shutdown_step es ?t) = sh_received s + sh_pending s" by metis
  then show ?case by (intro exI [of _ "Receive # Forward # es"]) simp
qed

end
