(* ===== verification/Spec2Isabelle.thy ===== *)
theory Spec2Isabelle
  imports Startup Cluster PoolLimits Entry Shutdown
begin

text \<open>
\<^bold>\<open>cxy-sdn\<close>, a network daemon for container hosts: verification library.

  \<^bold>\<open>The program.\<close> Every node runs one daemon. It embeds a Consul agent (\<^verbatim>\<open>netAgent/\<close>), keeps networks, VNIs
  and address pools in Consul's key-value store (\<^verbatim>\<open>server/network.go\<close>), drives Open vSwitch through OVSDB
  (\<^verbatim>\<open>server/ovs_driver.go\<close>), plugs containers into networks, shapes and monitors their traffic
  (\<^verbatim>\<open>server/connection.go\<close>), keeps a VXLAN tunnel to every other node (\<^verbatim>\<open>server/backend.go\<close>) and serves an HTTP
  interface (\<^verbatim>\<open>server/api.go\<close>). \<^verbatim>\<open>server/daemon.go\<close> starts the goroutines. Two nodes meet only in the store, in the
  guarded writes of \<^verbatim>\<open>Put\<close>; two goroutines of a node meet in the daemon's record, the table of connections
  and the channels.

  \<^bold>\<open>Theories, from the bottom.\<close>
  \<^item> \<open>Prelude\<close>: the outcome of Go code (\<open>Ret\<close>, \<open>Panic\<close>, and no outcome within the fuel), sequencing (\<open>gbind\<close>), the
    collections \<open>keeps_intro\<close>, \<open>gives_intro\<close> and \<open>go_run\<close> that carry the invariant and evaluation proofs, byte slices,
    decimal text. \<open>GoNet\<close>, \<open>GoBase64\<close>, \<open>GoJson\<close>: what the program uses of Go's \<^verbatim>\<open>net\<close>, \<^verbatim>\<open>encoding/base64\<close> and
    \<^verbatim>\<open>encoding/json\<close>.
  \<^item> \<open>Bitmap\<close>, \<open>NetUtil\<close>: \<^verbatim>\<open>util/util.go\<close>. Bit vectors on byte lists (an index outside is \<^term>\<open>None\<close>, Go's
    panic), ranges and overlaps of networks, links and addresses over an interface record for netlink.
  \<^item> \<open>ConsulKV\<close>: the part of the vendored Consul behind the four requests of the program: state store, log
    entries, HTTP endpoint. The locale of a versioned store states what a guarded write promises; it is
    interpreted on this model.
  \<^item> \<open>NetAgent\<close>, \<open>Watch\<close>: \<^verbatim>\<open>netAgent/netAgent.go\<close>, \<^verbatim>\<open>consul.go\<close>, \<^verbatim>\<open>version.go\<close>. Get, Put and Delete run against a store in which
    other clients commit arbitrary entries before every request and requests get lost before or after they
    took effect (\<open>sched\<close>). Watches: the registry of listeners, the handlers and the loop of a plan.
  \<^item> \<open>IPAM\<close>, \<open>Allocation\<close>: the allocation functions of \<^verbatim>\<open>server/network.go\<close> and their theorems. \<open>Cluster\<close>: the same functions
    cut into single HTTP requests, any number of nodes at one pool. \<open>PoolLimits\<close>: full pools, static addresses, contended
    identifiers.
  \<^item> \<open>World\<close>: the state of a daemon process (\<open>world\<close>: store, host, OVSDB cache, daemon record, heap of
    connection objects, running monitors) and the host it runs on (\<open>host\<close>: netlink, namespaces, files,
    commands, random bytes, OVSDB), a record of functions on an arbitrary state. The locales \<open>os_inv\<close> and
    \<open>world_inv\<close> say which state changes an invariant has to survive; they are interpreted on the
    well-formed store, on the store and the process's own state being untouched, on properties of the daemon's
    record and on the invariant of the table of connections. \<open>Bitmap\<close> has the contract of a slot allocator.
  \<^item> \<open>OvsDriver\<close>: \<^verbatim>\<open>server/ovs_driver.go\<close>. \<open>NetworkMgr\<close>, \<open>NetworkProps\<close>, \<open>Reconcile\<close>: the rest of \<^verbatim>\<open>server/network.go\<close> and the
    packet filter rules.
  \<^item> \<open>SafeMap\<close>: the locked map of \<^verbatim>\<open>server/daemon.go\<close>, with its contract as a locale. \<open>Connections\<close>,
    \<open>ConnectionProps\<close>, \<open>Qos\<close>: \<^verbatim>\<open>server/connection.go\<close>. \<open>Backend\<close>: \<^verbatim>\<open>server/backend.go\<close> and the goroutines of \<^verbatim>\<open>server/daemon.go\<close>.
    \<open>Api\<close>, \<open>ApiProps\<close>: \<^verbatim>\<open>server/api.go\<close> and the matching of the vendored router.
  \<^item> \<open>System\<close>: the daemon as a step relation over all of these, its reachable states and their invariant;
    the locale \<open>server_inv\<close> has what every handler and goroutine keeps of the store and of the start-up state. \<open>Startup\<close>: the
    goroutines of \<^verbatim>\<open>Run\<close> with their program counters, a send on \<^verbatim>\<open>readyChan\<close> waiting for its receive; every run is a run of \<open>System\<close>.
    \<open>Entry\<close>: \<^verbatim>\<open>main.go\<close> and \<^verbatim>\<open>netAgent/demo/main.go\<close>. \<open>Shutdown\<close>: the shutdown channel of \<^verbatim>\<open>netAgent/consul.go\<close>.

  \<^bold>\<open>What is shown.\<close>
  \<^item> \<^emph>\<open>Store\<close>: Put is atomic under any interference; of two guarded writes of one version one wins at most;
    a value is read back byte for byte until it is deleted.
  \<^item> \<^emph>\<open>Allocation\<close>: requests refine the acquisition of slots (distinct addresses inside the subnet, exactly
    recorded); release undoes a request (\<open>RequestIP_ReleaseIP\<close>); the retry loop ends at the first undisturbed round; VNIs are the least
    free ones. Any number of nodes: addresses taken by accepted writes belong to one call at a time, in every
    interleaving of single requests and every pattern of failures, as long as no call whose write was refused
    gives its address back and other clients only mark further slots. The code does not keep to the first condition:
    \<open>loser_release_shares_address\<close> is the run in which such a call takes the winner's address away. Where the code falls
    short besides: a lost race, pools over the entry limit, full pools, foreign, static and contended addresses and identifiers.
  \<^item> \<^emph>\<open>Networks and switch\<close>: creation, lookup and deletion; the choice of the first free subnet; the
    packet filter commands that separate networks, from the networks of the store that served the read; a round of
    reconciliation with the ports it deletes (a failed read of the store counts as an empty one); the row cache follows
    the updates.
  \<^item> \<^emph>\<open>Membership\<close>: the listener's view is the last list of nodes, and the tunnels follow it.
  \<^item> \<^emph>\<open>Connections\<close>: an added container has the lowest free address, deletion gives it back, the thread
    comes back to its namespace on every path on which no call of \<^verbatim>\<open>netns.Set\<close> fails and closes its handles on all, hardware
    addresses are unique, traffic control is recorded as it was handed to \<^verbatim>\<open>tc\<close>, rates are those of the counters; leaks, panics and wrap-around are stated as such.
  \<^item> \<^emph>\<open>Interface and system\<close>: the router does not depend on Go's map order, statuses, reads
    change nothing, the life of a connection as a client sees it, and the invariant of all reachable states, from which
    the end of the monitors follows.
  \<^item> \<^emph>\<open>Start\<close>: in every interleaving the signal that the store works comes after the agent's start and the bridge, and
    before tunnels, the default network (made by servers only) and reconciliation; a signal deletes the bridge before the
    process exits; the listener that sends the ready signal never waits in vain.

  \<^bold>\<open>Fuel and bounds.\<close> The only loops with fuel are the retry loops of the allocation functions, which the code leaves when
    a write was not outdated. A round costs one unit; \<open>RequestIP_terminates\<close> shows that \<open>j + 1\<close> units are enough when round
    \<open>j\<close> is undisturbed, and a theorem for a store nobody else writes holds for every positive fuel. Endless loops
  (\<^verbatim>\<open>syncNetwork\<close>, \<^verbatim>\<open>connHandler\<close>, \<^verbatim>\<open>nodeHandler\<close>, \<^verbatim>\<open>getInterfaceInfo\<close>) are given by one turn, and \<open>System\<close> repeats them. Machine
  integers keep their width: \<^verbatim>\<open>uint\<close> and \<^verbatim>\<open>uint64\<close> are 64-bit words, bytes 8-bit words; the conversion of a counter to
  \<^verbatim>\<open>float64\<close> is rounded to 53 bits.

  \<^bold>\<open>Parameters.\<close> The host; \<open>render\<close>, the text of an operation in OVSDB's error messages; \<open>pf\<close>, \<^verbatim>\<open>strconv.ParseFloat\<close>; the
  schedule of the store; the order of Go's maps where it matters. What a theorem assumes of them is in its
  statement: that the database answers, that the calls that set up one interface succeed from the given state
  (\<open>setup_succeeds\<close>), what the kernel documents of namespace handles (\<open>netns_laws\<close>), or that a log of the commands is kept (\<open>exec_log\<close>);
  the witnesses use hosts on which these hold.

  \<^bold>\<open>Atomicity.\<close> In \<open>System\<close> and \<open>Startup\<close> one turn of a goroutine, up to its next channel operation on \<^verbatim>\<open>readyChan\<close>, is one step, in which other nodes still interfere at the store. Data
  races between goroutines of one process inside a turn (the code reads and writes connection objects outside the
  map's lock) are not modelled.

  \<^bold>\<open>Not modelled.\<close> Raft, sessions, ACLs and blocking queries of Consul (vendored; the store is its sequence of committed
  entries); the OVSDB server, the kernel and \<^verbatim>\<open>tc\<close>, \<^verbatim>\<open>iptables\<close>, \<^verbatim>\<open>ovs-vsctl\<close> (parameters); the listening sockets, \<^verbatim>\<open>pprof\<close>, response headers and the JSON text of responses; sleeps, tickers and logs;
  the callbacks of \<^verbatim>\<open>notifier\<close> with empty bodies; flag parsing; \<^verbatim>\<open>CreateNetwork2\<close>, which is commented out. What is left of the
  repository's own Go files without a definition is import lists, package variables whose state is in \<open>world\<close>, the two
  \<^verbatim>\<open>ListenAndServe\<close> calls of \<^verbatim>\<open>ServeApi\<close>, and methods that only log.
\<close>

end
